(* ===== verification/Warden_Prelude.thy ===== *)
theory Warden_Prelude
  imports Main "HOL-Library.Word" "HOL-Library.Char_ord" "HOL-Library.List_Lexorder" "HOL-Library.Sublist"
begin

text \<open>
  The prelude of the development: Rust's \<open>Result\<close> with a panic branch, strings and
  byte arrays, the association of characters with bytes, decimal printing of integers, ordered
  sets built by \<open>collect\<close> (\<open>BTreeSet\<close>), and the lemmas on lists that
  the component theories share.  Two fact collections drive the automation:
  \<open>res_split_rules\<close> holds the rules that take a successful \<open>?\<close>-chain apart,
  \<open>ext_simps\<close> the rewrite rules about ordered sets and byte encodings.
\<close>

named_theorems res_split_rules "inversion rules for results"
named_theorems ext_simps "rewrite rules on ordered sets and encodings"

section \<open>Results\<close>

text \<open>
  A Rust function of type \<open>Result\<close> returns \<open>Ok\<close> or \<open>Err\<close>; a function that may
  panic has the third outcome.  \<open>res_bind\<close> is the \<open>?\<close> operator.
\<close>

datatype ('e, 'a) res = Ok 'a | Err 'e | Panic

primrec res_bind :: "('e, 'a) res \<Rightarrow> ('a \<Rightarrow> ('e, 'b) res) \<Rightarrow> ('e, 'b) res" where
  "res_bind (Ok x) f = f x"
| "res_bind (Err e) f = Err e"
| "res_bind Panic f = Panic"

primrec res_map_err :: "('e \<Rightarrow> 'f) \<Rightarrow> ('e, 'a) res \<Rightarrow> ('f, 'a) res" where
  "res_map_err f (Ok x) = Ok x"
| "res_map_err f (Err e) = Err (f e)"
| "res_map_err f Panic = Panic"

primrec is_ok :: "('e, 'a) res \<Rightarrow> bool" where
  "is_ok (Ok x) = True"
| "is_ok (Err e) = False"
| "is_ok Panic = False"

definition ok_or :: "'e \<Rightarrow> 'a option \<Rightarrow> ('e, 'a) res" where
  "ok_or e v = (case v of None \<Rightarrow> Err e | Some x \<Rightarrow> Ok x)"

lemma res_bind_Ok_iff [res_split_rules]: "res_bind r f = Ok y \<longleftrightarrow> (\<exists>x. r = Ok x \<and> f x = Ok y)"
  by (cases r) auto

lemma res_bind_Err_iff [res_split_rules]:
  "res_bind r f = Err e \<longleftrightarrow> r = Err e \<or> (\<exists>x. r = Ok x \<and> f x = Err e)"
  by (cases r) auto

lemma res_bind_Panic_iff [res_split_rules]:
  "res_bind r f = Panic \<longleftrightarrow> r = Panic \<or> (\<exists>x. r = Ok x \<and> f x = Panic)"
  by (cases r) auto

lemma res_map_err_Ok_iff [res_split_rules, simp]: "res_map_err f r = Ok x \<longleftrightarrow> r = Ok x"
  by (cases r) auto

lemma res_map_err_Err_iff [res_split_rules]: "res_map_err f r = Err e \<longleftrightarrow> (\<exists>d. r = Err d \<and> e = f d)"
  by (cases r) auto

lemma res_map_err_Panic_iff [res_split_rules, simp]: "res_map_err f r = Panic \<longleftrightarrow> r = Panic"
  by (cases r) auto

lemma ok_or_Ok_iff [res_split_rules, simp]: "ok_or e v = Ok x \<longleftrightarrow> v = Some x"
  by (cases v) (auto simp: ok_or_def)

lemma ok_or_Err_iff [res_split_rules, simp]: "ok_or e v = Err d \<longleftrightarrow> v = None \<and> d = e"
  by (cases v) (auto simp: ok_or_def)

lemma ok_or_Panic [simp]: "ok_or e v \<noteq> Panic"
  by (cases v) (auto simp: ok_or_def)

lemma ok_or_simps [simp]: "ok_or e (Some x) = Ok x" "ok_or e None = Err e"
  by (simp_all add: ok_or_def)

lemma is_ok_iff: "is_ok r \<longleftrightarrow> (\<exists>x. r = Ok x)"
  by (cases r) auto

text \<open>\<open>iter().map(f).collect::<Result<Vec<_>, _>>()\<close>: the first error ends the traversal.\<close>

fun res_mapM :: "('a \<Rightarrow> ('e, 'b) res) \<Rightarrow> 'a list \<Rightarrow> ('e, 'b list) res" where
  "res_mapM f [] = Ok []"
| "res_mapM f (x # xs) = res_bind (f x) (\<lambda>y. res_bind (res_mapM f xs) (\<lambda>ys. Ok (y # ys)))"

lemma res_mapM_Ok_iff: "res_mapM f xs = Ok ys \<longleftrightarrow> list_all2 (\<lambda>x y. f x = Ok y) xs ys"
  by (induction xs arbitrary: ys) (auto simp: res_split_rules list_all2_Cons1)

lemma res_mapM_Err: "res_mapM f xs = Err e \<Longrightarrow> \<exists>x \<in> set xs. f x = Err e"
  by (induction xs) (auto simp: res_split_rules)

lemma res_mapM_Panic: "res_mapM f xs = Panic \<Longrightarrow> \<exists>x \<in> set xs. f x = Panic"
  by (induction xs) (auto simp: res_split_rules)

lemma res_mapM_total:
  assumes "\<And>x. x \<in> set xs \<Longrightarrow> f x = Ok (g x)"
  shows "res_mapM f xs = Ok (map g xs)"
  using assms by (induction xs) auto

lemma res_mapM_Ok_set: "res_mapM f xs = Ok ys \<Longrightarrow> set ys = {y. \<exists>x \<in> set xs. f x = Ok y}"
  by (induction xs arbitrary: ys) (auto simp: res_split_rules)

section \<open>Operations on the world\<close>

text \<open>
  An operation that may fail and acts on a world of type \<open>'w\<close>.  \<open>io_draw\<close> is an
  operation that cannot fail (reading the clock, drawing a random value).
\<close>

type_synonym ('w, 'e, 'a) io = "'w \<Rightarrow> ('e, 'a) res \<times> 'w"

definition io_lift :: "('e, 'a) res \<Rightarrow> ('w, 'e, 'a) io" where
  "io_lift r w = (r, w)"

definition io_draw :: "('w \<Rightarrow> 'a \<times> 'w) \<Rightarrow> ('w, 'e, 'a) io" where
  "io_draw f w = (case f w of (x, w') \<Rightarrow> (Ok x, w'))"

definition io_bind :: "('w, 'e, 'a) io \<Rightarrow> ('a \<Rightarrow> ('w, 'e, 'b) io) \<Rightarrow> ('w, 'e, 'b) io" where
  "io_bind m f w =
     (case m w of (Ok x, w') \<Rightarrow> f x w' | (Err e, w') \<Rightarrow> (Err e, w') | (Panic, w') \<Rightarrow> (Panic, w'))"

definition io_map_err :: "('e \<Rightarrow> 'f) \<Rightarrow> ('w, 'e, 'a) io \<Rightarrow> ('w, 'f, 'a) io" where
  "io_map_err f m w = (case m w of (r, w') \<Rightarrow> (res_map_err f r, w'))"

lemma io_bind_Ok_iff [res_split_rules]:
  "io_bind m f w = (Ok y, w') \<longleftrightarrow> (\<exists>x w1. m w = (Ok x, w1) \<and> f x w1 = (Ok y, w'))"
  by (auto simp: io_bind_def split: prod.splits res.splits)

lemma io_bind_Err_iff [res_split_rules]:
  "io_bind m f w = (Err e, w') \<longleftrightarrow>
    m w = (Err e, w') \<or> (\<exists>x w1. m w = (Ok x, w1) \<and> f x w1 = (Err e, w'))"
  by (auto simp: io_bind_def split: prod.splits res.splits)

lemma io_lift_iff [simp]: "io_lift r w = (q, w') \<longleftrightarrow> r = q \<and> w' = w"
  by (auto simp: io_lift_def)

lemma io_draw_Ok_iff [simp]: "io_draw f w = (Ok x, w') \<longleftrightarrow> f w = (x, w')"
  by (auto simp: io_draw_def split: prod.splits)

lemma io_draw_not_Err [simp]: "io_draw f w \<noteq> (Err e, w')" "io_draw f w \<noteq> (Panic, w')"
  by (auto simp: io_draw_def split: prod.splits)

lemma io_map_err_Ok_iff [simp]: "io_map_err f m w = (Ok x, w') \<longleftrightarrow> m w = (Ok x, w')"
  by (auto simp: io_map_err_def split: prod.splits)

lemma io_map_err_Err_iff [res_split_rules]:
  "io_map_err f m w = (Err e, w') \<longleftrightarrow> (\<exists>d. m w = (Err d, w') \<and> e = f d)"
  by (auto simp: io_map_err_def res_map_err_Err_iff split: prod.splits)

lemma io_bind_lift [simp]: "io_bind (io_lift (Ok x)) f w = f x w" "io_bind (io_lift (Err e)) f w = (Err e, w)"
    "io_bind (io_lift Panic) f w = (Panic, w)"
  by (simp_all add: io_bind_def io_lift_def)

lemma io_bind_draw: "d w = (x, w') \<Longrightarrow> io_bind (io_draw d) f w = f x w'"
  by (simp add: io_bind_def io_draw_def)

section \<open>Strings, bytes, integers\<close>

text \<open>
  A Rust \<open>String\<close>, \<open>OsString\<close> or \<open>PathBuf\<close> is its byte sequence, a HOL
  \<^typ>\<open>string\<close> whose characters are bytes; a byte array is a list of 8-bit words.
\<close>

type_synonym u8 = "8 word"
type_synonym u16 = "16 word"
type_synonym u64 = "64 word"
type_synonym uuid = "128 word"
type_synonym bytes = "u8 list"
type_synonym path = string
type_synonym datetime = int

definition char_byte :: "char \<Rightarrow> u8" where
  "char_byte c = word_of_nat (of_char c)"

definition as_bytes :: "string \<Rightarrow> bytes" where
  "as_bytes s = map char_byte s"

lemma char_byte_inject [simp]: "char_byte c = char_byte d \<longleftrightarrow> c = d"
proof
  assume "char_byte c = char_byte d"
  then have "unat (char_byte c) = unat (char_byte d)" by simp
  moreover have "unat (char_byte e) = of_char e" for e
    using nat_of_char_less_256 [of e] by (simp add: char_byte_def unsigned_of_nat take_bit_eq_mod)
  ultimately have "(of_char c :: nat) = of_char d" by simp
  then show "c = d" by (simp add: of_char_eq_iff)
qed simp

lemma as_bytes_inject [simp]: "as_bytes s = as_bytes t \<longleftrightarrow> s = t"
proof -
  have "inj char_byte" by (simp add: inj_def)
  then show ?thesis by (simp add: as_bytes_def inj_map_eq_map)
qed

lemma length_as_bytes [simp]: "length (as_bytes s) = length s"
  by (simp add: as_bytes_def)

text \<open>\<open>to_be_bytes\<close>: the value's low \<open>k\<close> bytes, most significant first.\<close>

fun be_bytes :: "nat \<Rightarrow> nat \<Rightarrow> bytes" where
  "be_bytes 0 n = []"
| "be_bytes (Suc k) n = be_bytes k (n div 256) @ [word_of_nat (n mod 256)]"

lemma length_be_bytes [simp]: "length (be_bytes k n) = k"
  by (induction k n rule: be_bytes.induct) auto

lemma byte_of_mod_inject:
  assumes "(word_of_nat (m mod 256) :: u8) = word_of_nat (n mod 256)"
  shows "m mod 256 = n mod 256"
proof -
  have "unat (word_of_nat (k mod 256) :: u8) = k mod 256" for k
    by (simp add: unsigned_of_nat take_bit_eq_mod)
  with assms show ?thesis by metis
qed

lemma be_bytes_inject:
  "m < 256 ^ k \<Longrightarrow> n < 256 ^ k \<Longrightarrow> be_bytes k m = be_bytes k n \<Longrightarrow> m = n"
proof (induction k arbitrary: m n)
  case 0
  then show ?case by simp
next
  case (Suc k)
  from Suc.prems(3) have lo: "m mod 256 = n mod 256"
    by (auto dest: byte_of_mod_inject)
  from Suc.prems have "m div 256 < 256 ^ k" "n div 256 < 256 ^ k"
    by (simp_all add: less_mult_imp_div_less mult.commute)
  with Suc.IH Suc.prems(3) have hi: "m div 256 = n div 256" by simp
  from lo hi show ?case by (metis div_mult_mod_eq)
qed

text \<open>\<open>Display\<close> of integers.\<close>

definition digit_char :: "nat \<Rightarrow> char" where
  "digit_char d = char_of (48 + d)"

fun show_nat :: "nat \<Rightarrow> string" where
  "show_nat n = (if n < 10 then [digit_char n] else show_nat (n div 10) @ [digit_char (n mod 10)])"

declare show_nat.simps [simp del]

definition show_int :: "int \<Rightarrow> string" where
  "show_int i = (if i < 0 then ''-'' @ show_nat (nat (- i)) else show_nat (nat i))"

section \<open>Ordered sets\<close>

text \<open>
  A \<open>BTreeSet\<close> is the strictly increasing list of its elements.  \<open>collect\<close> sorts the
  items by their key and keeps the last of equal ones, as \<open>BTreeSet::from_iter\<close> does.  For
  \<open>String\<close> the key is the string; for \<open>PathBuf\<close> it is the list of components,
  on which its \<open>Eq\<close> and \<open>Ord\<close> are defined.
\<close>

fun dedup_last :: "('a \<Rightarrow> 'k) \<Rightarrow> 'a list \<Rightarrow> 'a list" where
  "dedup_last key [] = []"
| "dedup_last key [x] = [x]"
| "dedup_last key (x # y # zs) =
     (if key x = key y then dedup_last key (y # zs) else x # dedup_last key (y # zs))"

definition btree_collect :: "('a \<Rightarrow> 'k::linorder) \<Rightarrow> 'a list \<Rightarrow> 'a list" where
  "btree_collect key xs = dedup_last key (sort_key key xs)"

definition btree_ok :: "('a \<Rightarrow> 'k::linorder) \<Rightarrow> 'a list \<Rightarrow> bool" where
  "btree_ok key xs \<longleftrightarrow> sorted_wrt (\<lambda>x y. key x < key y) xs"

lemma set_dedup_last_subset: "set (dedup_last key xs) \<subseteq> set xs"
  by (induction key xs rule: dedup_last.induct) auto

lemma keys_dedup_last: "key ` set (dedup_last key xs) = key ` set xs"
  by (induction key xs rule: dedup_last.induct) auto

lemma dedup_last_ok: "sorted (map key xs) \<Longrightarrow> btree_ok key (dedup_last key xs)"
proof (induction key xs rule: dedup_last.induct)
  case (3 key x y zs)
  show ?case
  proof (cases "key x = key y")
    case True
    with 3 show ?thesis by simp
  next
    case False
    have "key x < key z" if "z \<in> set (dedup_last key (y # zs))" for z
      using that False "3.prems" set_dedup_last_subset [of key "y # zs"] by fastforce
    with 3 False show ?thesis by (simp add: btree_ok_def)
  qed
qed (simp_all add: btree_ok_def)

lemma btree_collect_ok [simp, intro]: "btree_ok key (btree_collect key xs)"
  by (simp add: btree_collect_def dedup_last_ok)

lemma set_btree_collect_subset: "set (btree_collect key xs) \<subseteq> set xs"
  using set_dedup_last_subset [of key "sort_key key xs"] by (simp add: btree_collect_def)

lemma keys_btree_collect [ext_simps]: "key ` set (btree_collect key xs) = key ` set xs"
  by (simp add: btree_collect_def keys_dedup_last)

lemma btree_ok_keys: "btree_ok key xs \<longleftrightarrow> sorted_wrt (<) (map key xs)"
  by (simp add: btree_ok_def sorted_wrt_map)

lemma btree_keys_eqI:
  assumes "btree_ok key xs" "btree_ok key ys" "key ` set xs = key ` set ys"
  shows "map key xs = map key ys"
  using assms by (intro strict_sorted_equal) (simp_all add: btree_ok_keys)

lemma set_btree_collect_id [ext_simps]: "set (btree_collect (\<lambda>x. x) xs) = set xs"
  using keys_btree_collect [of "\<lambda>x. x" xs] by simp

lemma btree_collect_fixed:
  assumes "btree_ok key xs"
  shows "btree_collect key xs = xs"
proof -
  from assms have "sorted (map key xs)"
    by (simp add: btree_ok_keys strict_sorted_iff)
  moreover have "dedup_last key xs = xs"
    using assms by (induction key xs rule: dedup_last.induct) (auto simp: btree_ok_def)
  ultimately show ?thesis by (simp add: btree_collect_def sort_key_id_if_sorted)
qed

section \<open>Lists\<close>

lemma append_eq_same_length:
  "length a = length c \<Longrightarrow> a @ b = c @ d \<longleftrightarrow> a = c \<and> b = d"
  by (rule append_eq_append_conv) simp

lemma append_eq_same_suffix_length:
  "length b = length d \<Longrightarrow> a @ b = c @ d \<longleftrightarrow> a = c \<and> b = d"
  by (rule append_eq_append_conv) simp

text \<open>A delimiter that occurs in neither prefix separates two concatenations.\<close>

lemma append_delim_inject:
  "x \<notin> set a \<Longrightarrow> x \<notin> set c \<Longrightarrow> a @ x # b = c @ x # d \<Longrightarrow> a = c \<and> b = d"
  by (induction a arbitrary: c) (auto simp: Cons_eq_append_conv)

end
