(* ===== verification/Rust_Path.thy ===== *)
theory Rust_Path
  imports Rust_Text
begin

text \<open>
  \<open>std::path\<close> on Unix: a path is a byte string, compared, ordered and prefixed by its
  components.  The operations are the ones the program calls: \<open>components\<close>,
  \<open>is_absolute\<close>, \<open>parent\<close>, \<open>file_name\<close>, \<open>push\<close>,
  \<open>components().collect()\<close>, \<open>starts_with\<close>, \<open>==\<close> and \<open>display\<close>.  The
  file system itself is a parameter: \<open>Path::exists\<close> and \<open>Path::canonicalize\<close> as
  functions of the path.
\<close>

section \<open>Components\<close>

datatype component = RootDir | CurDir | ParentDir | Normal string

primrec component_rank :: "component \<Rightarrow> nat" where
  "component_rank RootDir = 0"
| "component_rank CurDir = 1"
| "component_rank ParentDir = 2"
| "component_rank (Normal s) = 3"

primrec component_str :: "component \<Rightarrow> string" where
  "component_str RootDir = ''/''"
| "component_str CurDir = ''.''"
| "component_str ParentDir = ''..''"
| "component_str (Normal s) = s"

text \<open>The derived order of \<open>Component\<close>: by variant, then by the bytes of the name.\<close>

instantiation component :: linorder
begin

definition less_component :: "component \<Rightarrow> component \<Rightarrow> bool" where
  "less_component a b \<longleftrightarrow> component_rank a < component_rank b
     \<or> component_rank a = component_rank b \<and> component_str a < component_str b"

definition less_eq_component :: "component \<Rightarrow> component \<Rightarrow> bool" where
  "less_eq_component a b \<longleftrightarrow> a = b \<or> a < (b :: component)"

instance
proof
  fix x y z :: component
  show "x < y \<longleftrightarrow> x \<le> y \<and> \<not> y \<le> x"
    by (cases x; cases y) (auto simp: less_component_def less_eq_component_def)
  show "x \<le> x" by (simp add: less_eq_component_def)
  show "x \<le> y \<Longrightarrow> y \<le> z \<Longrightarrow> x \<le> z"
    by (cases x; cases y; cases z) (auto simp: less_component_def less_eq_component_def)
  show "x \<le> y \<Longrightarrow> y \<le> x \<Longrightarrow> x = y"
    by (cases x; cases y) (auto simp: less_component_def less_eq_component_def)
  show "x \<le> y \<or> y \<le> x"
    by (cases x; cases y) (auto simp: less_component_def less_eq_component_def)
qed

end

fun split_on :: "char \<Rightarrow> string \<Rightarrow> string list" where
  "split_on c [] = [[]]"
| "split_on c (x # xs) =
     (if x = c then [] # split_on c xs
      else case split_on c xs of [] \<Rightarrow> [[x]] | y # ys \<Rightarrow> (x # y) # ys)"

fun join_with :: "char \<Rightarrow> string list \<Rightarrow> string" where
  "join_with c [] = []"
| "join_with c [x] = x"
| "join_with c (x # y # zs) = x @ c # join_with c (y # zs)"

definition is_absolute :: "path \<Rightarrow> bool" where
  "is_absolute p \<longleftrightarrow> (case p of [] \<Rightarrow> False | c # _ \<Rightarrow> c = CHR ''/'')"

text \<open>\<open>include_cur_dir\<close>: a relative path whose first segment is a single dot.\<close>

definition leads_cur_dir :: "path \<Rightarrow> bool" where
  "leads_cur_dir p \<longleftrightarrow> hd (split_on (CHR ''/'') p) = ''.''"

definition path_lead :: "path \<Rightarrow> component list" where
  "path_lead p = (if is_absolute p then [RootDir] else if leads_cur_dir p then [CurDir] else [])"

text \<open>\<open>parse_single_component\<close>: empty segments and single dots are skipped.\<close>

definition parse_single_component :: "string \<Rightarrow> component option" where
  "parse_single_component s =
     (if s = '''' \<or> s = ''.'' then None else if s = ''..'' then Some ParentDir else Some (Normal s))"

definition body_segments :: "path \<Rightarrow> string list" where
  "body_segments p = split_on (CHR ''/'') (drop (length (path_lead p)) p)"

definition components :: "path \<Rightarrow> component list" where
  "components p = path_lead p @ List.map_filter parse_single_component (body_segments p)"

definition path_eq :: "path \<Rightarrow> path \<Rightarrow> bool" where
  "path_eq p q \<longleftrightarrow> components p = components q"

definition path_starts_with :: "path \<Rightarrow> path \<Rightarrow> bool" where
  "path_starts_with p root \<longleftrightarrow> prefix (components root) (components p)"

definition path_display :: "path \<Rightarrow> string" where
  "path_display p = utf8_lossy p"

section \<open>Parent, file name, push\<close>

definition blank_segment :: "string \<Rightarrow> bool" where
  "blank_segment s \<longleftrightarrow> s = '''' \<or> s = ''.''"

definition trim_segments :: "string list \<Rightarrow> string list" where
  "trim_segments ss = rev (dropWhile blank_segment (rev ss))"

text \<open>
  \<open>Path::parent\<close>: drop the last component and what trails the one before it.  The result is
  a slice of the original bytes, so repeated separators inside it are kept.
\<close>

definition path_parent :: "path \<Rightarrow> path option" where
  "path_parent p =
     (let ss = trim_segments (body_segments p) in
      if ss = [] then (if path_lead p = [CurDir] then Some '''' else None)
      else Some (take (length (path_lead p)) p @ join_with (CHR ''/'') (trim_segments (butlast ss))))"

definition file_name :: "path \<Rightarrow> string option" where
  "file_name p =
     (case rev (components p) of Normal s # _ \<Rightarrow> Some s | _ \<Rightarrow> None)"

definition path_push :: "path \<Rightarrow> string \<Rightarrow> path" where
  "path_push p c =
     (if is_absolute c then c
      else if p = [] \<or> last p = CHR ''/'' then p @ c
      else p @ CHR ''/'' # c)"

text \<open>\<open>components().collect::<PathBuf>()\<close>.\<close>

definition collect_path :: "component list \<Rightarrow> path" where
  "collect_path cs = foldl path_push [] (map component_str cs)"

definition normal_name :: "string \<Rightarrow> bool" where
  "normal_name s \<longleftrightarrow> s \<noteq> '''' \<and> s \<noteq> ''.'' \<and> s \<noteq> ''..'' \<and> CHR ''/'' \<notin> set s"

section \<open>Segments\<close>

lemma split_on_nonempty [simp]: "split_on c s \<noteq> []"
  by (induction s) (auto split: list.splits)

lemma split_on_notin [simp]: "c \<notin> set s \<Longrightarrow> split_on c s = [s]"
  by (induction s) auto

lemma split_on_append: "split_on c (a @ c # b) = split_on c a @ split_on c b"
  by (induction a) (auto split: list.splits)

lemma split_on_segment: "x \<in> set (split_on c s) \<Longrightarrow> c \<notin> set x"
  by (induction s arbitrary: x) (fastforce split: list.splits if_splits)+

lemma join_split [simp]: "join_with c (split_on c s) = s"
proof (induction s)
  case (Cons x s)
  obtain y ys where "split_on c s = y # ys" by (cases "split_on c s") auto
  with Cons show ?case by (cases ys) auto
qed simp

lemma split_join:
  "ss \<noteq> [] \<Longrightarrow> (\<And>x. x \<in> set ss \<Longrightarrow> c \<notin> set x) \<Longrightarrow> split_on c (join_with c ss) = ss"
  by (induction c ss rule: join_with.induct) (simp_all add: split_on_append)

lemma length_join_butlast:
  "length (join_with c (butlast ss)) + length (last ss) \<le> length (join_with c ss)" if "ss \<noteq> []"
  using that
proof (induction c ss rule: join_with.induct)
  case (3 c x y zs)
  then show ?case by (cases zs) auto
qed auto

lemma map_filter_parse_append [simp]:
  "List.map_filter f (a @ b) = List.map_filter f a @ List.map_filter f b"
  by (induction a) (simp_all add: map_filter_simps split: option.splits)

lemma parse_single_None_iff [simp]: "parse_single_component s = None \<longleftrightarrow> blank_segment s"
  by (simp add: parse_single_component_def blank_segment_def)

lemma trim_segments_split: "\<exists>bs. ss = trim_segments ss @ bs \<and> list_all blank_segment bs"
proof -
  have "rev ss = takeWhile blank_segment (rev ss) @ dropWhile blank_segment (rev ss)" by simp
  then have "ss = trim_segments ss @ rev (takeWhile blank_segment (rev ss))"
    unfolding trim_segments_def by (metis rev_append rev_rev_ident)
  moreover have "list_all blank_segment (rev (takeWhile blank_segment (rev ss)))"
    by (auto simp: list_all_iff dest: set_takeWhileD)
  ultimately show ?thesis by blast
qed

lemma map_filter_blanks: "list_all blank_segment bs \<Longrightarrow> List.map_filter parse_single_component bs = []"
  by (induction bs) (auto simp: map_filter_simps split: option.splits)

lemma map_filter_trim [simp]:
  "List.map_filter parse_single_component (trim_segments ss) = List.map_filter parse_single_component ss"
proof -
  obtain bs where bs: "ss = trim_segments ss @ bs" "list_all blank_segment bs"
    using trim_segments_split by blast
  show ?thesis by (subst (2) bs(1)) (simp add: map_filter_blanks [OF bs(2)])
qed

lemma set_trim_segments: "x \<in> set (trim_segments ss) \<Longrightarrow> x \<in> set ss"
  by (auto simp: trim_segments_def dest: set_dropWhileD)

lemma last_trim_segments: "trim_segments ss \<noteq> [] \<Longrightarrow> \<not> blank_segment (last (trim_segments ss))"
  using hd_dropWhile [of blank_segment "rev ss"]
  by (simp add: trim_segments_def last_rev del: dropWhile_eq_Nil_conv)

lemma length_join_trim: "length (join_with c (trim_segments ss)) \<le> length (join_with c ss)"
proof -
  have "length (join_with c a) \<le> length (join_with c (a @ b))" for a b
    by (induction c a rule: join_with.induct) (cases b; simp)+
  then show ?thesis by (metis trim_segments_split)
qed

section \<open>Facts about paths\<close>

lemma is_absolute_Cons: "is_absolute p \<longleftrightarrow> (\<exists>q. p = CHR ''/'' # q)"
  by (cases p) (auto simp: is_absolute_def)

lemma components_absolute:
  "is_absolute p \<Longrightarrow> components p = RootDir # List.map_filter parse_single_component (body_segments p)"
  by (simp add: components_def path_lead_def)

lemma parse_single_component_cases:
  "parse_single_component s = Some c \<Longrightarrow> CHR ''/'' \<notin> set s \<Longrightarrow>
    c = ParentDir \<or> (\<exists>n. c = Normal n \<and> normal_name n)"
  by (auto simp: parse_single_component_def normal_name_def split: if_splits)

lemma set_map_filter_iff: "x \<in> set (List.map_filter f xs) \<longleftrightarrow> (\<exists>y \<in> set xs. f y = Some x)"
  by (induction xs) (auto simp: map_filter_simps split: option.splits)

text \<open>Behind the lead, a component is \<open>..\<close> or a proper name; in an absolute path no
  component is \<open>.\<close>.\<close>

lemma body_component:
  "c \<in> set (List.map_filter parse_single_component (body_segments p)) \<Longrightarrow>
    c = ParentDir \<or> (\<exists>n. c = Normal n \<and> normal_name n)"
  by (auto simp: set_map_filter_iff body_segments_def
      dest: parse_single_component_cases split_on_segment)

lemma absolute_no_cur_dir: "is_absolute p \<Longrightarrow> CurDir \<notin> set (components p)"
  by (auto simp: components_absolute dest: body_component)

lemma is_absolute_iff_components: "is_absolute p \<longleftrightarrow> (\<exists>cs. components p = RootDir # cs)"
proof
  assume "\<exists>cs. components p = RootDir # cs"
  moreover have "RootDir \<notin> set (List.map_filter parse_single_component (body_segments p))"
    using body_component by blast
  ultimately show "is_absolute p"
    by (auto simp: components_def path_lead_def split: if_splits)
qed (auto simp: components_absolute)

lemma parse_single_normal: "normal_name c \<Longrightarrow> parse_single_component c = Some (Normal c)"
  by (simp add: parse_single_component_def normal_name_def)

lemma normal_name_not_absolute: "normal_name c \<Longrightarrow> \<not> is_absolute c"
  by (auto simp: normal_name_def is_absolute_Cons)

text \<open>Appending a segment to a path leaves the lead alone and adds one body segment.\<close>

lemma path_lead_append: "p \<noteq> [] \<Longrightarrow> path_lead (p @ CHR ''/'' # c) = path_lead p"
  by (cases p)
    (auto simp: path_lead_def is_absolute_def leads_cur_dir_def split_on_append split: list.splits)

lemma length_path_lead: "length (path_lead p) \<le> length p"
  by (cases p) (auto simp: path_lead_def leads_cur_dir_def is_absolute_def)

lemma body_segments_append:
  assumes "p \<noteq> []" "CHR ''/'' \<notin> set c"
  shows "body_segments (p @ CHR ''/'' # c) = body_segments p @ [c]"
  using assms length_path_lead [of p]
  by (simp add: body_segments_def path_lead_append split_on_append)

lemma components_append_slash:
  assumes "p \<noteq> []" "normal_name c"
  shows "components (p @ CHR ''/'' # c) = components p @ [Normal c]"
proof -
  from assms(2) have "CHR ''/'' \<notin> set c" by (simp add: normal_name_def)
  with assms show ?thesis
    by (simp add: components_def path_lead_append body_segments_append parse_single_normal map_filter_simps)
qed

lemma components_Nil [simp]: "components [] = []"
  by (simp add: components_def path_lead_def is_absolute_def leads_cur_dir_def body_segments_def
      parse_single_component_def map_filter_simps)

lemma components_root [simp]: "components ''/'' = [RootDir]"
  by (simp add: components_def path_lead_def is_absolute_def body_segments_def
      parse_single_component_def map_filter_simps)

lemma components_normal: "normal_name c \<Longrightarrow> components c = [Normal c]"
  by (auto simp: components_def path_lead_def normal_name_not_absolute leads_cur_dir_def normal_name_def
      body_segments_def parse_single_component_def map_filter_simps)

lemma components_root_append: "normal_name c \<Longrightarrow> components (CHR ''/'' # c) = [RootDir, Normal c]"
  by (simp add: components_def path_lead_def is_absolute_def body_segments_def normal_name_def
      parse_single_component_def map_filter_simps)

lemma components_trailing_slash:
  assumes "p \<noteq> []"
  shows "components (p @ ''/'') = components p"
  using assms body_segments_append [of p "[]"] path_lead_append [of p "[]"]
  by (simp add: components_def parse_single_component_def map_filter_simps)

lemma components_push [simp]:
  assumes "normal_name c"
  shows "components (path_push p c) = components p @ [Normal c]"
proof -
  consider "p = []" | "p \<noteq> []" "last p \<noteq> CHR ''/''" | "p = ''/''"
    | q where "q \<noteq> []" "p = q @ ''/''"
    by (metis append_butlast_last_id append_Nil)
  then show ?thesis
    by cases (simp_all add: path_push_def assms normal_name_not_absolute components_normal
        components_append_slash components_root_append components_trailing_slash)
qed

lemma components_foldl_push:
  "list_all normal_name ns \<Longrightarrow> components (foldl path_push p ns) = components p @ map Normal ns"
  by (induction ns arbitrary: p) simp_all

text \<open>A path made of a root and proper names.\<close>

definition plain_components :: "component list \<Rightarrow> bool" where
  "plain_components cs \<longleftrightarrow> (\<exists>ns. cs = RootDir # map Normal ns \<and> list_all normal_name ns)"

lemma components_collect:
  "plain_components cs \<Longrightarrow> components (collect_path cs) = cs"
  by (auto simp: plain_components_def collect_path_def path_push_def is_absolute_def comp_def
      components_foldl_push)

lemma normal_components_names:
  "list_all (\<lambda>c. \<exists>n. c = Normal n \<and> normal_name n) cs \<Longrightarrow>
    \<exists>ns. cs = map Normal ns \<and> list_all normal_name ns"
proof (induction cs)
  case (Cons c cs)
  then obtain n ns where "c = Normal n" "normal_name n" "cs = map Normal ns" "list_all normal_name ns"
    by auto
  then show ?case by (intro exI [of _ "n # ns"]) simp
qed simp

lemma plain_componentsI:
  assumes "is_absolute p" "ParentDir \<notin> set (components p)"
  shows "plain_components (components p)"
proof -
  let ?b = "List.map_filter parse_single_component (body_segments p)"
  have "list_all (\<lambda>c. \<exists>n. c = Normal n \<and> normal_name n) ?b"
    using assms body_component by (fastforce simp: components_absolute list_all_iff)
  from normal_components_names [OF this] assms(1) show ?thesis
    by (auto simp: components_absolute plain_components_def)
qed

lemma plain_components_iff:
  "plain_components (components p) \<longleftrightarrow>
    is_absolute p \<and> CurDir \<notin> set (components p) \<and> ParentDir \<notin> set (components p)"
proof
  assume "plain_components (components p)"
  then show "is_absolute p \<and> CurDir \<notin> set (components p) \<and> ParentDir \<notin> set (components p)"
    by (auto simp: plain_components_def is_absolute_iff_components)
qed (auto intro: plain_componentsI)

section \<open>Facts about parents\<close>

lemma length_parent: "path_parent p = Some q \<Longrightarrow> length q < length p"
proof -
  assume q: "path_parent p = Some q"
  let ?k = "length (path_lead p)" and ?ss = "trim_segments (body_segments p)"
  show "length q < length p"
  proof (cases "?ss = []")
    case True
    with q have "path_lead p = [CurDir]" "q = []"
      by (auto simp: path_parent_def Let_def split: if_splits)
    with length_path_lead [of p] show ?thesis by (cases p) auto
  next
    case False
    with q have qd: "q = take ?k p @ join_with (CHR ''/'') (trim_segments (butlast ?ss))"
      by (auto simp: path_parent_def Let_def)
    have "length (join_with (CHR ''/'') (trim_segments (butlast ?ss))) + length (last ?ss)
        \<le> length (join_with (CHR ''/'') ?ss)"
      using length_join_trim [of _ "butlast ?ss"] length_join_butlast [OF False] order_trans
      by (metis add_le_mono1)
    moreover have "length (join_with (CHR ''/'') ?ss) \<le> length p - ?k"
      using length_join_trim [of _ "body_segments p"] by (metis body_segments_def join_split length_drop)
    moreover have "0 < length (last ?ss)"
      using last_trim_segments [OF False] by (auto simp: blank_segment_def)
    ultimately show ?thesis
      using length_path_lead [of p] by (simp add: qd del: length_greater_0_conv)
  qed
qed

lemma parent_absolute_eq:
  assumes "is_absolute p"
  shows "path_parent p =
    (let ss = trim_segments (body_segments p) in
     if ss = [] then None
     else Some (CHR ''/'' # join_with (CHR ''/'') (trim_segments (butlast ss))))"
  using assms by (auto simp: path_parent_def path_lead_def is_absolute_Cons Let_def)

lemma components_root_join:
  assumes "\<And>x. x \<in> set ss \<Longrightarrow> CHR ''/'' \<notin> set x"
  shows "components (CHR ''/'' # join_with (CHR ''/'') ss)
    = RootDir # List.map_filter parse_single_component ss"
proof (cases "ss = []")
  case False
  with assms show ?thesis
    by (simp add: components_def path_lead_def is_absolute_def body_segments_def split_join)
qed (simp add: map_filter_simps)

lemma segments_last:
  assumes "ss \<noteq> []" "\<not> blank_segment (last ss)"
  shows "List.map_filter parse_single_component ss =
    List.map_filter parse_single_component (butlast ss) @ [the (parse_single_component (last ss))]"
proof -
  have "ss = butlast ss @ [last ss]" using assms(1) by simp
  then have "List.map_filter parse_single_component ss =
    List.map_filter parse_single_component (butlast ss) @ List.map_filter parse_single_component [last ss]"
    by (metis map_filter_parse_append)
  moreover obtain c where "parse_single_component (last ss) = Some c"
    using assms(2) parse_single_None_iff by blast
  ultimately show ?thesis by (simp add: map_filter_simps)
qed

lemma components_parent:
  assumes "is_absolute p"
  shows "path_parent p = Some q \<Longrightarrow> components q = butlast (components p) \<and> is_absolute q"
    and "path_parent p = None \<longleftrightarrow> components p = [RootDir]"
proof -
  let ?ss = "trim_segments (body_segments p)"
  have comps: "components p = RootDir # List.map_filter parse_single_component ?ss"
    using assms by (simp add: components_absolute)
  have noslash: "CHR ''/'' \<notin> set x" if "x \<in> set ?ss" for x
    using that set_trim_segments split_on_segment unfolding body_segments_def by blast
  show "components q = butlast (components p) \<and> is_absolute q" if "path_parent p = Some q"
  proof -
    from that assms have ne: "?ss \<noteq> []"
      and q: "q = CHR ''/'' # join_with (CHR ''/'') (trim_segments (butlast ?ss))"
      by (auto simp: parent_absolute_eq Let_def split: if_splits)
    have "components q = RootDir # List.map_filter parse_single_component (butlast ?ss)"
      unfolding q using noslash
      by (subst components_root_join) (auto dest: set_trim_segments in_set_butlastD)
    moreover have "butlast (components p) = RootDir # List.map_filter parse_single_component (butlast ?ss)"
      using segments_last [OF ne last_trim_segments [OF ne]] comps by simp
    ultimately show ?thesis by (simp add: q is_absolute_def)
  qed
  show "path_parent p = None \<longleftrightarrow> components p = [RootDir]"
  proof (cases "?ss = []")
    case False
    with segments_last [OF False last_trim_segments [OF False]] assms comps show ?thesis
      by (simp add: parent_absolute_eq Let_def)
  qed (use assms comps in \<open>simp add: parent_absolute_eq Let_def map_filter_simps\<close>)
qed

lemma file_name_plain:
  "components p = cs @ [Normal n] \<Longrightarrow> file_name p = Some n"
  by (simp add: file_name_def)

end
