(* ===== verification/Crates.thy ===== *)
theory Crates
  imports Rust_Path
begin

text \<open>
  The code the program calls and does not contain: the crates \<open>chrono\<close>, \<open>uuid\<close>,
  \<open>blake3\<close>, \<open>serde_json\<close> and \<open>biscuit-auth\<close>, and the operating system.  Each is
  a record of functions that the model's definitions take as an argument; nothing is assumed of
  them here.  What the program relies on is written below as predicates
  (\<open>chrono_laws\<close>, \<open>uuid_laws\<close>, \<open>biscuit_laws\<close>) that the theorems name as
  hypotheses where they need them, and nowhere else.
\<close>

section \<open>JSON values\<close>

text \<open>\<open>serde_json::Value\<close>; numbers are kept as the three cases the crate distinguishes.\<close>

datatype json_number = PosInt u64 | NegInt int | Float string

datatype json =
    JNull
  | JBool bool
  | JNumber json_number
  | JString string
  | JArray "json list"
  | JObject "(string \<times> json) list"

section \<open>Datalog facts\<close>

datatype dterm = DInt int | DStr string

datatype fact = Fact string "dterm list"

section \<open>The crates\<close>

text \<open>
  \<open>'kp\<close> is a key pair, \<open>'pk\<close> a public key, \<open>'b\<close> a parsed biscuit, \<open>'tok\<close> the
  serialised token (a \<open>Vec<u8>\<close> the program never looks into).  The keys that
  \<open>build\<close> and \<open>append\<close> draw from the system's randomness are arguments.
\<close>

record ('kp, 'pk, 'b, 'tok) crates =
  duration_seconds :: "int \<Rightarrow> int option"
    \<comment> \<open>\<open>chrono::Duration::seconds\<close>; \<open>None\<close> is its documented panic\<close>
  checked_add_signed :: "datetime \<Rightarrow> int \<Rightarrow> datetime option"
  to_rfc3339 :: "datetime \<Rightarrow> string"
  parse_from_rfc3339 :: "string \<Rightarrow> datetime option"
  timestamp :: "datetime \<Rightarrow> int"
  timestamp_subsec_nanos :: "datetime \<Rightarrow> nat"
  uuid_to_string :: "uuid \<Rightarrow> string"
  uuid_parse_str :: "string \<Rightarrow> uuid option"
  uuid_as_bytes :: "uuid \<Rightarrow> bytes"
  blake3 :: "bytes \<Rightarrow> bytes"
  json_to_vec :: "json \<Rightarrow> (string, bytes) res"
  json_from_str :: "string \<Rightarrow> (string, json) res"
  public_key_bytes :: "'kp \<Rightarrow> bytes"
  public_key_from_bytes :: "bytes \<Rightarrow> (string, 'pk) res"
  parse_fact :: "string \<Rightarrow> (string, fact) res"
  biscuit_build :: "'kp \<Rightarrow> 'kp \<Rightarrow> fact list \<Rightarrow> (string, 'b) res"
  biscuit_append :: "'kp \<Rightarrow> 'b \<Rightarrow> fact list \<Rightarrow> (string, 'b) res"
  biscuit_to_vec :: "'b \<Rightarrow> (string, 'tok) res"
  biscuit_from :: "'tok \<Rightarrow> 'pk \<Rightarrow> (string, 'b) res"
  biscuit_authorizer :: "'b \<Rightarrow> (string, unit) res"
  query_all1 :: "nat \<Rightarrow> 'b \<Rightarrow> string \<Rightarrow> (string, string list) res"
  query_all2 :: "nat \<Rightarrow> 'b \<Rightarrow> string \<Rightarrow> (string, (int \<times> string) list) res"

section \<open>The operating system\<close>

text \<open>
  The world is a state of an arbitrary type \<open>'w\<close>.  An I/O error is represented by its
  \<open>Display\<close> text.
\<close>

record fs_view =
  fs_exists :: "path \<Rightarrow> bool"
  fs_canonicalize :: "path \<Rightarrow> path option"

record process_output =
  out_status :: "int option"
  out_stdout :: string
  out_stderr :: string

record ('w, 'kp) os =
  os_now :: "'w \<Rightarrow> datetime \<times> 'w"
  os_uuid :: "'w \<Rightarrow> uuid \<times> 'w"
  os_keypair :: "'w \<Rightarrow> 'kp \<times> 'w"
  os_fs :: "'w \<Rightarrow> fs_view"
  os_read_to_string :: "'w \<Rightarrow> path \<Rightarrow> (string, string) res \<times> 'w"
  os_write :: "'w \<Rightarrow> path \<Rightarrow> string \<Rightarrow> (string, unit) res \<times> 'w"
  os_command_output :: "'w \<Rightarrow> string \<Rightarrow> string list \<Rightarrow> (string, process_output) res \<times> 'w"
  os_tcp_connect :: "'w \<Rightarrow> string \<Rightarrow> u16 \<Rightarrow> (string, nat) res \<times> 'w"
  os_tcp_write_all :: "'w \<Rightarrow> nat \<Rightarrow> string \<Rightarrow> (string, unit) res \<times> 'w"

section \<open>What the program relies on\<close>

text \<open>
  \<open>chrono\<close>: \<open>Duration::seconds\<close> panics beyond \<open>i64::MAX / 1000\<close> seconds;
  \<open>checked_add_signed\<close> is addition within the representable range; the RFC 3339 form of an
  instant with a four-digit year is read back.
\<close>

definition max_delta_seconds :: int where
  "max_delta_seconds = 9223372036854775"

definition chrono_laws :: "('kp, 'pk, 'b, 'tok) crates \<Rightarrow> datetime \<Rightarrow> datetime \<Rightarrow> bool" where
  "chrono_laws c lo hi \<longleftrightarrow>
     (\<forall>s. duration_seconds c s =
        (if - max_delta_seconds \<le> s \<and> s \<le> max_delta_seconds then Some (s * 1000000000) else None))
   \<and> (\<forall>t d. checked_add_signed c t d = (if lo \<le> t + d \<and> t + d \<le> hi then Some (t + d) else None))
   \<and> (\<forall>t. 0 \<le> t \<and> t < 253402300800 * 1000000000 \<longrightarrow> parse_from_rfc3339 c (to_rfc3339 c t) = Some t)
   \<and> (\<forall>t. timestamp c t = t div 1000000000)
   \<and> (\<forall>t. timestamp_subsec_nanos c t = nat (t mod 1000000000))"

definition uuid_laws :: "('kp, 'pk, 'b, 'tok) crates \<Rightarrow> bool" where
  "uuid_laws c \<longleftrightarrow>
     (\<forall>u. uuid_parse_str c (uuid_to_string c u) = Some u)
   \<and> (\<forall>u. CHR 0x22 \<notin> set (uuid_to_string c u) \<and> CHR 0x5C \<notin> set (uuid_to_string c u))
   \<and> (\<forall>u. length (uuid_as_bytes c u) = 16) \<and> inj (uuid_as_bytes c)"

text \<open>
  The string literals of biscuit's Datalog: between the quotes, a backslash escapes a backslash or
  a quote.
\<close>

fun literal_value :: "string \<Rightarrow> string option" where
  "literal_value [] = Some []"
| "literal_value (c # s) =
     (if c = CHR 0x22 then None
      else if c = CHR 0x5C then
        (case s of
           [] \<Rightarrow> None
         | d # t \<Rightarrow> if d = CHR 0x22 \<or> d = CHR 0x5C then map_option ((#) d) (literal_value t) else None)
      else map_option ((#) c) (literal_value s))"

definition fact1_str :: "string \<Rightarrow> string \<Rightarrow> string" where
  "fact1_str name lit = name @ ''('' @ [CHR 0x22] @ lit @ [CHR 0x22] @ '')''"

definition fact2_str :: "string \<Rightarrow> int \<Rightarrow> string \<Rightarrow> string" where
  "fact2_str name i lit = name @ ''('' @ show_int i @ '', '' @ [CHR 0x22] @ lit @ [CHR 0x22] @ '')''"

definition query1_str :: "string \<Rightarrow> string" where
  "query1_str name = ''data($id) <- '' @ name @ ''($id)''"

definition query2_str :: "string \<Rightarrow> string" where
  "query2_str name = ''data($id, $val) <- '' @ name @ ''($id, $val)''"

definition fact_names :: "string list" where
  "fact_names =
     [''expires_at'', ''read_root'', ''write_root'', ''exec_binary'', ''network'',
      ''binding_tool'', ''binding_arg_hash'', ''binding_nonce'']"

definition rows1 :: "fact set \<Rightarrow> string \<Rightarrow> string set" where
  "rows1 F name = {v. Fact name [DStr v] \<in> F}"

definition rows2 :: "fact set \<Rightarrow> string \<Rightarrow> (int \<times> string) set" where
  "rows2 F name = {(i, v). Fact name [DInt i, DStr v] \<in> F}"

text \<open>
  \<open>biscuit-auth\<close>: \<open>facts b\<close> are the facts of all blocks of a biscuit and \<open>root b\<close> the
  public key (as bytes) its signature chain starts from.  A fact in the literal syntax is parsed;
  building and appending put exactly the given facts into the new block; a serialised biscuit is
  accepted under the key it is rooted in, with its blocks unchanged, and under no other key; the
  rows of a query over all blocks are the matching facts, in no particular order, or an error
  (execution limits).
\<close>

definition biscuit_laws ::
    "('kp, 'pk, 'b, 'tok) crates \<Rightarrow> ('b \<Rightarrow> fact set) \<Rightarrow> ('b \<Rightarrow> 'pk) \<Rightarrow> bool" where
  "biscuit_laws c facts root \<longleftrightarrow>
     (\<forall>name i lit v. name \<in> set fact_names \<and> literal_value lit = Some v
        \<longrightarrow> parse_fact c (fact2_str name i lit) = Ok (Fact name [DInt i, DStr v]))
   \<and> (\<forall>lit v. literal_value lit = Some v
        \<longrightarrow> parse_fact c (fact1_str ''task_id'' lit) = Ok (Fact ''task_id'' [DStr v]))
   \<and> (\<forall>kp nk F b. biscuit_build c kp nk F = Ok b \<longrightarrow>
        facts b = set F \<and> public_key_from_bytes c (public_key_bytes c kp) = Ok (root b))
   \<and> (\<forall>nk b F b'. biscuit_append c nk b F = Ok b' \<longrightarrow>
        facts b' = facts b \<union> set F \<and> root b' = root b)
   \<and> (\<forall>b v pk b'. biscuit_to_vec c b = Ok v \<longrightarrow>
        (biscuit_from c v pk = Ok b' \<longleftrightarrow> pk = root b \<and> b' = b))
   \<and> (\<forall>v pk b. biscuit_from c v pk = Ok b \<longrightarrow> root b = pk)
   \<and> (\<forall>n b name rows. name \<in> set fact_names \<and> query_all2 c n b (query2_str name) = Ok rows
        \<longrightarrow> set rows = rows2 (facts b) name)
   \<and> (\<forall>n b rows. query_all1 c n b (query1_str ''task_id'') = Ok rows
        \<longrightarrow> set rows = rows1 (facts b) ''task_id'')"

text \<open>\<open>serde_json\<close>: on values built of strings and objects the text determines the value.\<close>

fun text_json :: "json \<Rightarrow> bool" where
  "text_json (JString s) = True"
| "text_json (JObject kvs) = list_all (\<lambda>kv. text_json (snd kv)) kvs"
| "text_json _ = False"

definition json_laws :: "('kp, 'pk, 'b, 'tok) crates \<Rightarrow> bool" where
  "json_laws c \<longleftrightarrow>
     (\<forall>j k bs. text_json j \<and> text_json k \<and> json_to_vec c j = Ok bs \<and> json_to_vec c k = Ok bs \<longrightarrow> j = k)"

text \<open>The availability of the crate on one biscuit: nothing it is asked to do hits a limit.\<close>

definition biscuit_answers :: "('kp, 'pk, 'b, 'tok) crates \<Rightarrow> 'b \<Rightarrow> bool" where
  "biscuit_answers c b \<longleftrightarrow>
     biscuit_authorizer c b = Ok ()
   \<and> (\<exists>rows. query_all1 c 5 b (query1_str ''task_id'') = Ok rows)
   \<and> list_all (\<lambda>name. is_ok (query_all2 c 5 b (query2_str name))) fact_names"

lemma chrono_lawsD:
  assumes "chrono_laws c lo hi"
  shows "duration_seconds c s =
      (if - max_delta_seconds \<le> s \<and> s \<le> max_delta_seconds then Some (s * 1000000000) else None)"
    and "checked_add_signed c t d = (if lo \<le> t + d \<and> t + d \<le> hi then Some (t + d) else None)"
    and "0 \<le> t \<Longrightarrow> t < 253402300800 * 1000000000 \<Longrightarrow> parse_from_rfc3339 c (to_rfc3339 c t) = Some t"
    and "timestamp c t = t div 1000000000"
    and "timestamp_subsec_nanos c t = nat (t mod 1000000000)"
  using assms unfolding chrono_laws_def by blast+

lemma uuid_lawsD:
  assumes "uuid_laws c"
  shows "uuid_parse_str c (uuid_to_string c u) = Some u"
    and "CHR 0x22 \<notin> set (uuid_to_string c u)" and "CHR 0x5C \<notin> set (uuid_to_string c u)"
    and "length (uuid_as_bytes c u) = 16" and "inj (uuid_as_bytes c)"
  using assms unfolding uuid_laws_def by blast+

lemma biscuit_laws_parse:
  assumes "biscuit_laws c facts root"
  shows "name \<in> set fact_names \<Longrightarrow> literal_value lit = Some v
      \<Longrightarrow> parse_fact c (fact2_str name i lit) = Ok (Fact name [DInt i, DStr v])"
    and "literal_value lit = Some v
      \<Longrightarrow> parse_fact c (fact1_str ''task_id'' lit) = Ok (Fact ''task_id'' [DStr v])"
  using assms by (simp_all only: biscuit_laws_def)

lemma biscuit_laws_blocks:
  assumes "biscuit_laws c facts root"
  shows "biscuit_build c kp nk F = Ok b
      \<Longrightarrow> facts b = set F \<and> public_key_from_bytes c (public_key_bytes c kp) = Ok (root b)"
    and "biscuit_append c nk b F = Ok b' \<Longrightarrow> facts b' = facts b \<union> set F \<and> root b' = root b"
  using assms by (simp_all only: biscuit_laws_def)

lemma biscuit_laws_from:
  assumes "biscuit_laws c facts root"
  shows "biscuit_to_vec c b = Ok tk \<Longrightarrow> biscuit_from c tk pk = Ok b' \<longleftrightarrow> pk = root b \<and> b' = b"
    and "biscuit_from c tk pk = Ok b \<Longrightarrow> root b = pk"
  using assms by (simp_all only: biscuit_laws_def)

lemma biscuit_laws_query:
  assumes "biscuit_laws c facts root"
  shows "name \<in> set fact_names \<Longrightarrow> query_all2 c n b (query2_str name) = Ok rows
      \<Longrightarrow> set rows = rows2 (facts b) name"
    and "query_all1 c n b (query1_str ''task_id'') = Ok ids \<Longrightarrow> set ids = rows1 (facts b) ''task_id''"
  using assms by (simp_all only: biscuit_laws_def)

end
