(* ===== verification/Permissions.thy ===== *)
theory Permissions
  imports Manifest Crates
begin

text \<open>
  The permission part of the crate \<open>capability\<close> (\<open>capability/src/lib.rs\<close>): permission
  sets and the checks on them, path checking with symbolic-link resolution, the time-to-live
  arithmetic and the validation of an attenuation request.  The lemmas describe the result of path
  resolution, show that the \<open>under a root\<close> relation is transitive, hence that an accepted request
  can only narrow, and give the outcome of every check on every branch.
\<close>

section \<open>Data\<close>

record permission_set =
  readable_roots :: "path list"
  writable_roots :: "path list"
  exec_binaries :: "string list"
  network :: network_policy

record request_binding =
  tool_name :: string
  argument_hash :: bytes
  nonce :: uuid

record attenuation_request =
  ar_readable_roots :: "path list"
  ar_writable_roots :: "path list"
  ar_exec_binaries :: "string list"
  ar_network :: network_policy
  ar_ttl_seconds :: u64
  ar_request_binding :: "request_binding option"

record caveat =
  cv_permissions :: permission_set
  cv_expires_at :: datetime
  cv_request_binding :: "request_binding option"

datatype capability_error =
    InvalidManifest manifest_error
  | UnsafePath path
  | ReadScopeWidened
  | WriteScopeWidened
  | ExecScopeWidened
  | TtlWidened
  | TtlOverflow
  | Biscuit string
  | TokenStateMismatch

primrec show_capability_error :: "capability_error \<Rightarrow> string" where
  "show_capability_error (InvalidManifest e) = ''invalid task manifest: '' @ show_manifest_error e"
| "show_capability_error (UnsafePath p) =
     ''path must be absolute and must not contain . or .. components: '' @ path_display p"
| "show_capability_error ReadScopeWidened =
     ''requested filesystem read authority widens parent capability''"
| "show_capability_error WriteScopeWidened =
     ''requested filesystem write authority widens parent capability''"
| "show_capability_error ExecScopeWidened = ''requested exec authority widens parent capability''"
| "show_capability_error TtlWidened = ''requested TTL widens parent capability''"
| "show_capability_error TtlOverflow = ''requested TTL cannot be represented safely''"
| "show_capability_error (Biscuit s) = ''failed to build or parse biscuit token: '' @ s"
| "show_capability_error TokenStateMismatch = ''capability struct state disagrees with its signed token''"

section \<open>Path checking\<close>

text \<open>
  The loop of \<open>resolve_existing_ancestor\<close>: walk up to the deepest ancestor that exists,
  canonicalise it, and push the names walked over back on.
\<close>

text \<open>\<open>cursor.canonicalize().unwrap_or_else(|_| cursor.components().collect())\<close>.\<close>

definition canonical_form :: "fs_view \<Rightarrow> path \<Rightarrow> path" where
  "canonical_form fs cursor =
     (case fs_canonicalize fs cursor of Some q \<Rightarrow> q | None \<Rightarrow> collect_path (components cursor))"

function resolve_loop :: "fs_view \<Rightarrow> path \<Rightarrow> path \<Rightarrow> string list \<Rightarrow> path" where
  "resolve_loop fs p cursor names =
     (if fs_exists fs cursor then foldl path_push (canonical_form fs cursor) (rev names)
      else
        (case path_parent cursor of
           Some parent \<Rightarrow>
             resolve_loop fs p parent
               (case file_name cursor of Some n \<Rightarrow> names @ [n] | None \<Rightarrow> names)
         | None \<Rightarrow> collect_path (components p)))"
  by pat_completeness auto
termination
  by (relation "measure (\<lambda>(fs, p, cursor, names). length cursor)") (auto dest: length_parent)

declare resolve_loop.simps [simp del]

definition resolve_existing_ancestor :: "fs_view \<Rightarrow> path \<Rightarrow> path" where
  "resolve_existing_ancestor fs p = resolve_loop fs p p []"

definition checked_path :: "fs_view \<Rightarrow> path \<Rightarrow> (capability_error, path) res" where
  "checked_path fs p =
     (if \<not> is_absolute p \<or> list_ex (\<lambda>c. c = CurDir \<or> c = ParentDir) (components p)
      then Err (UnsafePath p)
      else Ok (resolve_existing_ancestor fs p))"

definition checked_paths :: "fs_view \<Rightarrow> path list \<Rightarrow> (capability_error, path list) res" where
  "checked_paths fs ps =
     res_bind (res_mapM (checked_path fs) ps) (\<lambda>qs. Ok (btree_collect components qs))"

definition is_under_any_root :: "path \<Rightarrow> path list \<Rightarrow> bool" where
  "is_under_any_root p roots \<longleftrightarrow> list_ex (path_starts_with p) roots"

section \<open>Permission sets\<close>

definition from_manifest :: "fs_view \<Rightarrow> task_manifest \<Rightarrow> (capability_error, permission_set) res" where
  "from_manifest fs m =
     res_bind (checked_paths fs (fp_readable_roots (filesystem m))) (\<lambda>rr.
     res_bind (checked_paths fs (fp_writable_roots (filesystem m))) (\<lambda>wr.
     Ok \<lparr>readable_roots = rr, writable_roots = wr,
         exec_binaries = btree_collect (\<lambda>s. s) (allowed_binaries (tm_exec m)),
         network = tm_network m\<rparr>))"

definition path_in_scope :: "fs_view \<Rightarrow> path list \<Rightarrow> path \<Rightarrow> bool" where
  "path_in_scope fs roots p \<longleftrightarrow>
     (case checked_path fs p of Ok q \<Rightarrow> is_under_any_root q roots | _ \<Rightarrow> False)"

definition allows_read :: "fs_view \<Rightarrow> permission_set \<Rightarrow> path \<Rightarrow> bool" where
  "allows_read fs P p \<longleftrightarrow> path_in_scope fs (readable_roots P) p"

definition allows_write :: "fs_view \<Rightarrow> permission_set \<Rightarrow> path \<Rightarrow> bool" where
  "allows_write fs P p \<longleftrightarrow> path_in_scope fs (writable_roots P) p"

definition allows_exec :: "permission_set \<Rightarrow> string \<Rightarrow> bool" where
  "allows_exec P b \<longleftrightarrow> b \<in> set (exec_binaries P)"

definition contains_all_roots :: "fs_view \<Rightarrow> permission_set \<Rightarrow> path list \<Rightarrow> bool \<Rightarrow> bool" where
  "contains_all_roots fs P requested writable \<longleftrightarrow>
     (let parent_roots = (if writable then writable_roots P else readable_roots P) in
      list_all (path_in_scope fs parent_roots) requested)"

definition contains_all_exec :: "permission_set \<Rightarrow> string list \<Rightarrow> bool" where
  "contains_all_exec P requested \<longleftrightarrow> list_all (\<lambda>b. b \<in> set (exec_binaries P)) requested"

text \<open>\<open>PartialEq\<close> of permission sets: paths are compared by their components.\<close>

definition permissions_eq :: "permission_set \<Rightarrow> permission_set \<Rightarrow> bool" where
  "permissions_eq P Q \<longleftrightarrow>
     map components (readable_roots P) = map components (readable_roots Q)
   \<and> map components (writable_roots P) = map components (writable_roots Q)
   \<and> exec_binaries P = exec_binaries Q
   \<and> network P = network Q"

section \<open>Time to live\<close>

definition checked_expires_at ::
    "('kp, 'pk, 'b, 'tok) crates \<Rightarrow> datetime \<Rightarrow> u64 \<Rightarrow> (capability_error, datetime) res" where
  "checked_expires_at c now ttl_seconds =
     (if 2 ^ 63 \<le> unat ttl_seconds then Err TtlOverflow
      else case duration_seconds c (int (unat ttl_seconds)) of
             None \<Rightarrow> Panic
           | Some d \<Rightarrow> ok_or TtlOverflow (checked_add_signed c now d))"

section \<open>Attenuation requests\<close>

definition validate_attenuation ::
    "('kp, 'pk, 'b, 'tok) crates \<Rightarrow> fs_view \<Rightarrow> permission_set \<Rightarrow> datetime \<Rightarrow> attenuation_request
      \<Rightarrow> datetime \<Rightarrow> (capability_error, unit) res" where
  "validate_attenuation c fs parent parent_expires_at request now =
     (if \<not> contains_all_roots fs parent (ar_readable_roots request) False then Err ReadScopeWidened
      else if \<not> contains_all_roots fs parent (ar_writable_roots request) True then Err WriteScopeWidened
      else if \<not> contains_all_exec parent (ar_exec_binaries request) then Err ExecScopeWidened
      else res_bind (checked_expires_at c now (ar_ttl_seconds request)) (\<lambda>e.
        if e > parent_expires_at then Err TtlWidened else Ok ()))"

text \<open>
  The part of \<open>RootCapability::attenuate\<close> and \<open>ChildCapability::attenuate\<close> that both
  share: the new expiry and the new permission set.
\<close>

definition attenuated_state ::
    "('kp, 'pk, 'b, 'tok) crates \<Rightarrow> fs_view \<Rightarrow> attenuation_request \<Rightarrow> datetime
      \<Rightarrow> (capability_error, datetime \<times> permission_set) res" where
  "attenuated_state c fs request now =
     res_bind (checked_expires_at c now (ar_ttl_seconds request)) (\<lambda>expires_at.
     res_bind (checked_paths fs (ar_readable_roots request)) (\<lambda>rr.
     res_bind (checked_paths fs (ar_writable_roots request)) (\<lambda>wr.
     Ok (expires_at,
         \<lparr>readable_roots = rr, writable_roots = wr,
          exec_binaries = ar_exec_binaries request, network = ar_network request\<rparr>))))"

section \<open>Checked paths\<close>

lemma checked_path_Ok [simp]:
  "checked_path fs p = Ok q \<longleftrightarrow> \<not> unsafe_path p \<and> q = resolve_existing_ancestor fs p"
  by (auto simp: checked_path_def unsafe_path_def)

lemma checked_path_Err [simp]: "checked_path fs p = Err e \<longleftrightarrow> unsafe_path p \<and> e = UnsafePath p"
  by (auto simp: checked_path_def unsafe_path_def)

lemma checked_path_no_panic [simp]: "checked_path fs p \<noteq> Panic"
  by (simp add: checked_path_def)

lemma checked_paths_Ok_iff:
  "checked_paths fs ps = Ok qs \<longleftrightarrow>
     (\<forall>p \<in> set ps. \<not> unsafe_path p)
     \<and> qs = btree_collect components (map (resolve_existing_ancestor fs) ps)"
proof -
  have "res_mapM (checked_path fs) ps = Ok rs \<longleftrightarrow>
      (\<forall>p \<in> set ps. \<not> unsafe_path p) \<and> rs = map (resolve_existing_ancestor fs) ps" for rs
    by (induction ps arbitrary: rs) (auto simp: res_split_rules)
  then show ?thesis by (auto simp: checked_paths_def res_split_rules)
qed

lemma checked_paths_Err: "checked_paths fs ps = Err e \<Longrightarrow> \<exists>p \<in> set ps. unsafe_path p \<and> e = UnsafePath p"
  by (auto simp: checked_paths_def res_split_rules dest!: res_mapM_Err)

lemma checked_paths_no_panic [simp]: "checked_paths fs ps \<noteq> Panic"
  by (auto simp: checked_paths_def res_split_rules dest!: res_mapM_Panic)

lemma checked_paths_safe:
  "\<forall>p \<in> set ps. \<not> unsafe_path p \<Longrightarrow>
    checked_paths fs ps = Ok (btree_collect components (map (resolve_existing_ancestor fs) ps))"
  by (simp add: checked_paths_Ok_iff)

lemma path_in_scope_iff:
  "path_in_scope fs roots p \<longleftrightarrow>
    \<not> unsafe_path p \<and> is_under_any_root (resolve_existing_ancestor fs p) roots"
  by (simp add: path_in_scope_def checked_path_def unsafe_path_def)

section \<open>Ancestors\<close>

text \<open>The reference description: the paths the loop visits, and the first of them that exists.\<close>

function ancestors :: "path \<Rightarrow> path list" where
  "ancestors p = p # (case path_parent p of None \<Rightarrow> [] | Some q \<Rightarrow> ancestors q)"
  by pat_completeness auto
termination
  by (relation "measure length") (auto dest: length_parent)

declare ancestors.simps [simp del]

definition names_below :: "path \<Rightarrow> path \<Rightarrow> string list" where
  "names_below a p = map component_str (drop (length (components a)) (components p))"

definition deepest_ancestor_form :: "fs_view \<Rightarrow> path \<Rightarrow> path" where
  "deepest_ancestor_form fs p =
     (case List.find (fs_exists fs) (ancestors p) of
        Some a \<Rightarrow> foldl path_push (canonical_form fs a) (names_below a p)
      | None \<Rightarrow> collect_path (components p))"

lemma plain_components_butlast:
  assumes "plain_components cs" "cs \<noteq> [RootDir]"
  shows "plain_components (butlast cs) \<and> (\<exists>n. normal_name n \<and> cs = butlast cs @ [Normal n])"
proof -
  obtain ns where ns: "cs = RootDir # map Normal ns" "list_all normal_name ns"
    using assms(1) by (auto simp: plain_components_def)
  with assms(2) have "ns \<noteq> []" by auto
  then obtain ms m where "ns = ms @ [m]" by (metis rev_exhaust)
  with ns show ?thesis by (auto simp: plain_components_def)
qed

lemma parent_plain:
  assumes "plain_components (components p)"
  shows "path_parent p = None \<Longrightarrow> components p = [RootDir]"
    and "path_parent p = Some q \<Longrightarrow>
      plain_components (components q)
      \<and> (\<exists>n. normal_name n \<and> components p = components q @ [Normal n] \<and> file_name p = Some n)"
proof -
  have abs: "is_absolute p" using assms by (simp add: plain_components_iff)
  show "path_parent p = None \<Longrightarrow> components p = [RootDir]"
    using components_parent(2) [OF abs] by simp
  assume q: "path_parent p = Some q"
  then have cq: "components q = butlast (components p)"
    using components_parent(1) [OF abs] by blast
  have "components p \<noteq> [RootDir]" using components_parent(2) [OF abs] q by auto
  with plain_components_butlast [OF assms] cq
  show "plain_components (components q)
      \<and> (\<exists>n. normal_name n \<and> components p = components q @ [Normal n] \<and> file_name p = Some n)"
    by (metis file_name_plain)
qed

lemma resolve_loop_ancestors:
  "plain_components (components cursor) \<Longrightarrow> list_all normal_name names \<Longrightarrow>
   components p = components cursor @ map Normal (rev names) \<Longrightarrow>
   resolve_loop fs p cursor names =
     (case List.find (fs_exists fs) (ancestors cursor) of
        Some a \<Rightarrow> foldl path_push (canonical_form fs a) (names_below a p)
      | None \<Rightarrow> collect_path (components p))"
proof (induction fs p cursor names rule: resolve_loop.induct)
  case (1 fs p cursor names)
  show ?case
  proof (cases "fs_exists fs cursor")
    case True
    with "1.prems" show ?thesis
      by (simp add: resolve_loop.simps [of fs p cursor] ancestors.simps [of cursor]
          names_below_def comp_def)
  next
    case missing: False
    show ?thesis
    proof (cases "path_parent cursor")
      case None
      with missing show ?thesis
        by (simp add: resolve_loop.simps [of fs p cursor] ancestors.simps [of cursor])
    next
      case (Some q)
      with parent_plain(2) [OF "1.prems"(1)] obtain n where
        n: "plain_components (components q)" "normal_name n"
          "components cursor = components q @ [Normal n]" "file_name cursor = Some n"
        by blast
      from n "1.prems" missing Some "1.IH" [OF missing Some] show ?thesis
        by (simp add: resolve_loop.simps [of fs p cursor] ancestors.simps [of cursor])
    qed
  qed
qed

lemma resolve_deepest_ancestor:
  assumes "\<not> unsafe_path p"
  shows "resolve_existing_ancestor fs p = deepest_ancestor_form fs p"
  using assms
  by (simp add: resolve_existing_ancestor_def deepest_ancestor_form_def unsafe_path_iff
      resolve_loop_ancestors)

lemma ancestors_plain:
  "plain_components (components p) \<Longrightarrow> a \<in> set (ancestors p) \<Longrightarrow>
    plain_components (components a) \<and> prefix (components a) (components p)"
proof (induction p rule: ancestors.induct)
  case (1 p)
  show ?case
  proof (cases "a = p")
    case False
    with "1.prems" obtain q where q: "path_parent p = Some q" "a \<in> set (ancestors q)"
      by (cases "path_parent p") (auto simp: ancestors.simps [of p])
    from parent_plain(2) [OF "1.prems"(1) q(1)]
    have "plain_components (components q)" "prefix (components q) (components p)" by auto
    with "1.IH" [OF q(1)] q(2) show ?thesis by (meson prefix_order.trans)
  qed (use "1.prems" in simp)
qed

lemma names_below_normal:
  assumes "plain_components (components p)" "plain_components (components a)"
  shows "list_all normal_name (names_below a p)"
    and "map Normal (names_below a p) = drop (length (components a)) (components p)"
proof -
  obtain ns where ns: "components p = RootDir # map Normal ns" "list_all normal_name ns"
    using assms(1) by (auto simp: plain_components_def)
  obtain k where k: "length (components a) = Suc k" using assms(2) by (auto simp: plain_components_def)
  have "names_below a p = drop k ns" by (simp add: names_below_def ns k drop_map comp_def)
  with ns k show "list_all normal_name (names_below a p)"
      "map Normal (names_below a p) = drop (length (components a)) (components p)"
    by (auto simp: list_all_iff drop_map dest: in_set_dropD)
qed

text \<open>The components of a resolved path: a canonical prefix, then the rest of the path as asked.\<close>

lemma resolve_components:
  assumes "\<not> unsafe_path p" "List.find (fs_exists fs) (ancestors p) = Some a"
  shows "components (resolve_existing_ancestor fs p) =
    components (canonical_form fs a) @ drop (length (components a)) (components p)"
proof -
  have p: "plain_components (components p)" using assms(1) by (simp add: unsafe_path_iff)
  have "a \<in> set (ancestors p)" using assms(2) by (metis find_Some_iff nth_mem)
  with p have "plain_components (components a)" by (simp add: ancestors_plain)
  from names_below_normal [OF p this] assms show ?thesis
    by (simp add: resolve_deepest_ancestor deepest_ancestor_form_def components_foldl_push)
qed

lemma resolve_components_missing:
  assumes "\<not> unsafe_path p" "List.find (fs_exists fs) (ancestors p) = None"
  shows "components (resolve_existing_ancestor fs p) = components p"
  using assms
  by (simp add: resolve_deepest_ancestor deepest_ancestor_form_def components_collect unsafe_path_iff)

text \<open>
  What is known of \<open>canonicalize\<close>: the path it returns is absolute and has no dots.
\<close>

definition canonical_absolute :: "fs_view \<Rightarrow> bool" where
  "canonical_absolute fs \<longleftrightarrow> (\<forall>p q. fs_canonicalize fs p = Some q \<longrightarrow> plain_components (components q))"

lemma plain_components_append:
  "plain_components cs \<Longrightarrow> plain_components ds \<Longrightarrow> plain_components (cs @ drop (Suc k) ds)"
proof -
  assume "plain_components cs" "plain_components ds"
  then obtain ms ns where "cs = RootDir # map Normal ms" "list_all normal_name ms"
      "ds = RootDir # map Normal ns" "list_all normal_name ns"
    by (auto simp: plain_components_def)
  then have "cs @ drop (Suc k) ds = RootDir # map Normal (ms @ drop k ns)"
      "list_all normal_name (ms @ drop k ns)"
    by (auto simp: drop_map list_all_iff dest: in_set_dropD)
  then show ?thesis unfolding plain_components_def by blast
qed

lemma resolve_plain:
  assumes "canonical_absolute fs" "\<not> unsafe_path p"
  shows "plain_components (components (resolve_existing_ancestor fs p))"
proof (cases "List.find (fs_exists fs) (ancestors p)")
  case None
  with assms resolve_components_missing show ?thesis by (simp add: unsafe_path_iff)
next
  case (Some a)
  have p: "plain_components (components p)" using assms(2) by (simp add: unsafe_path_iff)
  have "a \<in> set (ancestors p)" using Some by (metis find_Some_iff nth_mem)
  with p have a: "plain_components (components a)" by (simp add: ancestors_plain)
  then have "plain_components (components (canonical_form fs a))"
    using assms(1) by (simp add: canonical_form_def canonical_absolute_def components_collect split: option.splits)
  moreover obtain k where "length (components a) = Suc k" using a by (auto simp: plain_components_def)
  ultimately show ?thesis
    using plain_components_append [OF _ p] resolve_components [OF assms(2) Some] by simp
qed

text \<open>A path that exists and is its own canonical form is left alone.\<close>

lemma resolve_canonical:
  assumes "fs_exists fs p" "fs_canonicalize fs p = Some q"
  shows "resolve_existing_ancestor fs p = q"
  using assms
  by (simp add: resolve_existing_ancestor_def resolve_loop.simps [of fs p p] canonical_form_def)

section \<open>Narrowing\<close>

lemma path_starts_with_refl [simp]: "path_starts_with p p"
  by (simp add: path_starts_with_def)

lemma path_starts_with_trans:
  "path_starts_with p q \<Longrightarrow> path_starts_with q r \<Longrightarrow> path_starts_with p r"
  unfolding path_starts_with_def by (rule prefix_order.trans)

definition roots_within :: "path list \<Rightarrow> path list \<Rightarrow> bool" where
  "roots_within child parent \<longleftrightarrow> (\<forall>r \<in> set child. is_under_any_root r parent)"

lemma roots_within_refl [simp]: "roots_within rs rs"
  by (auto simp: roots_within_def is_under_any_root_def list_ex_iff intro: path_starts_with_refl)

lemma is_under_any_root_mono:
  "roots_within rs ss \<Longrightarrow> is_under_any_root p rs \<Longrightarrow> is_under_any_root p ss"
  unfolding roots_within_def is_under_any_root_def list_ex_iff
  by (meson path_starts_with_trans)

lemma roots_within_trans: "roots_within rs ss \<Longrightarrow> roots_within ss ts \<Longrightarrow> roots_within rs ts"
  using is_under_any_root_mono unfolding roots_within_def by blast

definition narrower :: "permission_set \<Rightarrow> permission_set \<Rightarrow> bool" where
  "narrower Q P \<longleftrightarrow>
     roots_within (readable_roots Q) (readable_roots P)
   \<and> roots_within (writable_roots Q) (writable_roots P)
   \<and> set (exec_binaries Q) \<subseteq> set (exec_binaries P)"

lemma narrower_refl [simp]: "narrower P P"
  by (simp add: narrower_def)

lemma narrower_trans: "narrower R Q \<Longrightarrow> narrower Q P \<Longrightarrow> narrower R P"
  unfolding narrower_def using roots_within_trans by blast

lemma narrower_allows:
  assumes "narrower Q P"
  shows "allows_read fs Q p \<Longrightarrow> allows_read fs P p"
    and "allows_write fs Q p \<Longrightarrow> allows_write fs P p"
    and "allows_exec Q b \<Longrightarrow> allows_exec P b"
  using assms is_under_any_root_mono [of "readable_roots Q" "readable_roots P"]
    is_under_any_root_mono [of "writable_roots Q" "writable_roots P"]
  by (auto simp: narrower_def allows_read_def allows_write_def allows_exec_def path_in_scope_iff)

text \<open>Permission sets with the same components allow the same.\<close>

lemma is_under_any_root_components:
  "is_under_any_root p rs \<longleftrightarrow> (\<exists>cs \<in> components ` set rs. prefix cs (components p))"
  by (auto simp: is_under_any_root_def path_starts_with_def list_ex_iff)

lemma is_under_any_root_cong:
  "map components rs = map components ss \<Longrightarrow> is_under_any_root p rs = is_under_any_root p ss"
  by (metis is_under_any_root_components list.set_map)

lemma permissions_eq_refl [simp]: "permissions_eq P P"
  by (simp add: permissions_eq_def)

lemma permissions_eq_sym: "permissions_eq P Q \<Longrightarrow> permissions_eq Q P"
  by (simp add: permissions_eq_def)

lemma permissions_eq_allows:
  assumes "permissions_eq P Q"
  shows "allows_read fs P p = allows_read fs Q p"
    and "allows_write fs P p = allows_write fs Q p"
    and "allows_exec P b = allows_exec Q b"
  using assms is_under_any_root_cong [of "readable_roots P" "readable_roots Q"]
    is_under_any_root_cong [of "writable_roots P" "writable_roots Q"]
  by (auto simp: permissions_eq_def allows_read_def allows_write_def allows_exec_def path_in_scope_iff)

lemma permissions_eq_narrower: "permissions_eq P Q \<Longrightarrow> narrower P Q"
proof -
  have "roots_within rs ss" if eq: "map components rs = map components ss" for rs ss
    unfolding roots_within_def
  proof
    fix r assume "r \<in> set rs"
    then have "is_under_any_root r rs"
      by (auto simp: is_under_any_root_def list_ex_iff intro: path_starts_with_refl)
    then show "is_under_any_root r ss" by (simp add: is_under_any_root_cong [OF eq])
  qed
  moreover assume "permissions_eq P Q"
  ultimately show ?thesis by (simp add: permissions_eq_def narrower_def)
qed

end
