(* ===== verification/Attenuation.thy ===== *)
theory Attenuation
  imports Permissions
begin

text \<open>
  The checks of \<open>validate_attenuation\<close> and the time-to-live arithmetic, branch by branch, and
  the contract of an authority order: the interface through which the decision point sees
  permission sets, with what follows from it for whole chains of attenuations.
\<close>

section \<open>The contract of authority\<close>

text \<open>
  Authorities that can be compared and permit requests in an environment: a narrower authority
  permits no more.  The client lemmas are about chains in which each authority is narrower than the
  one before.
\<close>

locale authority =
  fixes narrows :: "'p \<Rightarrow> 'p \<Rightarrow> bool"
    and permits :: "'env \<Rightarrow> 'p \<Rightarrow> 'r \<Rightarrow> bool"
  assumes narrows_refl: "narrows p p"
    and narrows_trans: "narrows r q \<Longrightarrow> narrows q p \<Longrightarrow> narrows r p"
    and permits_mono: "narrows q p \<Longrightarrow> permits env q req \<Longrightarrow> permits env p req"
begin

lemma chain_narrows:
  "successively (\<lambda>a b. narrows b a) (p # ps) \<Longrightarrow> q \<in> set (p # ps) \<Longrightarrow> narrows q p"
proof (induction ps arbitrary: p)
  case Nil
  then show ?case by (simp add: narrows_refl)
next
  case (Cons a ps)
  then have "narrows a p" and tail: "successively (\<lambda>a b. narrows b a) (a # ps)" by auto
  show ?case
  proof (cases "q = p")
    case False
    with Cons.prems(2) have "narrows q a" by (intro Cons.IH [OF tail]) simp
    with \<open>narrows a p\<close> show ?thesis by (rule narrows_trans [rotated])
  qed (simp add: narrows_refl)
qed

lemma chain_permits:
  "successively (\<lambda>a b. narrows b a) (p # ps) \<Longrightarrow> q \<in> set (p # ps) \<Longrightarrow> permits env q req
    \<Longrightarrow> permits env p req"
  by (rule permits_mono [OF chain_narrows])

lemma denied_stays_denied:
  "successively (\<lambda>a b. narrows b a) (p # ps) \<Longrightarrow> q \<in> set (p # ps) \<Longrightarrow> \<not> permits env p req
    \<Longrightarrow> \<not> permits env q req"
  using chain_permits by blast

end

section \<open>Time to live\<close>

lemma checked_expires_at_cases:
  assumes "chrono_laws c lo hi"
  shows "checked_expires_at c now ttl =
    (let s = int (unat ttl) in
     if 2 ^ 63 \<le> s then Err TtlOverflow
     else if max_delta_seconds < s then Panic
     else if lo \<le> now + s * 1000000000 \<and> now + s * 1000000000 \<le> hi
       then Ok (now + s * 1000000000)
     else Err TtlOverflow)"
proof -
  have "2 ^ 63 \<le> unat ttl \<longleftrightarrow> 2 ^ 63 \<le> int (unat ttl)"
    using of_nat_le_iff [of "2 ^ 63" "unat ttl", where ?'a = int] by simp
  moreover have "- max_delta_seconds \<le> int (unat ttl)"
    by (simp add: max_delta_seconds_def order_trans [OF _ unsigned_greater_eq])
  ultimately show ?thesis
    by (simp add: checked_expires_at_def chrono_lawsD [OF assms] Let_def del: int_nat_eq of_nat_unat)
qed

lemma checked_expires_at_Err: "checked_expires_at c now ttl = Err e \<Longrightarrow> e = TtlOverflow"
  by (auto simp: checked_expires_at_def split: if_splits option.splits)

section \<open>Validation, branch by branch\<close>

lemma contains_all_roots_iff:
  "contains_all_roots fs P ps w \<longleftrightarrow>
    (\<forall>p \<in> set ps. path_in_scope fs (if w then writable_roots P else readable_roots P) p)"
  by (simp add: contains_all_roots_def list_all_iff)

lemma contains_all_exec_iff: "contains_all_exec P bs \<longleftrightarrow> set bs \<subseteq> set (exec_binaries P)"
  by (auto simp: contains_all_exec_def list_all_iff)

text \<open>What a request asks for lies within a parent.\<close>

definition request_within :: "fs_view \<Rightarrow> attenuation_request \<Rightarrow> permission_set \<Rightarrow> bool" where
  "request_within fs r P \<longleftrightarrow>
     contains_all_roots fs P (ar_readable_roots r) False
   \<and> contains_all_roots fs P (ar_writable_roots r) True
   \<and> contains_all_exec P (ar_exec_binaries r)"

lemma validate_attenuation_Ok_iff:
  "validate_attenuation c fs P x r now = Ok u \<longleftrightarrow>
     request_within fs r P \<and> (\<exists>e. checked_expires_at c now (ar_ttl_seconds r) = Ok e \<and> e \<le> x)"
  by (cases "checked_expires_at c now (ar_ttl_seconds r)")
    (auto simp: validate_attenuation_def request_within_def)

lemma validate_attenuation_Err_iff:
  "validate_attenuation c fs P x r now = Err e \<longleftrightarrow>
     (if \<not> contains_all_roots fs P (ar_readable_roots r) False then e = ReadScopeWidened
      else if \<not> contains_all_roots fs P (ar_writable_roots r) True then e = WriteScopeWidened
      else if \<not> contains_all_exec P (ar_exec_binaries r) then e = ExecScopeWidened
      else (case checked_expires_at c now (ar_ttl_seconds r) of
              Ok y \<Rightarrow> x < y \<and> e = TtlWidened
            | Err d \<Rightarrow> e = d
            | Panic \<Rightarrow> False))"
  by (auto simp: validate_attenuation_def split: res.splits)

lemma request_within_safe:
  assumes "request_within fs r P"
  shows "\<forall>p \<in> set (ar_readable_roots r). \<not> unsafe_path p"
    and "\<forall>p \<in> set (ar_writable_roots r). \<not> unsafe_path p"
  using assms by (auto simp: request_within_def contains_all_roots_iff path_in_scope_iff)

text \<open>The permission set a request turns into.\<close>

definition requested_permissions :: "fs_view \<Rightarrow> attenuation_request \<Rightarrow> permission_set" where
  "requested_permissions fs r =
     \<lparr>readable_roots = btree_collect components (map (resolve_existing_ancestor fs) (ar_readable_roots r)),
      writable_roots = btree_collect components (map (resolve_existing_ancestor fs) (ar_writable_roots r)),
      exec_binaries = ar_exec_binaries r, network = ar_network r\<rparr>"

lemma attenuated_state_Ok:
  "attenuated_state c fs r now = Ok (e, Q) \<Longrightarrow>
    checked_expires_at c now (ar_ttl_seconds r) = Ok e \<and> Q = requested_permissions fs r"
  by (auto simp: attenuated_state_def res_split_rules checked_paths_Ok_iff requested_permissions_def)

text \<open>After a successful validation the rest of an attenuation cannot fail on paths or time.\<close>

lemma attenuated_state_validated:
  assumes "validate_attenuation c fs P x r now = Ok u"
  shows "\<exists>e. e \<le> x \<and> checked_expires_at c now (ar_ttl_seconds r) = Ok e
    \<and> attenuated_state c fs r now = Ok (e, requested_permissions fs r)"
proof -
  obtain e where within: "request_within fs r P"
      and e: "checked_expires_at c now (ar_ttl_seconds r) = Ok e" "e \<le> x"
    using assms by (auto simp: validate_attenuation_Ok_iff)
  from request_within_safe [OF within] e show ?thesis
    by (simp add: attenuated_state_def checked_paths_safe requested_permissions_def)
qed

lemma roots_within_collect:
  assumes "\<forall>p \<in> set ps. path_in_scope fs roots p"
  shows "roots_within (btree_collect components (map (resolve_existing_ancestor fs) ps)) roots"
  unfolding roots_within_def
proof
  fix r
  assume "r \<in> set (btree_collect components (map (resolve_existing_ancestor fs) ps))"
  then have "r \<in> set (map (resolve_existing_ancestor fs) ps)"
    using set_btree_collect_subset [of components "map (resolve_existing_ancestor fs) ps"] by blast
  with assms show "is_under_any_root r roots" by (auto simp: path_in_scope_iff)
qed

lemma requested_permissions_narrower:
  "request_within fs r P \<Longrightarrow> narrower (requested_permissions fs r) P"
  by (simp add: narrower_def requested_permissions_def request_within_def contains_all_roots_iff
      contains_all_exec_iff roots_within_collect)

text \<open>The ordered-set invariant of permission sets and requests.\<close>

definition permissions_ok :: "permission_set \<Rightarrow> bool" where
  "permissions_ok P \<longleftrightarrow>
     btree_ok components (readable_roots P) \<and> btree_ok components (writable_roots P)
   \<and> btree_ok (\<lambda>s. s) (exec_binaries P)"

lemma requested_permissions_ok:
  "btree_ok (\<lambda>s. s) (ar_exec_binaries r) \<Longrightarrow> permissions_ok (requested_permissions fs r)"
  by (simp add: permissions_ok_def requested_permissions_def btree_collect_ok)

lemma from_manifest_Ok_iff:
  "from_manifest fs m = Ok P \<longleftrightarrow>
     (\<forall>p \<in> set (fp_readable_roots (filesystem m)). \<not> unsafe_path p)
   \<and> (\<forall>p \<in> set (fp_writable_roots (filesystem m)). \<not> unsafe_path p)
   \<and> P = \<lparr>readable_roots =
            btree_collect components (map (resolve_existing_ancestor fs) (fp_readable_roots (filesystem m))),
          writable_roots =
            btree_collect components (map (resolve_existing_ancestor fs) (fp_writable_roots (filesystem m))),
          exec_binaries = btree_collect (\<lambda>s. s) (allowed_binaries (tm_exec m)),
          network = tm_network m\<rparr>"
  by (auto simp: from_manifest_def res_split_rules checked_paths_Ok_iff)

lemma from_manifest_ok: "from_manifest fs m = Ok P \<Longrightarrow> permissions_ok P"
  by (auto simp: from_manifest_Ok_iff permissions_ok_def intro: btree_collect_ok)

lemma from_manifest_no_panic [simp]: "from_manifest fs m \<noteq> Panic"
  by (auto simp: from_manifest_def res_split_rules)

text \<open>A validated manifest has only safe paths, so turning it into permissions cannot fail.\<close>

lemma from_manifest_validated:
  "validate m = Ok u \<Longrightarrow> \<exists>P. from_manifest fs m = Ok P"
  by (auto simp: validate_Ok_iff from_manifest_Ok_iff)

end
