(* ===== verification/Codec_Facts.thy ===== *)
theory Codec_Facts
  imports Codec
begin

text \<open>
  Facts about the codec: every textual encoding is inverted by its reader; the fact strings of a
  state parse to the intended Datalog facts; and the decoder, run on a token whose facts are those
  of a chain of states, returns the last state.
\<close>

section \<open>The contract of a textual encoding\<close>

text \<open>
  \<open>ok\<close> marks the values the encoder is used on.  Two encodings can be told apart whenever the
  reader inverts the encoder.
\<close>

locale text_codec =
  fixes enc :: "'a \<Rightarrow> string" and dec :: "string \<Rightarrow> 'a option" and ok :: "'a \<Rightarrow> bool"
  assumes dec_enc: "ok x \<Longrightarrow> dec (enc x) = Some x"
begin

lemma enc_inject: "ok x \<Longrightarrow> ok y \<Longrightarrow> enc x = enc y \<longleftrightarrow> x = y"
  by (metis dec_enc option.inject)

lemma dec_list: "list_all ok xs \<Longrightarrow> map (dec \<circ> enc) xs = map Some xs"
  by (induction xs) (simp_all add: dec_enc)

end

section \<open>Escaping\<close>

lemma replace_char_Nil [simp]: "replace_char c r [] = []"
  by (simp add: replace_char_def)

lemma replace_char_Cons [simp]:
  "replace_char c r (x # s) = (if x = c then r else [x]) @ replace_char c r s"
  by (simp add: replace_char_def)

lemma replace_char_append: "replace_char c r (s @ t) = replace_char c r s @ replace_char c r t"
  by (simp add: replace_char_def)

lemma replace_char_notin: "c \<notin> set s \<Longrightarrow> replace_char c r s = s"
  by (induction s) auto

lemma escape_Nil [simp]: "escape [] = []"
  by (simp add: escape_def)

lemma escape_Cons:
  "escape (x # s) =
    (if x = CHR 0x22 then [CHR 0x5C, CHR 0x22]
     else if x = CHR 0x5C then [CHR 0x5C, CHR 0x5C] else [x]) @ escape s"
  by (simp add: escape_def replace_char_append)

lemma literal_value_escape: "literal_value (escape s) = Some s"
  by (induction s) (simp_all add: escape_Cons)

lemma escape_plain: "CHR 0x22 \<notin> set s \<Longrightarrow> CHR 0x5C \<notin> set s \<Longrightarrow> escape s = s"
  by (simp add: escape_def replace_char_notin)

interpretation escape_codec: text_codec escape literal_value "\<lambda>_. True"
  by unfold_locales (rule literal_value_escape)

lemma literal_value_plain:
  "CHR 0x22 \<notin> set s \<Longrightarrow> CHR 0x5C \<notin> set s \<Longrightarrow> literal_value s = Some s"
  using literal_value_escape [of s] by (simp add: escape_plain)

section \<open>Hexadecimal\<close>

lemma to_digit16_hex_digit: "d < 16 \<Longrightarrow> to_digit16 (hex_digit d) = Some d"
  by (auto simp: to_digit16_def hex_digit_def of_char_of take_bit_eq_mod Let_def)

lemma hex_digit_plain: "d < 16 \<Longrightarrow> hex_digit d \<noteq> CHR 0x22 \<and> hex_digit d \<noteq> CHR 0x5C"
  using to_digit16_hex_digit [of d] by (auto simp: to_digit16_def)

lemma unat_byte_less: "unat (b :: u8) < 256"
  using unsigned_less [of b] by simp

lemma decode_hex_pairs_encode: "decode_hex_pairs (encode_hex bs) = Some bs"
proof (induction bs)
  case (Cons b bs)
  have "unat b div 16 < 16" using unat_byte_less [of b] by auto
  then show ?case
    using Cons by (simp add: encode_hex_def to_digit16_hex_digit)
qed (simp add: encode_hex_def)

lemma length_encode_hex: "length (encode_hex bs) = 2 * length bs"
  by (induction bs) (simp_all add: encode_hex_def)

lemma decode_hex32_encode: "length bs = 32 \<Longrightarrow> decode_hex32 (encode_hex bs) = Some bs"
  by (simp add: decode_hex32_def length_encode_hex decode_hex_pairs_encode)

lemma unat_byte_div: "unat (b :: u8) div 16 < 16"
  using unat_byte_less [of b] by auto

lemma encode_hex_plain: "CHR 0x22 \<notin> set (encode_hex bs) \<and> CHR 0x5C \<notin> set (encode_hex bs)"
proof (induction bs)
  case (Cons b bs)
  with hex_digit_plain [of "unat b mod 16"] hex_digit_plain [OF unat_byte_div [of b]]
  show ?case by (simp add: encode_hex_def) metis
qed (simp add: encode_hex_def)

interpretation hash_codec: text_codec encode_hex decode_hex32 "\<lambda>bs. length bs = 32"
  by unfold_locales (rule decode_hex32_encode)

lemma decode_hex_pairs_length:
  "decode_hex_pairs s = Some bs \<Longrightarrow> even (length s) \<Longrightarrow> length s = 2 * length bs"
  by (induction s arbitrary: bs rule: decode_hex_pairs.induct) (auto split: option.splits)

lemma decode_hex32_length: "decode_hex32 s = Some bs \<Longrightarrow> length bs = 32"
  by (auto simp: decode_hex32_def dest: decode_hex_pairs_length split: if_splits)

interpretation network_codec: text_codec network_to_str
    "\<lambda>s. case parse_network s of Ok n \<Rightarrow> Some n | _ \<Rightarrow> None" "\<lambda>_. True"
proof
  show "(case parse_network (network_to_str n) of Ok n \<Rightarrow> Some n | _ \<Rightarrow> None) = Some n" for n
    by (cases n) (simp add: parse_network_def)
qed

section \<open>Parsed facts\<close>

definition block_facts ::
    "('kp, 'pk, 'b, 'tok) crates \<Rightarrow> int \<Rightarrow> permission_set \<Rightarrow> datetime \<Rightarrow> request_binding option
      \<Rightarrow> fact list" where
  "block_facts c i P e binding =
     [Fact ''expires_at'' [DInt i, DStr (to_rfc3339 c e)]]
     @ map (\<lambda>p. Fact ''read_root'' [DInt i, DStr (utf8_lossy p)]) (readable_roots P)
     @ map (\<lambda>p. Fact ''write_root'' [DInt i, DStr (utf8_lossy p)]) (writable_roots P)
     @ map (\<lambda>b. Fact ''exec_binary'' [DInt i, DStr b]) (exec_binaries P)
     @ [Fact ''network'' [DInt i, DStr ''deny_all'']]
     @ (case binding of
          None \<Rightarrow> []
        | Some b \<Rightarrow>
            [Fact ''binding_tool'' [DInt i, DStr (tool_name b)],
             Fact ''binding_arg_hash'' [DInt i, DStr (encode_hex (argument_hash b))],
             Fact ''binding_nonce'' [DInt i, DStr (uuid_to_string c (nonce b))]])"

lemma res_mapM_append:
  "res_mapM f (xs @ ys) = res_bind (res_mapM f xs) (\<lambda>a. res_bind (res_mapM f ys) (\<lambda>b. Ok (a @ b)))"
proof (induction xs)
  case Nil
  show ?case by (cases "res_mapM f ys") simp_all
next
  case (Cons x xs)
  then show ?case by (cases "f x"; cases "res_mapM f xs"; cases "res_mapM f ys") simp_all
qed

lemma res_mapM_map: "(\<And>x. f (g x) = Ok (h x)) \<Longrightarrow> res_mapM f (map g xs) = Ok (map h xs)"
  by (induction xs) simp_all

lemma parse_state_facts:
  assumes laws: "biscuit_laws c facts root" and uuids: "uuid_laws c"
  shows "add_facts c (state_facts c i P e binding) = Ok (block_facts c i P e binding)"
proof -
  note parse = biscuit_laws_parse(1) [OF laws]
  have n: "network_to_str (network P) = ''deny_all''" by (cases "network P") simp
  have lit: "parse_fact c (fact2_str name i (escape s)) = Ok (Fact name [DInt i, DStr s])"
    if "name \<in> set fact_names" for name s
    using parse [OF that literal_value_escape] .
  have plain: "parse_fact c (fact2_str name i s) = Ok (Fact name [DInt i, DStr s])"
    if "name \<in> set fact_names" "CHR 0x22 \<notin> set s" "CHR 0x5C \<notin> set s" for name s
    using parse [OF that(1) literal_value_plain [OF that(2,3)]] .
  have "res_mapM (parse_fact c) (state_facts c i P e binding) = Ok (block_facts c i P e binding)"
    by (simp add: state_facts_def block_facts_def res_mapM_append n
        res_mapM_map [where h = "\<lambda>p. Fact _ [DInt i, DStr (_ p)]"] lit plain
        fact_names_def encode_hex_plain uuid_lawsD [OF uuids] split: option.split)
  then show ?thesis by (simp add: add_facts_def)
qed

lemma parse_task_fact:
  assumes "biscuit_laws c facts root" "uuid_laws c"
  shows "add_facts c [fact1_str ''task_id'' (uuid_to_string c u)]
    = Ok [Fact ''task_id'' [DStr (uuid_to_string c u)]]"
  using biscuit_laws_parse(2) [OF assms(1) literal_value_plain]
  by (simp add: add_facts_def uuid_lawsD [OF assms(2)])

end
