(* ===== verification/Token_Chain.thy ===== *)
theory Token_Chain
  imports Codec_Facts
begin

text \<open>
  Tokens as chains of blocks.  A caveat is what one mint or attenuation wrote; the facts of an
  honest token are those of its caveats, numbered from 0.  The main lemma says what the decoder
  recovers from such a token: the task and exactly the state of the last block.
\<close>

definition block_facts_of :: "('kp, 'pk, 'b, 'tok) crates \<Rightarrow> nat \<Rightarrow> caveat \<Rightarrow> fact set" where
  "block_facts_of c k s =
     set (block_facts c (int k) (cv_permissions s) (cv_expires_at s) (cv_request_binding s))"

definition token_facts :: "('kp, 'pk, 'b, 'tok) crates \<Rightarrow> uuid \<Rightarrow> caveat list \<Rightarrow> fact set" where
  "token_facts c task_id bs =
     insert (Fact ''task_id'' [DStr (uuid_to_string c task_id)])
       (\<Union>k < length bs. block_facts_of c k (bs ! k))"

text \<open>
  What makes a caveat survive the trip through the token: ordered sets, path names that are
  valid UTF-8 (else the lossy conversion changes them), a hash of 32 bytes, and an expiry whose
  RFC 3339 form is read back.
\<close>

definition encodable :: "('kp, 'pk, 'b, 'tok) crates \<Rightarrow> caveat \<Rightarrow> bool" where
  "encodable c s \<longleftrightarrow>
     permissions_ok (cv_permissions s)
   \<and> (\<forall>p \<in> set (readable_roots (cv_permissions s)) \<union> set (writable_roots (cv_permissions s)). utf8_valid p)
   \<and> parse_from_rfc3339 c (to_rfc3339 c (cv_expires_at s)) = Some (cv_expires_at s)
   \<and> (case cv_request_binding s of None \<Rightarrow> True | Some b \<Rightarrow> length (argument_hash b) = 32)"

section \<open>Rows of a chain\<close>

lemma token_facts_snoc:
  "token_facts c u (bs @ [s]) = token_facts c u bs \<union> block_facts_of c (length bs) s"
proof -
  have "(\<Union>k < length (bs @ [s]). block_facts_of c k ((bs @ [s]) ! k))
      = (\<Union>k < length bs. block_facts_of c k (bs ! k)) \<union> block_facts_of c (length bs) s"
    by (auto simp: lessThan_Suc nth_append)
  then show ?thesis by (simp add: token_facts_def)
qed

lemma rows2_Un [simp]: "rows2 (F \<union> G) name = rows2 F name \<union> rows2 G name"
  by (auto simp: rows2_def)

lemma rows2_block:
  "rows2 (block_facts_of c k s) ''expires_at'' = {(int k, to_rfc3339 c (cv_expires_at s))}"
  "rows2 (block_facts_of c k s) ''read_root''
     = (\<lambda>p. (int k, utf8_lossy p)) ` set (readable_roots (cv_permissions s))"
  "rows2 (block_facts_of c k s) ''write_root''
     = (\<lambda>p. (int k, utf8_lossy p)) ` set (writable_roots (cv_permissions s))"
  "rows2 (block_facts_of c k s) ''exec_binary''
     = (\<lambda>b. (int k, b)) ` set (exec_binaries (cv_permissions s))"
  "rows2 (block_facts_of c k s) ''network'' = {(int k, ''deny_all'')}"
  by (auto simp: rows2_def block_facts_of_def block_facts_def split: option.splits)

lemma rows2_block_binding:
  "rows2 (block_facts_of c k s) ''binding_tool''
     = (case cv_request_binding s of None \<Rightarrow> {} | Some b \<Rightarrow> {(int k, tool_name b)})"
  "rows2 (block_facts_of c k s) ''binding_arg_hash''
     = (case cv_request_binding s of None \<Rightarrow> {} | Some b \<Rightarrow> {(int k, encode_hex (argument_hash b))})"
  "rows2 (block_facts_of c k s) ''binding_nonce''
     = (case cv_request_binding s of None \<Rightarrow> {} | Some b \<Rightarrow> {(int k, uuid_to_string c (nonce b))})"
  by (auto simp: rows2_def block_facts_of_def block_facts_def split: option.splits)

lemma rows2_block_number: "(j, v) \<in> rows2 (block_facts_of c k s) name \<Longrightarrow> j = int k"
  by (auto simp: rows2_def block_facts_of_def block_facts_def split: option.splits)

lemma rows2_token:
  "rows2 (token_facts c u bs) name = (\<Union>k < length bs. rows2 (block_facts_of c k (bs ! k)) name)"
  by (auto simp: rows2_def token_facts_def)

lemma rows1_token: "rows1 (token_facts c u bs) ''task_id'' = {uuid_to_string c u}"
  by (auto simp: rows1_def token_facts_def block_facts_of_def block_facts_def split: option.splits)

lemma rows2_last:
  "{v. (int (length bs), v) \<in> rows2 (token_facts c u (bs @ [s])) name}
    = {v. (int (length bs), v) \<in> rows2 (block_facts_of c (length bs) s) name}"
  by (auto simp: token_facts_snoc rows2_token dest: rows2_block_number)

section \<open>Selecting rows\<close>

lemma set_rows_of_block: "set (rows_of_block i rows) = {v. (i, v) \<in> set rows}"
  by (force simp: rows_of_block_def)

lemma first_row_singleton: "set vs = {v} \<Longrightarrow> first_row vs = Some v"
  by (cases vs) (auto simp: first_row_def)

lemma first_row_empty: "set vs = {} \<Longrightarrow> first_row vs = None"
  by (simp add: first_row_def)

lemma max_by_block_greatest:
  "max_by_block rows = Some m \<Longrightarrow> m \<in> set rows \<and> (\<forall>x \<in> set rows. fst x \<le> fst m)"
proof -
  have "foldl (\<lambda>m y. if fst y < fst m then m else y) x xs \<in> set (x # xs)
      \<and> (\<forall>z \<in> set (x # xs). fst z \<le> fst (foldl (\<lambda>m y. if fst y < fst m then m else y) x xs))"
    for x :: "int \<times> string" and xs
  proof (induction xs arbitrary: x)
    case (Cons y ys)
    from Cons.IH [of "if fst y < fst x then x else y"] show ?case by (auto split: if_splits)
  qed simp
  then show "max_by_block rows = Some m \<Longrightarrow> ?thesis" by (cases rows) auto
qed

lemma max_by_block_None [simp]: "max_by_block rows = None \<longleftrightarrow> rows = []"
  by (cases rows) auto

lemma max_by_block_unique:
  assumes "(k, v) \<in> set rows" "\<And>j w. (j, w) \<in> set rows \<Longrightarrow> j < k \<or> (j, w) = (k, v)"
  shows "max_by_block rows = Some (k, v)"
proof -
  obtain m where m: "max_by_block rows = Some m" using assms(1) by (cases rows) auto
  from max_by_block_greatest [OF m] assms(1) have "m \<in> set rows \<and> k \<le> fst m" by fastforce
  with assms(2) [of "fst m" "snd m"] m show ?thesis by auto
qed

section \<open>Decoding a chain\<close>

lemma query_rows_answer:
  assumes "biscuit_laws c facts root" "biscuit_answers c b" "name \<in> set fact_names"
  shows "\<exists>rows. query_rows c b name = Ok rows \<and> set rows = rows2 (facts b) name"
proof -
  from assms(2,3) obtain rows where "query_all2 c 5 b (query2_str name) = Ok rows"
    by (auto simp: biscuit_answers_def list_all_iff is_ok_iff)
  with biscuit_laws_query(1) [OF assms(1,3) this] show ?thesis by (simp add: query_rows_def)
qed

lemma fact_names_mem [simp]:
  "''expires_at'' \<in> set fact_names" "''read_root'' \<in> set fact_names"
  "''write_root'' \<in> set fact_names" "''exec_binary'' \<in> set fact_names"
  "''network'' \<in> set fact_names" "''binding_tool'' \<in> set fact_names"
  "''binding_arg_hash'' \<in> set fact_names" "''binding_nonce'' \<in> set fact_names"
  by (simp_all add: fact_names_def)

text \<open>The rows of the last block, for a biscuit whose facts are a chain.\<close>

lemma last_block_rows:
  assumes "set rows = rows2 (token_facts c u (bs @ [s])) name"
  shows "set (rows_of_block (int (length bs)) rows)
    = {v. (int (length bs), v) \<in> rows2 (block_facts_of c (length bs) s) name}"
  by (simp add: set_rows_of_block assms rows2_last)

lemma decode_binding_chain:
  assumes laws: "biscuit_laws c facts root" "uuid_laws c" and answers: "biscuit_answers c b"
    and chain: "facts b = token_facts c u (bs @ [s])" and enc: "encodable c s"
  shows "decode_binding c b (int (length bs)) = Ok (cv_request_binding s)"
proof -
  let ?n = "int (length bs)"
  obtain tools where tools: "query_rows c b ''binding_tool'' = Ok tools"
      "set tools = rows2 (facts b) ''binding_tool''"
    using query_rows_answer [OF laws(1) answers] by force
  obtain hashes where hashes: "query_rows c b ''binding_arg_hash'' = Ok hashes"
      "set hashes = rows2 (facts b) ''binding_arg_hash''"
    using query_rows_answer [OF laws(1) answers] by force
  obtain nonces where nonces: "query_rows c b ''binding_nonce'' = Ok nonces"
      "set nonces = rows2 (facts b) ''binding_nonce''"
    using query_rows_answer [OF laws(1) answers] by force
  note rows = tools(2) [unfolded chain, THEN last_block_rows]
    hashes(2) [unfolded chain, THEN last_block_rows] nonces(2) [unfolded chain, THEN last_block_rows]
  show ?thesis
  proof (cases "cv_request_binding s")
    case None
    with rows(1) have "first_row (rows_of_block ?n tools) = None"
      by (intro first_row_empty) (simp add: rows2_block_binding)
    with None tools(1) show ?thesis by (simp add: decode_binding_def)
  next
    case (Some r)
    with rows have "first_row (rows_of_block ?n tools) = Some (tool_name r)"
        "first_row (rows_of_block ?n hashes) = Some (encode_hex (argument_hash r))"
        "first_row (rows_of_block ?n nonces) = Some (uuid_to_string c (nonce r))"
      by (auto intro!: first_row_singleton simp: rows2_block_binding)
    moreover have "length (argument_hash r) = 32" using enc Some by (simp add: encodable_def)
    ultimately show ?thesis
      using Some tools(1) hashes(1) nonces(1)
      by (simp add: decode_binding_def decode_hex32_encode uuid_lawsD(1) [OF laws(2)])
  qed
qed

lemma collected_roots:
  assumes "btree_ok components ps" "\<And>p. p \<in> set ps \<Longrightarrow> utf8_valid p" "set vs = utf8_lossy ` set ps"
  shows "map components (btree_collect components vs) = map components ps"
proof (rule btree_keys_eqI [OF btree_collect_ok assms(1)])
  have "utf8_lossy ` set ps = set ps" using assms(2) by force
  with assms(3) show "components ` set (btree_collect components vs) = components ` set ps"
    by (simp add: keys_btree_collect)
qed

lemma collected_binaries:
  assumes "btree_ok (\<lambda>s. s) bs" "set vs = set bs"
  shows "btree_collect (\<lambda>s. s) vs = bs"
  using btree_keys_eqI [OF btree_collect_ok assms(1), of vs] assms(2)
  by (simp add: set_btree_collect_id)

lemma decode_state_chain:
  assumes laws: "biscuit_laws c facts root" "uuid_laws c"
    and opened: "biscuit_from c tk pk = Ok b" and answers: "biscuit_answers c b"
    and chain: "facts b = token_facts c u (bs @ [s])" and enc: "encodable c s"
  shows "\<exists>d. decode_state c tk pk = Ok d \<and> ds_task_id d = u
    \<and> permissions_eq (ds_permissions d) (cv_permissions s) \<and> ds_expires_at d = cv_expires_at s
    \<and> ds_request_binding d = cv_request_binding s \<and> ds_block_id d = int (length bs)"
proof -
  let ?n = "int (length bs)" and ?P = "cv_permissions s"
  obtain ids where ids: "query_all1 c 5 b (query1_str ''task_id'') = Ok ids"
    using answers by (auto simp: biscuit_answers_def)
  then have "set ids = {uuid_to_string c u}"
    using biscuit_laws_query(2) [OF laws(1) ids] chain by (simp add: rows1_token)
  then have task: "first_row ids = Some (uuid_to_string c u)" by (rule first_row_singleton)
  note q = query_rows_answer [OF laws(1) answers]
  obtain es where es: "query_rows c b ''expires_at'' = Ok es" "set es = rows2 (facts b) ''expires_at''"
    using q by force
  obtain rs where rs: "query_rows c b ''read_root'' = Ok rs" "set rs = rows2 (facts b) ''read_root''"
    using q by force
  obtain ws where ws: "query_rows c b ''write_root'' = Ok ws" "set ws = rows2 (facts b) ''write_root''"
    using q by force
  obtain xs where xs: "query_rows c b ''exec_binary'' = Ok xs" "set xs = rows2 (facts b) ''exec_binary''"
    using q by force
  obtain ns where ns: "query_rows c b ''network'' = Ok ns" "set ns = rows2 (facts b) ''network''"
    using q by force
  have latest: "max_by_block es = Some (?n, to_rfc3339 c (cv_expires_at s))"
    by (rule max_by_block_unique)
      (auto simp: es(2) chain rows2_token token_facts_snoc rows2_block)
  have net: "first_row (rows_of_block ?n ns) = Some ''deny_all''"
    using ns(2) [unfolded chain, THEN last_block_rows]
    by (intro first_row_singleton) (simp add: rows2_block)
  have read: "map components (btree_collect components (rows_of_block ?n rs)) = map components (readable_roots ?P)"
    using rs(2) [unfolded chain, THEN last_block_rows] enc
    by (intro collected_roots) (auto simp: encodable_def permissions_ok_def rows2_block)
  have wrt: "map components (btree_collect components (rows_of_block ?n ws)) = map components (writable_roots ?P)"
    using ws(2) [unfolded chain, THEN last_block_rows] enc
    by (intro collected_roots) (auto simp: encodable_def permissions_ok_def rows2_block)
  have exe: "btree_collect (\<lambda>s. s) (rows_of_block ?n xs) = exec_binaries ?P"
    using xs(2) [unfolded chain, THEN last_block_rows] enc
    by (intro collected_binaries) (auto simp: encodable_def permissions_ok_def rows2_block)
  have parsed: "parse_from_rfc3339 c (to_rfc3339 c (cv_expires_at s)) = Some (cv_expires_at s)"
    using enc by (simp add: encodable_def)
  have deny: "network ?P = DenyAll" by (cases "network ?P")
  from answers have "biscuit_authorizer c b = Ok ()" by (simp add: biscuit_answers_def)
  with opened ids task es(1) rs(1) ws(1) xs(1) ns(1) latest net parsed
    decode_binding_chain [OF laws answers chain enc]
  show ?thesis
    by (simp add: decode_state_def uuid_lawsD(1) [OF laws(2)] parse_network_def permissions_eq_def
        read wrt exe deny)
qed

end
