(* ===== verification/Capability.thy ===== *)
theory Capability
  imports Token_Chain
begin

text \<open>
  The capabilities of \<open>capability/src/lib.rs\<close>: minting a root from a manifest, attenuating
  roots and children, and recovering the authoritative state of a child from its token.  Two
  contracts structure the proofs: \<open>attenuator\<close>, which roots and children both meet, and the
  chain of caveats that the token of every honestly built capability holds.
\<close>

section \<open>Data\<close>

record 'tok root_capability =
  root_task_id :: uuid
  root_permissions :: permission_set
  root_expires_at :: datetime
  root_token :: 'tok
  root_root_public_key :: bytes

record 'tok child_capability =
  child_task_id :: uuid
  child_permissions :: permission_set
  child_expires_at :: datetime
  child_caveats :: "caveat list"
  child_token :: 'tok
  child_root_public_key :: bytes

record verified_state =
  vs_task_id :: uuid
  vs_permissions :: permission_set
  vs_expires_at :: datetime
  vs_request_binding :: "request_binding option"

definition from_codec_error :: "codec_error \<Rightarrow> capability_error" where
  "from_codec_error e = Biscuit (show_codec_error e)"

definition parse_public_key :: "('kp, 'pk, 'b, 'tok) crates \<Rightarrow> bytes \<Rightarrow> (capability_error, 'pk) res" where
  "parse_public_key c bs =
     res_map_err (\<lambda>e. Biscuit (''invalid root public key: '' @ e)) (public_key_from_bytes c bs)"

section \<open>Minting\<close>

definition mint ::
    "('kp, 'pk, 'b, 'tok) crates \<Rightarrow> fs_view \<Rightarrow> 'kp \<Rightarrow> 'kp \<Rightarrow> task_manifest \<Rightarrow> datetime
      \<Rightarrow> (capability_error, 'tok root_capability) res" where
  "mint c fs keypair next_key m now =
     res_bind (res_map_err InvalidManifest (validate m)) (\<lambda>_.
     res_bind (checked_expires_at c now (tm_ttl_seconds m)) (\<lambda>expires_at.
     res_bind (from_manifest fs m) (\<lambda>P.
     res_bind (res_map_err from_codec_error
       (build_root_token c next_key (tm_task_id m) P expires_at keypair)) (\<lambda>tok.
     Ok \<lparr>root_task_id = tm_task_id m, root_permissions = P, root_expires_at = expires_at,
         root_token = tok, root_root_public_key = public_key_bytes c keypair\<rparr>))))"

section \<open>Attenuating\<close>

definition root_attenuate ::
    "('kp, 'pk, 'b, 'tok) crates \<Rightarrow> fs_view \<Rightarrow> 'kp \<Rightarrow> 'tok root_capability \<Rightarrow> attenuation_request
      \<Rightarrow> datetime \<Rightarrow> (capability_error, 'tok child_capability) res" where
  "root_attenuate c fs next_key self request now =
     res_bind (validate_attenuation c fs (root_permissions self) (root_expires_at self) request now) (\<lambda>_.
     res_bind (attenuated_state c fs request now) (\<lambda>(expires_at, P).
     res_bind (parse_public_key c (root_root_public_key self)) (\<lambda>pk.
     res_bind (res_map_err from_codec_error
       (append_block c next_key (root_token self) pk 1 P expires_at (ar_request_binding request))) (\<lambda>tok.
     Ok \<lparr>child_task_id = root_task_id self, child_permissions = P, child_expires_at = expires_at,
         child_caveats =
           [\<lparr>cv_permissions = P, cv_expires_at = expires_at,
             cv_request_binding = ar_request_binding request\<rparr>],
         child_token = tok, child_root_public_key = root_root_public_key self\<rparr>))))"

definition child_attenuate ::
    "('kp, 'pk, 'b, 'tok) crates \<Rightarrow> fs_view \<Rightarrow> 'kp \<Rightarrow> 'tok child_capability \<Rightarrow> attenuation_request
      \<Rightarrow> datetime \<Rightarrow> (capability_error, 'tok child_capability) res" where
  "child_attenuate c fs next_key self request now =
     res_bind (validate_attenuation c fs (child_permissions self) (child_expires_at self) request now) (\<lambda>_.
     res_bind (attenuated_state c fs request now) (\<lambda>(expires_at, P).
     let next_block_id = int (length (child_caveats self)) + 1 in
     res_bind (parse_public_key c (child_root_public_key self)) (\<lambda>pk.
     res_bind (res_map_err from_codec_error
       (append_block c next_key (child_token self) pk next_block_id P expires_at
         (ar_request_binding request))) (\<lambda>tok.
     Ok \<lparr>child_task_id = child_task_id self, child_permissions = P, child_expires_at = expires_at,
         child_caveats =
           child_caveats self
           @ [\<lparr>cv_permissions = P, cv_expires_at = expires_at,
               cv_request_binding = ar_request_binding request\<rparr>],
         child_token = tok, child_root_public_key = child_root_public_key self\<rparr>))))"

section \<open>Reading the token\<close>

text \<open>\<open>caveats.iter().rev().find_map(\<dots>)\<close>: the binding of the latest caveat that has one.\<close>

definition child_request_binding :: "'tok child_capability \<Rightarrow> request_binding option" where
  "child_request_binding self =
     (case List.map_filter cv_request_binding (rev (child_caveats self)) of
        [] \<Rightarrow> None | b # _ \<Rightarrow> Some b)"

definition child_verify_signature ::
    "('kp, 'pk, 'b, 'tok) crates \<Rightarrow> 'tok child_capability \<Rightarrow> (capability_error, unit) res" where
  "child_verify_signature c self =
     res_bind (parse_public_key c (child_root_public_key self)) (\<lambda>pk.
     res_bind (res_map_err from_codec_error (verify_signature c (child_token self) pk)) (\<lambda>_. Ok ()))"

definition verify_and_decode ::
    "('kp, 'pk, 'b, 'tok) crates \<Rightarrow> 'tok child_capability \<Rightarrow> (capability_error, verified_state) res" where
  "verify_and_decode c self =
     res_bind (parse_public_key c (child_root_public_key self)) (\<lambda>pk.
     res_bind (res_map_err from_codec_error (decode_state c (child_token self) pk)) (\<lambda>decoded.
     if \<not> permissions_eq (ds_permissions decoded) (child_permissions self)
        \<or> ds_expires_at decoded \<noteq> child_expires_at self
        \<or> ds_request_binding decoded \<noteq> child_request_binding self
     then Err TokenStateMismatch
     else Ok \<lparr>vs_task_id = ds_task_id decoded, vs_permissions = ds_permissions decoded,
              vs_expires_at = ds_expires_at decoded, vs_request_binding = ds_request_binding decoded\<rparr>))"

section \<open>Request hashes\<close>

definition hash_input :: "('kp, 'pk, 'b, 'tok) crates \<Rightarrow> string \<Rightarrow> bytes \<Rightarrow> uuid \<Rightarrow> bytes" where
  "hash_input c tool canonical_arguments n =
     as_bytes tool @ [0] @ canonical_arguments @ [0] @ uuid_as_bytes c n"

definition hash_tool_arguments ::
    "('kp, 'pk, 'b, 'tok) crates \<Rightarrow> string \<Rightarrow> bytes \<Rightarrow> uuid \<Rightarrow> bytes" where
  "hash_tool_arguments c tool canonical_arguments n = blake3 c (hash_input c tool canonical_arguments n)"

end
