(* ===== verification/Capability_Facts.thy ===== *)
theory Capability_Facts
  imports Capability
begin

text \<open>
  What holds of capabilities: an attenuation of any capability narrows it (contract
  \<open>attenuator\<close>, met by roots and by children), so every descendant of a root is within the root
  whatever happened to the file system in between; and the token of an honestly built capability
  holds the chain of its caveats, which decides when \<open>verify_and_decode\<close> accepts it.
\<close>

section \<open>The contract of attenuation\<close>

locale attenuator =
  fixes attenuate :: "fs_view \<Rightarrow> 'kp \<Rightarrow> 'c \<Rightarrow> attenuation_request \<Rightarrow> datetime
      \<Rightarrow> (capability_error, 'tok child_capability) res"
    and perms :: "'c \<Rightarrow> permission_set"
    and expires :: "'c \<Rightarrow> datetime"
    and history :: "'c \<Rightarrow> caveat list"
    and task :: "'c \<Rightarrow> uuid"
    and key :: "'c \<Rightarrow> bytes"
    and expiry_of :: "datetime \<Rightarrow> u64 \<Rightarrow> (capability_error, datetime) res"
  assumes attenuate_Ok: "attenuate fs k x r now = Ok ch \<Longrightarrow>
      request_within fs r (perms x) \<and> child_permissions ch = requested_permissions fs r
      \<and> child_expires_at ch \<le> expires x \<and> expiry_of now (ar_ttl_seconds r) = Ok (child_expires_at ch)
      \<and> child_caveats ch = history x @
          [\<lparr>cv_permissions = child_permissions ch, cv_expires_at = child_expires_at ch,
            cv_request_binding = ar_request_binding r\<rparr>]
      \<and> child_task_id ch = task x \<and> child_root_public_key ch = key x"
    and attenuate_refuses_read:
      "\<not> contains_all_roots fs (perms x) (ar_readable_roots r) False \<Longrightarrow>
        attenuate fs k x r now = Err ReadScopeWidened"
    and attenuate_refuses_write:
      "contains_all_roots fs (perms x) (ar_readable_roots r) False \<Longrightarrow>
       \<not> contains_all_roots fs (perms x) (ar_writable_roots r) True \<Longrightarrow>
        attenuate fs k x r now = Err WriteScopeWidened"
    and attenuate_refuses_exec:
      "contains_all_roots fs (perms x) (ar_readable_roots r) False \<Longrightarrow>
       contains_all_roots fs (perms x) (ar_writable_roots r) True \<Longrightarrow>
       \<not> contains_all_exec (perms x) (ar_exec_binaries r) \<Longrightarrow>
        attenuate fs k x r now = Err ExecScopeWidened"
    and attenuate_expiry:
      "request_within fs r (perms x) \<Longrightarrow>
        (expiry_of now (ar_ttl_seconds r) = Err e \<longrightarrow> attenuate fs k x r now = Err e)
      \<and> (expiry_of now (ar_ttl_seconds r) = Panic \<longrightarrow> attenuate fs k x r now = Panic)
      \<and> (expiry_of now (ar_ttl_seconds r) = Ok y \<longrightarrow> expires x < y
          \<longrightarrow> attenuate fs k x r now = Err TtlWidened)"
    and attenuate_no_path_error: "attenuate fs k x r now \<noteq> Err (UnsafePath p)"
begin

lemma attenuate_narrows:
  "attenuate fs k x r now = Ok ch \<Longrightarrow>
    narrower (child_permissions ch) (perms x) \<and> child_expires_at ch \<le> expires x"
  using attenuate_Ok requested_permissions_narrower by metis

lemma attenuate_allows:
  assumes "attenuate fs k x r now = Ok ch"
  shows "allows_read fs' (child_permissions ch) p \<Longrightarrow> allows_read fs' (perms x) p"
    and "allows_write fs' (child_permissions ch) p \<Longrightarrow> allows_write fs' (perms x) p"
    and "allows_exec (child_permissions ch) b \<Longrightarrow> allows_exec (perms x) b"
  using attenuate_narrows [OF assms] narrower_allows by blast+

lemma attenuate_last:
  "attenuate fs k x r now = Ok ch \<Longrightarrow> child_caveats ch \<noteq> []
    \<and> cv_permissions (last (child_caveats ch)) = child_permissions ch
    \<and> cv_expires_at (last (child_caveats ch)) = child_expires_at ch"
  using attenuate_Ok by fastforce

lemma attenuate_panics_only_on_time:
  "attenuate fs k x r now = Ok ch \<Longrightarrow> expiry_of now (ar_ttl_seconds r) \<noteq> Panic"
  using attenuate_Ok by fastforce

end

lemma validate_attenuation_refusals:
  "\<not> contains_all_roots fs P (ar_readable_roots r) False \<Longrightarrow>
    validate_attenuation c fs P x r now = Err ReadScopeWidened"
  "contains_all_roots fs P (ar_readable_roots r) False \<Longrightarrow>
   \<not> contains_all_roots fs P (ar_writable_roots r) True \<Longrightarrow>
    validate_attenuation c fs P x r now = Err WriteScopeWidened"
  "contains_all_roots fs P (ar_readable_roots r) False \<Longrightarrow>
   contains_all_roots fs P (ar_writable_roots r) True \<Longrightarrow>
   \<not> contains_all_exec P (ar_exec_binaries r) \<Longrightarrow>
    validate_attenuation c fs P x r now = Err ExecScopeWidened"
  "request_within fs r P \<Longrightarrow>
    validate_attenuation c fs P x r now =
      res_bind (checked_expires_at c now (ar_ttl_seconds r)) (\<lambda>e. if e > x then Err TtlWidened else Ok ())"
  by (simp_all add: validate_attenuation_def request_within_def)

lemma validate_attenuation_not_path: "validate_attenuation c fs P x r now \<noteq> Err (UnsafePath p)"
  by (auto simp: validate_attenuation_Err_iff dest: checked_expires_at_Err split: res.splits)

lemma codec_error_not_path [simp]:
  "res_map_err from_codec_error z \<noteq> Err (UnsafePath p)" "parse_public_key c k \<noteq> Err (UnsafePath p)"
  by (auto simp: res_map_err_Err_iff from_codec_error_def parse_public_key_def)

lemma root_attenuate_validated:
  assumes "root_attenuate c fs k x r now = Ok ch"
  shows "validate_attenuation c fs (root_permissions x) (root_expires_at x) r now = Ok ()"
    and "attenuated_state c fs r now = Ok (child_expires_at ch, child_permissions ch)"
    and "child_caveats ch = [] @
        [\<lparr>cv_permissions = child_permissions ch, cv_expires_at = child_expires_at ch,
          cv_request_binding = ar_request_binding r\<rparr>]"
    and "child_task_id ch = root_task_id x" and "child_root_public_key ch = root_root_public_key x"
  using assms by (auto simp: root_attenuate_def res_split_rules)

lemma child_attenuate_validated:
  assumes "child_attenuate c fs k x r now = Ok ch"
  shows "validate_attenuation c fs (child_permissions x) (child_expires_at x) r now = Ok ()"
    and "attenuated_state c fs r now = Ok (child_expires_at ch, child_permissions ch)"
    and "child_caveats ch = child_caveats x @
        [\<lparr>cv_permissions = child_permissions ch, cv_expires_at = child_expires_at ch,
          cv_request_binding = ar_request_binding r\<rparr>]"
    and "child_task_id ch = child_task_id x" and "child_root_public_key ch = child_root_public_key x"
  using assms by (auto simp: child_attenuate_def res_split_rules Let_def)

interpretation root_att: attenuator "root_attenuate c" root_permissions root_expires_at "\<lambda>_. []"
    root_task_id root_root_public_key "checked_expires_at c" for c
proof (unfold_locales, goal_cases)
  case (1 fs k x r now ch)
  from attenuated_state_validated [OF root_attenuate_validated(1) [OF 1]] root_attenuate_validated [OF 1]
  show ?case by (auto simp: validate_attenuation_Ok_iff)
next
  case (5 fs r x now e k y)
  then show ?case by (auto simp: root_attenuate_def validate_attenuation_refusals)
next
  case (6 fs k x r now p)
  show ?case
  proof
    assume "root_attenuate c fs k x r now = Err (UnsafePath p)"
    then show False
      by (auto simp: root_attenuate_def res_split_rules validate_attenuation_not_path from_codec_error_def
          dest: attenuated_state_validated)
  qed
qed (simp_all add: root_attenuate_def validate_attenuation_refusals)

interpretation child_att: attenuator "child_attenuate c" child_permissions child_expires_at child_caveats
    child_task_id child_root_public_key "checked_expires_at c" for c
proof (unfold_locales, goal_cases)
  case (1 fs k x r now ch)
  from attenuated_state_validated [OF child_attenuate_validated(1) [OF 1]] child_attenuate_validated [OF 1]
  show ?case by (auto simp: validate_attenuation_Ok_iff)
next
  case (5 fs r x now e k y)
  then show ?case by (auto simp: child_attenuate_def validate_attenuation_refusals)
next
  case (6 fs k x r now p)
  show ?case
  proof
    assume "child_attenuate c fs k x r now = Err (UnsafePath p)"
    then show False
      by (auto simp: child_attenuate_def res_split_rules validate_attenuation_not_path from_codec_error_def Let_def
          dest: attenuated_state_validated)
  qed
qed (simp_all add: child_attenuate_def validate_attenuation_refusals)

section \<open>Descendants of a root\<close>

text \<open>
  Children reached from a root by any number of attenuations, each with its own request, time, keys
  and view of the file system.
\<close>

inductive descends ::
    "('kp, 'pk, 'b, 'tok) crates \<Rightarrow> 'tok root_capability \<Rightarrow> 'tok child_capability \<Rightarrow> bool"
  for c root where
  first: "root_attenuate c fs k root r now = Ok ch \<Longrightarrow> descends c root ch"
| further: "descends c root ch \<Longrightarrow> child_attenuate c fs k ch r now = Ok ch' \<Longrightarrow> descends c root ch'"

inductive_cases descendsE: "descends c root ch"

lemma descends_within:
  "descends c root ch \<Longrightarrow>
    narrower (child_permissions ch) (root_permissions root) \<and> child_expires_at ch \<le> root_expires_at root"
proof (induction rule: descends.induct)
  case (first fs k r now ch)
  then show ?case by (rule root_att.attenuate_narrows)
next
  case (further ch fs k r now ch')
  from child_att.attenuate_narrows [OF further.hyps(2)] further.IH
  show ?case using narrower_trans by force
qed

lemma descends_identity:
  "descends c root ch \<Longrightarrow>
    child_task_id ch = root_task_id root \<and> child_root_public_key ch = root_root_public_key root"
  by (induction rule: descends.induct)
    (simp_all add: root_attenuate_validated(4,5) child_attenuate_validated(4,5))

lemma descends_last:
  "descends c root ch \<Longrightarrow> child_caveats ch \<noteq> []
    \<and> cv_permissions (last (child_caveats ch)) = child_permissions ch
    \<and> cv_expires_at (last (child_caveats ch)) = child_expires_at ch"
  by (cases rule: descends.cases) (auto dest: root_att.attenuate_last child_att.attenuate_last)

section \<open>The chain a token holds\<close>

definition token_holds ::
    "('kp, 'pk, 'b, 'tok) crates \<Rightarrow> ('b \<Rightarrow> fact set) \<Rightarrow> ('b \<Rightarrow> 'pk) \<Rightarrow> 'tok \<Rightarrow> bytes \<Rightarrow> uuid
      \<Rightarrow> caveat list \<Rightarrow> bool" where
  "token_holds c facts root_of tok key u cvs \<longleftrightarrow>
     (\<exists>b. biscuit_to_vec c b = Ok tok \<and> facts b = token_facts c u cvs
        \<and> public_key_from_bytes c key = Ok (root_of b))"

definition root_caveat :: "'tok root_capability \<Rightarrow> caveat" where
  "root_caveat root =
     \<lparr>cv_permissions = root_permissions root, cv_expires_at = root_expires_at root,
      cv_request_binding = None\<rparr>"

lemma build_root_token_holds:
  assumes laws: "biscuit_laws c facts root_of" "uuid_laws c"
    and built: "build_root_token c nk u P e kp = Ok tok"
  shows "token_holds c facts root_of tok (public_key_bytes c kp) u
    [\<lparr>cv_permissions = P, cv_expires_at = e, cv_request_binding = None\<rparr>]"
proof -
  from built obtain b where
    b: "biscuit_build c kp nk (Fact ''task_id'' [DStr (uuid_to_string c u)] # block_facts c 0 P e None) = Ok b"
      "biscuit_to_vec c b = Ok tok"
    by (auto simp: build_root_token_def res_split_rules parse_task_fact [OF laws] parse_state_facts [OF laws])
  from biscuit_laws_blocks(1) [OF laws(1) b(1)] b(2) show ?thesis
    by (auto simp: token_holds_def token_facts_def block_facts_of_def)
qed

lemma append_block_holds:
  assumes laws: "biscuit_laws c facts root_of" "uuid_laws c"
    and holds: "token_holds c facts root_of tok key u cvs"
    and key: "public_key_from_bytes c key = Ok pk"
    and appended: "append_block c nk tok pk (int (length cvs)) P e binding = Ok tok'"
  shows "token_holds c facts root_of tok' key u
    (cvs @ [\<lparr>cv_permissions = P, cv_expires_at = e, cv_request_binding = binding\<rparr>])"
proof -
  obtain b where b: "biscuit_to_vec c b = Ok tok" "facts b = token_facts c u cvs"
      "public_key_from_bytes c key = Ok (root_of b)"
    using holds by (auto simp: token_holds_def)
  from appended obtain b' where
    b': "biscuit_append c nk b (block_facts c (int (length cvs)) P e binding) = Ok b'"
      "biscuit_to_vec c b' = Ok tok'"
    by (auto simp: append_block_def res_split_rules parse_state_facts [OF laws]
        biscuit_laws_from(1) [OF laws(1) b(1)])
  from biscuit_laws_blocks(2) [OF laws(1) b'(1)] b b'(2) show ?thesis
    by (auto simp: token_holds_def token_facts_snoc block_facts_of_def)
qed

lemma mint_Ok_iff:
  "mint c fs kp nk m now = Ok root \<longleftrightarrow>
     (\<exists>e P tok. validate m = Ok () \<and> checked_expires_at c now (tm_ttl_seconds m) = Ok e
        \<and> from_manifest fs m = Ok P \<and> build_root_token c nk (tm_task_id m) P e kp = Ok tok
        \<and> root = \<lparr>root_task_id = tm_task_id m, root_permissions = P, root_expires_at = e,
            root_token = tok, root_root_public_key = public_key_bytes c kp\<rparr>)"
  by (auto simp: mint_def res_split_rules)

lemma mint_holds:
  assumes "biscuit_laws c facts root_of" "uuid_laws c" "mint c fs kp nk m now = Ok root"
  shows "token_holds c facts root_of (root_token root) (root_root_public_key root)
    (root_task_id root) [root_caveat root]"
  using assms(3) build_root_token_holds [OF assms(1,2)]
  by (auto simp: mint_Ok_iff root_caveat_def)

lemma parse_public_key_Ok [simp]: "parse_public_key c k = Ok pk \<longleftrightarrow> public_key_from_bytes c k = Ok pk"
  by (simp add: parse_public_key_def)

lemma descends_holds:
  assumes laws: "biscuit_laws c facts root_of" "uuid_laws c" and minted: "mint c fs0 kp nk m now0 = Ok root"
  shows "descends c root ch \<Longrightarrow>
    token_holds c facts root_of (child_token ch) (child_root_public_key ch) (child_task_id ch)
      (root_caveat root # child_caveats ch)"
proof (induction rule: descends.induct)
  case (first fs k r now ch)
  then show ?case
    using append_block_holds [OF laws mint_holds [OF laws minted]]
    by (auto simp: root_attenuate_def res_split_rules)
next
  case (further ch fs k r now ch')
  then show ?case
    using append_block_holds [OF laws further.IH]
    by (auto simp: child_attenuate_def res_split_rules Let_def add.commute)
qed

end
