(* ===== verification/Verified_State.thy ===== *)
theory Verified_State
  imports Capability_Facts
begin

text \<open>
  What \<open>verify_and_decode\<close> returns.  It reads the token alone, and compares; so its outcome
  on any struct is determined by the chain of caveats the token holds (\<open>verify_token_holds\<close>).
  Honest capabilities, tampered structs and blocks appended by a holder are instances.
\<close>

section \<open>Bindings of a chain\<close>

definition chain_binding :: "caveat list \<Rightarrow> request_binding option" where
  "chain_binding cvs = (case List.map_filter cv_request_binding (rev cvs) of [] \<Rightarrow> None | b # _ \<Rightarrow> Some b)"

lemma child_request_binding_chain: "child_request_binding ch = chain_binding (child_caveats ch)"
  by (simp add: child_request_binding_def chain_binding_def)

lemma chain_binding_simps [simp]:
  "chain_binding [] = None"
  "chain_binding (cvs @ [s]) =
     (case cv_request_binding s of None \<Rightarrow> chain_binding cvs | Some b \<Rightarrow> Some b)"
  by (auto simp: chain_binding_def List.map_filter_def split: option.splits)

lemma chain_binding_singleton [simp]: "chain_binding [s] = cv_request_binding s"
  using chain_binding_simps(2) [of "[]" s] by (simp split: option.splits)

lemma chain_binding_last:
  "cvs \<noteq> [] \<Longrightarrow> cv_request_binding (last cvs) \<noteq> None \<Longrightarrow> chain_binding cvs = cv_request_binding (last cvs)"
  by (cases cvs rule: rev_cases) auto

lemma chain_binding_None_iff: "chain_binding cvs = None \<longleftrightarrow> (\<forall>s \<in> set cvs. cv_request_binding s = None)"
  by (induction cvs rule: rev_induct) (auto split: option.splits)

section \<open>Outcomes\<close>

lemma verify_and_decode_Ok_iff:
  "verify_and_decode c ch = Ok v \<longleftrightarrow>
     (\<exists>pk d. public_key_from_bytes c (child_root_public_key ch) = Ok pk
        \<and> decode_state c (child_token ch) pk = Ok d
        \<and> permissions_eq (ds_permissions d) (child_permissions ch)
        \<and> ds_expires_at d = child_expires_at ch \<and> ds_request_binding d = child_request_binding ch
        \<and> v = \<lparr>vs_task_id = ds_task_id d, vs_permissions = ds_permissions d,
               vs_expires_at = ds_expires_at d, vs_request_binding = ds_request_binding d\<rparr>)"
  by (auto simp: verify_and_decode_def res_split_rules split: if_splits)

lemma verify_matches_struct:
  "verify_and_decode c ch = Ok v \<Longrightarrow> permissions_eq (vs_permissions v) (child_permissions ch)
    \<and> vs_expires_at v = child_expires_at ch \<and> vs_request_binding v = child_request_binding ch"
  by (auto simp: verify_and_decode_Ok_iff)

lemma verify_from_token:
  assumes "verify_and_decode c ch = Ok v" "verify_and_decode c ch' = Ok v'"
    and "child_token ch = child_token ch'" "child_root_public_key ch = child_root_public_key ch'"
  shows "v = v'"
  using assms by (auto simp: verify_and_decode_Ok_iff)

text \<open>Whether a struct mirrors the caveat \<open>s\<close>.\<close>

definition mirrors :: "'tok child_capability \<Rightarrow> caveat \<Rightarrow> bool" where
  "mirrors ch s \<longleftrightarrow> permissions_eq (cv_permissions s) (child_permissions ch)
     \<and> cv_expires_at s = child_expires_at ch \<and> cv_request_binding s = child_request_binding ch"

text \<open>The state a caveat stands for.\<close>

definition state_of :: "uuid \<Rightarrow> caveat \<Rightarrow> verified_state \<Rightarrow> bool" where
  "state_of u s v \<longleftrightarrow> vs_task_id v = u \<and> permissions_eq (vs_permissions v) (cv_permissions s)
     \<and> vs_expires_at v = cv_expires_at s \<and> vs_request_binding v = cv_request_binding s"

lemma permissions_eq_cong: "permissions_eq P Q \<Longrightarrow> permissions_eq P R \<longleftrightarrow> permissions_eq Q R"
  by (simp add: permissions_eq_def)

text \<open>The availability of the biscuit crate on one token.\<close>

definition token_answers :: "('kp, 'pk, 'b, 'tok) crates \<Rightarrow> 'tok \<Rightarrow> bool" where
  "token_answers c tok \<longleftrightarrow> (\<forall>pk b. biscuit_from c tok pk = Ok b \<longrightarrow> biscuit_answers c b)"

lemma verify_token_holds:
  assumes laws: "biscuit_laws c facts root_of" "uuid_laws c"
    and holds: "token_holds c facts root_of (child_token ch) (child_root_public_key ch) u (cvs @ [s])"
    and answers: "token_answers c (child_token ch)" and enc: "encodable c s"
  shows "if mirrors ch s then \<exists>v. verify_and_decode c ch = Ok v \<and> state_of u s v
         else verify_and_decode c ch = Err TokenStateMismatch"
proof -
  obtain b where b: "biscuit_to_vec c b = Ok (child_token ch)" "facts b = token_facts c u (cvs @ [s])"
      "public_key_from_bytes c (child_root_public_key ch) = Ok (root_of b)"
    using holds by (auto simp: token_holds_def)
  then have opened: "biscuit_from c (child_token ch) (root_of b) = Ok b"
    by (simp add: biscuit_laws_from(1) [OF laws(1)])
  with answers have "biscuit_answers c b" by (auto simp: token_answers_def)
  from decode_state_chain [OF laws opened this b(2) enc] obtain d where
    d: "decode_state c (child_token ch) (root_of b) = Ok d" "ds_task_id d = u"
      "permissions_eq (ds_permissions d) (cv_permissions s)" "ds_expires_at d = cv_expires_at s"
      "ds_request_binding d = cv_request_binding s"
    by auto
  from d b(3) show ?thesis
    by (simp add: verify_and_decode_def mirrors_def state_of_def parse_public_key_def
        permissions_eq_cong [OF d(3)])
qed

text \<open>A token is accepted under the root key it was signed with and under no other.\<close>

lemma verify_wrong_key:
  assumes laws: "biscuit_laws c facts root_of"
    and holds: "token_holds c facts root_of (child_token ch) key u cvs"
    and other: "public_key_from_bytes c (child_root_public_key ch) \<noteq> public_key_from_bytes c key"
  shows "verify_and_decode c ch \<noteq> Ok v"
proof
  obtain b where b: "biscuit_to_vec c b = Ok (child_token ch)"
      "public_key_from_bytes c key = Ok (root_of b)"
    using holds by (auto simp: token_holds_def)
  assume "verify_and_decode c ch = Ok v"
  then obtain pk d b' where pk: "public_key_from_bytes c (child_root_public_key ch) = Ok pk"
      and "biscuit_from c (child_token ch) pk = Ok b'"
    by (auto simp: verify_and_decode_Ok_iff decode_state_def res_split_rules)
  then have "pk = root_of b" by (simp add: biscuit_laws_from(1) [OF laws b(1)])
  with pk b(2) other show False by simp
qed

section \<open>Honest capabilities\<close>

lemma descends_mirrors:
  assumes "descends c root ch"
  shows "mirrors ch (last (child_caveats ch)) \<longleftrightarrow>
    cv_request_binding (last (child_caveats ch)) = chain_binding (child_caveats ch)"
  using descends_last [OF assms] by (simp add: mirrors_def child_request_binding_chain)

lemma verify_descendant:
  assumes laws: "biscuit_laws c facts root_of" "uuid_laws c"
    and minted: "mint c fs0 kp nk m now0 = Ok root" and desc: "descends c root ch"
    and answers: "token_answers c (child_token ch)" and enc: "encodable c (last (child_caveats ch))"
  shows "if cv_request_binding (last (child_caveats ch)) = chain_binding (child_caveats ch)
         then \<exists>v. verify_and_decode c ch = Ok v \<and> state_of (root_task_id root) (last (child_caveats ch)) v
         else verify_and_decode c ch = Err TokenStateMismatch"
proof -
  let ?s = "last (child_caveats ch)"
  have chain: "root_caveat root # child_caveats ch = (root_caveat root # butlast (child_caveats ch)) @ [?s]"
    using descends_last [OF desc] by simp
  from descends_holds [OF laws minted desc]
  have "token_holds c facts root_of (child_token ch) (child_root_public_key ch) (root_task_id root)
      ((root_caveat root # butlast (child_caveats ch)) @ [?s])"
    using descends_identity [OF desc] chain by simp
  from verify_token_holds [OF laws this answers enc] show ?thesis
    by (simp add: descends_mirrors [OF desc])
qed

text \<open>A token appended to by its holder: the widest block is what the verifier reports.\<close>

lemma verify_appended:
  assumes laws: "biscuit_laws c facts root_of" "uuid_laws c"
    and holds: "token_holds c facts root_of tok key u cvs"
    and key: "public_key_from_bytes c key = Ok pk"
    and appended: "append_block c nk tok pk (int (length cvs)) (cv_permissions s) (cv_expires_at s)
        (cv_request_binding s) = Ok tok'"
    and answers: "token_answers c tok'" and enc: "encodable c s"
  shows "\<exists>v. verify_and_decode c
      \<lparr>child_task_id = w, child_permissions = cv_permissions s, child_expires_at = cv_expires_at s,
       child_caveats = [s], child_token = tok', child_root_public_key = key\<rparr> = Ok v \<and> state_of u s v"
proof -
  let ?ch = "\<lparr>child_task_id = w, child_permissions = cv_permissions s, child_expires_at = cv_expires_at s,
       child_caveats = [s], child_token = tok', child_root_public_key = key\<rparr>"
  have "\<lparr>cv_permissions = cv_permissions s, cv_expires_at = cv_expires_at s,
      cv_request_binding = cv_request_binding s\<rparr> = s" by simp
  with append_block_holds [OF laws holds key appended]
  have "token_holds c facts root_of (child_token ?ch) (child_root_public_key ?ch) u (cvs @ [s])" by simp
  from verify_token_holds [OF laws this _ enc] answers show ?thesis
    by (simp add: mirrors_def child_request_binding_chain)
qed

end
