(* ===== verification/Pep.thy ===== *)
theory Pep
  imports Verified_State
begin

text \<open>
  The policy enforcement point (\<open>pep/src/lib.rs\<close>): a capability is verified against its token,
  then its expiry and its request binding are checked on the state the token carries.
\<close>

datatype verification_error =
    Expired
  | RequestBindingMismatch
  | SignatureChain string
  | StateTampered

primrec show_verification_error :: "verification_error \<Rightarrow> string" where
  "show_verification_error Expired = ''capability is expired''"
| "show_verification_error RequestBindingMismatch =
     ''request-bound capability does not match the actual tool invocation''"
| "show_verification_error (SignatureChain s) = ''biscuit signature chain failed to verify: '' @ s"
| "show_verification_error StateTampered = ''capability struct state disagrees with its signed token''"

text \<open>\<open>VerifiedCapability\<close> wraps the state, and its accessors read it.\<close>

record verified_capability =
  vc_state :: verified_state

definition vc_permissions :: "verified_capability \<Rightarrow> permission_set" where
  "vc_permissions v = vs_permissions (vc_state v)"

definition vc_expires_at :: "verified_capability \<Rightarrow> datetime" where
  "vc_expires_at v = vs_expires_at (vc_state v)"

definition vc_request_binding :: "verified_capability \<Rightarrow> request_binding option" where
  "vc_request_binding v = vs_request_binding (vc_state v)"

definition verification_error_of :: "capability_error \<Rightarrow> verification_error" where
  "verification_error_of e =
     (case e of TokenStateMismatch \<Rightarrow> StateTampered | other \<Rightarrow> SignatureChain (show_capability_error other))"

definition verify ::
    "('kp, 'pk, 'b, 'tok) crates \<Rightarrow> 'tok child_capability \<Rightarrow> datetime \<Rightarrow> request_binding option
      \<Rightarrow> (verification_error, verified_capability) res" where
  "verify c capability now actual_binding =
     res_bind (res_map_err verification_error_of (verify_and_decode c capability)) (\<lambda>state.
     if vs_expires_at state \<le> now then Err Expired
     else
       (case vs_request_binding state of
          Some expected \<Rightarrow>
            if actual_binding \<noteq> Some expected then Err RequestBindingMismatch
            else Ok \<lparr>vc_state = state\<rparr>
        | None \<Rightarrow> Ok \<lparr>vc_state = state\<rparr>))"

section \<open>Outcomes\<close>

lemma verify_Ok_iff:
  "verify c ch now ab = Ok v \<longleftrightarrow>
     verify_and_decode c ch = Ok (vc_state v) \<and> now < vc_expires_at v
     \<and> (\<forall>b. vc_request_binding v = Some b \<longrightarrow> ab = Some b)"
  by (cases v; cases "verify_and_decode c ch")
    (auto simp: verify_def vc_expires_at_def vc_request_binding_def split: option.split)

lemma verify_of_state:
  assumes "verify_and_decode c ch = Ok s"
  shows "verify c ch now ab =
    (if vs_expires_at s \<le> now then Err Expired
     else if vs_request_binding s \<noteq> None \<and> ab \<noteq> vs_request_binding s then Err RequestBindingMismatch
     else Ok \<lparr>vc_state = s\<rparr>)"
  using assms by (simp add: verify_def split: option.split)

lemma verify_of_error:
  "verify_and_decode c ch = Err e \<Longrightarrow> verify c ch now ab = Err (verification_error_of e)"
  by (simp add: verify_def)

lemma verification_error_of_tampered [simp]:
  "verification_error_of e = StateTampered \<longleftrightarrow> e = TokenStateMismatch"
  by (cases e) (simp_all add: verification_error_of_def)

lemma verification_error_of_cases:
  "verification_error_of e \<noteq> Expired" "verification_error_of e \<noteq> RequestBindingMismatch"
  by (cases e; simp add: verification_error_of_def)+

lemma verify_no_panic: "verify c ch now ab = Panic \<longleftrightarrow> verify_and_decode c ch = Panic"
  by (auto simp: verify_def res_split_rules split: option.splits if_splits)

text \<open>The struct decides nothing: only its token, its key, and that it mirrors them.\<close>

lemma verify_permissions_match:
  "verify c ch now ab = Ok v \<Longrightarrow> permissions_eq (vc_permissions v) (child_permissions ch)
    \<and> vc_expires_at v = child_expires_at ch \<and> vc_request_binding v = child_request_binding ch"
  using verify_matches_struct
  by (auto simp: verify_Ok_iff vc_permissions_def vc_expires_at_def vc_request_binding_def)

text \<open>Verification only gets harder with time.\<close>

lemma verify_antimono:
  "verify c ch later ab = Ok v \<Longrightarrow> now \<le> later \<Longrightarrow> verify c ch now ab = Ok v"
  by (auto simp: verify_Ok_iff)

end
