(* ===== verification/Pdp.thy ===== *)
theory Pdp
  imports Attenuation
begin

text \<open>
  The policy decision point (\<open>pdp/src/lib.rs\<close>) and its linter (\<open>pdp/src/linter.rs\<close>).
  The decision point meets the contract \<open>authority\<close>: a narrower permission set is never
  allowed more.
\<close>

section \<open>Requests and decisions\<close>

datatype tool_request =
    Read path
  | Write path
  | Exec string
  | Network

datatype decision = Allow | Deny string

definition decide :: "fs_view \<Rightarrow> permission_set \<Rightarrow> tool_request \<Rightarrow> decision" where
  "decide fs P request =
     (case request of
        Read p \<Rightarrow>
          (if allows_read fs P p then Allow else Deny ''read path is outside capability scope'')
      | Write p \<Rightarrow>
          (if allows_write fs P p then Allow else Deny ''write path is outside capability scope'')
      | Exec b \<Rightarrow>
          (if allows_exec P b then Allow else Deny ''binary is outside capability exec allowlist'')
      | Network \<Rightarrow>
          (case network P of DenyAll \<Rightarrow> Deny ''network policy denies all egress''))"

section \<open>The linter\<close>

datatype lint_finding = AlwaysAllowRead string

definition lint :: "permission_set \<Rightarrow> lint_finding list" where
  "lint P =
     map (\<lambda>root. AlwaysAllowRead (path_display root)) (filter (\<lambda>root. path_eq root ''/'') (readable_roots P))"

section \<open>Decisions, branch by branch\<close>

text \<open>The abstract policy the decision point implements.\<close>

definition in_scope :: "fs_view \<Rightarrow> permission_set \<Rightarrow> tool_request \<Rightarrow> bool" where
  "in_scope fs P request \<longleftrightarrow>
     (case request of
        Read p \<Rightarrow> \<not> unsafe_path p
          \<and> (\<exists>r \<in> set (readable_roots P). path_starts_with (resolve_existing_ancestor fs p) r)
      | Write p \<Rightarrow> \<not> unsafe_path p
          \<and> (\<exists>r \<in> set (writable_roots P). path_starts_with (resolve_existing_ancestor fs p) r)
      | Exec b \<Rightarrow> b \<in> set (exec_binaries P)
      | Network \<Rightarrow> False)"

lemma allows_read_iff:
  "allows_read fs P p \<longleftrightarrow> \<not> unsafe_path p
    \<and> (\<exists>r \<in> set (readable_roots P). path_starts_with (resolve_existing_ancestor fs p) r)"
  by (simp add: allows_read_def path_in_scope_iff is_under_any_root_def list_ex_iff)

lemma allows_write_iff:
  "allows_write fs P p \<longleftrightarrow> \<not> unsafe_path p
    \<and> (\<exists>r \<in> set (writable_roots P). path_starts_with (resolve_existing_ancestor fs p) r)"
  by (simp add: allows_write_def path_in_scope_iff is_under_any_root_def list_ex_iff)

lemma decide_Allow_iff: "decide fs P req = Allow \<longleftrightarrow> in_scope fs P req"
  by (cases req)
    (simp_all add: decide_def in_scope_def allows_read_iff allows_write_iff allows_exec_def
      split: network_policy.split)

lemma decide_simps:
  "decide fs P (Read p) =
    (if allows_read fs P p then Allow else Deny ''read path is outside capability scope'')"
  "decide fs P (Write p) =
    (if allows_write fs P p then Allow else Deny ''write path is outside capability scope'')"
  "decide fs P (Exec b) =
    (if allows_exec P b then Allow else Deny ''binary is outside capability exec allowlist'')"
  "decide fs P Network = Deny ''network policy denies all egress''"
  by (simp_all add: decide_def split: network_policy.split)

lemma decide_permissions_eq: "permissions_eq P Q \<Longrightarrow> decide fs P req = decide fs Q req"
  by (cases req) (simp_all add: decide_simps permissions_eq_allows)

interpretation pdp: authority narrower "\<lambda>fs P req. decide fs P req = Allow"
proof (unfold_locales, goal_cases)
  case (2 r q p)
  then show ?case by (rule narrower_trans)
next
  case (3 q p fs req)
  then show ?case
    by (cases req) (simp_all add: decide_simps narrower_allows split: if_splits)
qed simp

text \<open>An allowed path that exists leads, after all links, to a place under a root.\<close>

lemma decide_read_target:
  assumes "decide fs P (Read p) = Allow" "fs_exists fs p" "fs_canonicalize fs p = Some q"
  shows "\<exists>r \<in> set (readable_roots P). prefix (components r) (components q)"
  using assms by (auto simp: decide_Allow_iff in_scope_def resolve_canonical path_starts_with_def)

lemma decide_write_target:
  assumes "decide fs P (Write p) = Allow" "fs_exists fs p" "fs_canonicalize fs p = Some q"
  shows "\<exists>r \<in> set (writable_roots P). prefix (components r) (components q)"
  using assms by (auto simp: decide_Allow_iff in_scope_def resolve_canonical path_starts_with_def)

section \<open>The linter finds what allows everything\<close>

lemma lint_nonempty_iff: "lint P \<noteq> [] \<longleftrightarrow> (\<exists>r \<in> set (readable_roots P). components r = [RootDir])"
  by (simp add: lint_def path_eq_def filter_empty_conv)

lemma lint_allows_all:
  assumes "lint P \<noteq> []" "canonical_absolute fs" "\<not> unsafe_path p"
  shows "decide fs P (Read p) = Allow"
proof -
  obtain r where r: "r \<in> set (readable_roots P)" "components r = [RootDir]"
    using assms(1) by (auto simp: lint_nonempty_iff)
  from resolve_plain [OF assms(2,3)]
  have "prefix [RootDir] (components (resolve_existing_ancestor fs p))"
    by (auto simp: plain_components_def)
  with r assms(3) show ?thesis
    by (simp add: decide_simps allows_read_iff path_starts_with_def) (metis r)
qed

text \<open>Conversely, in a file system whose root directory has finitely many entries, a permission set
  without a finding refuses some path.\<close>

lemma fresh_normal_name:
  assumes "finite (N :: string set)"
  shows "\<exists>n. normal_name n \<and> n \<notin> N"
proof -
  let ?f = "\<lambda>k. replicate (Suc k) CHR ''x''"
  have "inj ?f" by (auto intro!: injI dest: arg_cong [of _ _ length])
  then have "infinite (range ?f)" using finite_imageD by blast
  with assms have "\<not> range ?f \<subseteq> N" using finite_subset by blast
  then obtain k where "?f k \<notin> N" by blast
  moreover have "normal_name (?f k)" by (auto simp: normal_name_def)
  ultimately show ?thesis by blast
qed

lemma resolve_top_level:
  assumes "normal_name n" "\<not> fs_exists fs (CHR ''/'' # n)"
    and "fs_exists fs ''/''" "fs_canonicalize fs ''/'' = Some ''/''"
  shows "resolve_existing_ancestor fs (CHR ''/'' # n) = CHR ''/'' # n"
proof -
  from assms(1) have n: "\<not> blank_segment n" "CHR ''/'' \<notin> set n" "\<not> is_absolute n"
    by (auto simp: normal_name_def blank_segment_def normal_name_not_absolute)
  then have "path_parent (CHR ''/'' # n) = Some ''/''"
    by (simp add: path_parent_def body_segments_def path_lead_def is_absolute_def trim_segments_def)
  moreover have "file_name (CHR ''/'' # n) = Some n"
    using file_name_plain [of "CHR ''/'' # n" "[RootDir]"] components_root_append [OF assms(1)] by simp
  ultimately show ?thesis
    using assms n
    by (simp add: resolve_existing_ancestor_def resolve_loop.simps [of fs _ "CHR ''/'' # n"]
        resolve_loop.simps [of fs _ "''/''"] canonical_form_def path_push_def)
qed

lemma finite_names: "finite {n. Normal n \<in> set cs}"
proof -
  have "{n. Normal n \<in> set cs} \<subseteq> component_str ` set cs" by force
  then show ?thesis by (rule finite_subset) simp
qed

lemma no_lint_refuses:
  assumes none: "lint P = []" and roots: "list_all is_absolute (readable_roots P)"
    and root_dir: "fs_exists fs ''/''" "fs_canonicalize fs ''/'' = Some ''/''"
    and entries: "finite {n. fs_exists fs (CHR ''/'' # n)}"
  shows "\<exists>p. \<not> unsafe_path p \<and> decide fs P (Read p) \<noteq> Allow"
proof -
  let ?N = "{n. fs_exists fs (CHR ''/'' # n)} \<union> (\<Union>r \<in> set (readable_roots P). {n. Normal n \<in> set (components r)})"
  have "finite ?N" using entries by (simp add: finite_names)
  then obtain n where n: "normal_name n" "n \<notin> ?N" using fresh_normal_name by blast
  let ?p = "CHR ''/'' # n"
  have cp: "components ?p = [RootDir] @ map Normal [n]" using components_root_append [OF n(1)] by simp
  with n(1) have safe: "\<not> unsafe_path ?p"
    unfolding unsafe_path_iff plain_components_def not_not by (intro exI [of _ "[n]"]) simp
  have res: "resolve_existing_ancestor fs ?p = ?p"
    using n by (intro resolve_top_level [OF _ _ root_dir]) auto
  have "\<not> path_starts_with ?p r" if r: "r \<in> set (readable_roots P)" for r
  proof -
    obtain cs where cs: "components r = RootDir # cs"
      using roots r by (auto simp: list_all_iff is_absolute_iff_components)
    have "components r \<noteq> [RootDir]" using none r lint_nonempty_iff [of P] by auto
    with cs n(2) r cp show ?thesis by (auto simp: path_starts_with_def prefix_Cons)
  qed
  with res have "decide fs P (Read ?p) \<noteq> Allow" by (simp add: decide_simps allows_read_iff)
  with safe show ?thesis by blast
qed

end
