(* ===== verification/Tools.thy ===== *)
theory Tools
  imports Pep Pdp
begin

text \<open>
  The tools (\<open>tools/src/lib.rs\<close>): the authorization view of a call, the binding of a request,
  \<open>authorize_only\<close>, the unguarded \<open>execute\<close> and the guarded \<open>dispatch\<close>.  Operations
  act on a world through the operating system's interface; the clock is read where the code reads
  it, and the file system is looked at in the world of that moment.
\<close>

section \<open>Data\<close>

datatype tool_error =
    Verification verification_error
  | Serialize string
  | DeniedError string
  | Io string

primrec show_tool_error :: "tool_error \<Rightarrow> string" where
  "show_tool_error (Verification e) = ''authorization failed: '' @ show_verification_error e"
| "show_tool_error (Serialize e) = ''failed to serialize tool request arguments: '' @ e"
| "show_tool_error (DeniedError reason) = ''tool request denied: '' @ reason"
| "show_tool_error (Io e) = ''tool execution io error: '' @ e"

datatype tool_call =
    FsRead path
  | FsWrite path string
  | ExecCall string "string list"
  | NetworkCall string u16 string

datatype tool_output =
    ReadOutput string
  | WriteOutput nat
  | ExecOutput "int option" string string
  | NetworkOutput nat

primrec to_request :: "tool_call \<Rightarrow> tool_request" where
  "to_request (FsRead p) = Read (path_display p)"
| "to_request (FsWrite p contents) = Write (path_display p)"
| "to_request (ExecCall binary args) = Exec binary"
| "to_request (NetworkCall host port payload) = Network"

primrec call_tool_name :: "tool_call \<Rightarrow> string" where
  "call_tool_name (FsRead p) = ''fs_read''"
| "call_tool_name (FsWrite p contents) = ''fs_write''"
| "call_tool_name (ExecCall binary args) = ''exec''"
| "call_tool_name (NetworkCall host port payload) = ''network''"

primrec request_tool_name :: "tool_request \<Rightarrow> string" where
  "request_tool_name (Read p) = ''fs_read''"
| "request_tool_name (Write p) = ''fs_write''"
| "request_tool_name (Exec b) = ''exec''"
| "request_tool_name Network = ''network''"

section \<open>Request bindings\<close>

text \<open>The derived \<open>Serialize\<close> of \<open>ToolRequest\<close>: externally tagged.\<close>

primrec request_json :: "tool_request \<Rightarrow> json" where
  "request_json (Read p) = JObject [(''Read'', JObject [(''path'', JString p)])]"
| "request_json (Write p) = JObject [(''Write'', JObject [(''path'', JString p)])]"
| "request_json (Exec b) = JObject [(''Exec'', JObject [(''binary'', JString b)])]"
| "request_json Network = JString ''Network''"

definition request_binding_for ::
    "('kp, 'pk, 'b, 'tok) crates \<Rightarrow> tool_request \<Rightarrow> uuid \<Rightarrow> (string, request_binding) res" where
  "request_binding_for c request n =
     res_bind (json_to_vec c (request_json request)) (\<lambda>canonical_arguments.
     Ok \<lparr>tool_name = request_tool_name request,
         argument_hash = hash_tool_arguments c (request_tool_name request) canonical_arguments n,
         nonce = n\<rparr>)"

section \<open>Authorization\<close>

definition authorize_only ::
    "('kp, 'pk, 'b, 'tok) crates \<Rightarrow> ('w, 'kp) os \<Rightarrow> 'tok child_capability \<Rightarrow> tool_request
      \<Rightarrow> uuid option \<Rightarrow> ('w, tool_error, unit) io" where
  "authorize_only c os capability request nonce_opt =
     io_bind (io_lift (case nonce_opt of
         None \<Rightarrow> Ok None
       | Some n \<Rightarrow> res_bind (res_map_err Serialize (request_binding_for c request n)) (\<lambda>b. Ok (Some b)))) (\<lambda>actual_binding.
     io_bind (io_draw (os_now os)) (\<lambda>now.
     io_bind (io_lift (res_map_err Verification (verify c capability now actual_binding))) (\<lambda>verified w.
     (case decide (os_fs os w) (vc_permissions verified) request of
        Allow \<Rightarrow> (Ok (), w)
      | Deny reason \<Rightarrow> (Err (DeniedError reason), w)))))"

section \<open>Execution\<close>

definition execute :: "('w, 'kp) os \<Rightarrow> tool_call \<Rightarrow> ('w, tool_error, tool_output) io" where
  "execute os call =
     (case call of
        FsRead p \<Rightarrow>
          io_bind (io_map_err Io (\<lambda>w. os_read_to_string os w p)) (\<lambda>content.
          io_lift (Ok (ReadOutput content)))
      | FsWrite p contents \<Rightarrow>
          io_bind (io_map_err Io (\<lambda>w. os_write os w p contents)) (\<lambda>_.
          io_lift (Ok (WriteOutput (length contents))))
      | ExecCall binary args \<Rightarrow>
          io_bind (io_map_err Io (\<lambda>w. os_command_output os w binary args)) (\<lambda>output.
          io_lift (Ok (ExecOutput (out_status output)
            (utf8_lossy (out_stdout output)) (utf8_lossy (out_stderr output)))))
      | NetworkCall host port payload \<Rightarrow>
          io_bind (io_map_err Io (\<lambda>w. os_tcp_connect os w host port)) (\<lambda>stream.
          io_bind (io_map_err Io (\<lambda>w. os_tcp_write_all os w stream payload)) (\<lambda>_.
          io_lift (Ok (NetworkOutput (length payload))))))"

definition dispatch ::
    "('kp, 'pk, 'b, 'tok) crates \<Rightarrow> ('w, 'kp) os \<Rightarrow> 'tok child_capability \<Rightarrow> tool_call
      \<Rightarrow> uuid option \<Rightarrow> ('w, tool_error, tool_output) io" where
  "dispatch c os capability call nonce_opt =
     io_bind (authorize_only c os capability (to_request call) nonce_opt) (\<lambda>_. execute os call)"

end
