(* ===== verification/Tools_Facts.thy ===== *)
theory Tools_Facts
  imports Tools
begin

text \<open>
  What holds of the tools: what a request binding identifies, when \<open>authorize_only\<close> succeeds,
  and that \<open>dispatch\<close> reaches \<open>execute\<close> only behind a successful authorization.
\<close>

section \<open>Bindings\<close>

lemma call_tool_name_request [simp]: "request_tool_name (to_request call) = call_tool_name call"
  by (cases call) simp_all

lemma request_binding_for_Ok_iff:
  "request_binding_for c req n = Ok b \<longleftrightarrow>
     (\<exists>bs. json_to_vec c (request_json req) = Ok bs
        \<and> b = \<lparr>tool_name = request_tool_name req,
               argument_hash = hash_tool_arguments c (request_tool_name req) bs n, nonce = n\<rparr>)"
  by (auto simp: request_binding_for_def res_split_rules)

lemma request_json_inject: "request_json r = request_json r' \<longleftrightarrow> r = r'"
  by (cases r; cases r') auto

text \<open>The text that is hashed determines the three fields, for tool names without a zero byte.\<close>

lemma as_bytes_no_zero: "CHR 0x00 \<notin> set s \<Longrightarrow> 0 \<notin> set (as_bytes s)"
proof -
  have "char_byte (CHR 0x00) = 0" by (simp add: char_byte_def)
  then have "char_byte x = 0 \<longleftrightarrow> x = CHR 0x00" for x using char_byte_inject [of x "CHR 0x00"] by simp
  then show "CHR 0x00 \<notin> set s \<Longrightarrow> 0 \<notin> set (as_bytes s)" by (force simp: as_bytes_def)
qed

lemma hash_input_inject:
  assumes uuids: "uuid_laws c" and names: "CHR 0x00 \<notin> set t" "CHR 0x00 \<notin> set t'"
    and eq: "hash_input c t a n = hash_input c t' a' n'"
  shows "t = t' \<and> a = a' \<and> n = n'"
proof -
  have "as_bytes t @ 0 # (a @ 0 # uuid_as_bytes c n) = as_bytes t' @ 0 # (a' @ 0 # uuid_as_bytes c n')"
    using eq by (simp add: hash_input_def)
  from append_delim_inject [OF as_bytes_no_zero [OF names(1)] as_bytes_no_zero [OF names(2)] this]
  have t: "as_bytes t = as_bytes t'" and rest: "a @ 0 # uuid_as_bytes c n = a' @ 0 # uuid_as_bytes c n'"
    by auto
  have "length (0 # uuid_as_bytes c n) = length (0 # uuid_as_bytes c n')"
    by (simp add: uuid_lawsD(4) [OF uuids])
  with rest have "a = a' \<and> 0 # uuid_as_bytes c n = 0 # uuid_as_bytes c n'"
    by (simp only: append_eq_same_suffix_length)
  with t uuid_lawsD(5) [OF uuids] show ?thesis by (auto dest: injD)
qed

text \<open>
  A binding identifies the request it was made for, unless the two hash inputs collide.
\<close>

lemma binding_identifies:
  assumes bound: "request_binding_for c req n = Ok b" "request_binding_for c req' n' = Ok b"
    and json: "json_laws c" and uuids: "uuid_laws c"
    and inputs: "json_to_vec c (request_json req) = Ok bs" "json_to_vec c (request_json req') = Ok bs'"
    and no_collision: "inj_on (blake3 c)
      {hash_input c (request_tool_name req) bs n, hash_input c (request_tool_name req') bs' n'}"
  shows "req = req' \<and> n = n'"
proof -
  have "hash_tool_arguments c (request_tool_name req) bs n = hash_tool_arguments c (request_tool_name req') bs' n'"
    using bound inputs by (auto simp: request_binding_for_Ok_iff)
  then have "hash_input c (request_tool_name req) bs n = hash_input c (request_tool_name req') bs' n'"
    using no_collision by (auto simp: hash_tool_arguments_def)
  moreover have "CHR 0x00 \<notin> set (request_tool_name r)" for r by (cases r) simp_all
  ultimately have eq: "bs = bs' \<and> n = n'" using hash_input_inject [OF uuids] by blast
  moreover have "text_json (request_json r)" for r by (cases r) simp_all
  ultimately have "request_json req = request_json req'"
    using inputs json unfolding json_laws_def by blast
  with eq show ?thesis by (simp add: request_json_inject)
qed

section \<open>Authorization\<close>

text \<open>The binding a call is checked against.\<close>

definition actual_binding_for ::
    "('kp, 'pk, 'b, 'tok) crates \<Rightarrow> tool_request \<Rightarrow> uuid option \<Rightarrow> (string, request_binding option) res" where
  "actual_binding_for c req n_opt =
     (case n_opt of None \<Rightarrow> Ok None | Some n \<Rightarrow> res_bind (request_binding_for c req n) (\<lambda>b. Ok (Some b)))"

lemma actual_binding_lift:
  "(case n_opt of None \<Rightarrow> Ok None
    | Some n \<Rightarrow> res_bind (res_map_err Serialize (request_binding_for c req n)) (\<lambda>b. Ok (Some b)))
   = res_map_err Serialize (actual_binding_for c req n_opt)"
  by (cases n_opt; cases "request_binding_for c req (the n_opt)") (simp_all add: actual_binding_for_def)

lemma decision_outcome:
  "(case d of Allow \<Rightarrow> (Ok (), w) | Deny reason \<Rightarrow> (Err (DeniedError reason), w)) = (r, w')
    \<longleftrightarrow> w' = w \<and> (d = Allow \<and> r = Ok () \<or> (\<exists>reason. d = Deny reason \<and> r = Err (DeniedError reason)))"
  by (cases d) auto

lemma authorize_only_Ok_iff:
  "authorize_only c os ch req n_opt w = (Ok u, w') \<longleftrightarrow>
     (\<exists>ab now v. actual_binding_for c req n_opt = Ok ab \<and> os_now os w = (now, w')
        \<and> verify c ch now ab = Ok v \<and> decide (os_fs os w') (vc_permissions v) req = Allow)"
  by (auto simp: authorize_only_def actual_binding_lift res_split_rules decision_outcome)

lemma authorize_only_Err:
  "authorize_only c os ch req n_opt w = (Err e, w') \<Longrightarrow>
    (\<forall>s. e \<noteq> Io s) \<and> (w' = w \<or> (\<exists>now. os_now os w = (now, w')))"
  by (auto simp: authorize_only_def actual_binding_lift res_split_rules decision_outcome)

lemma authorize_only_world:
  "authorize_only c os ch req n_opt w = (r, w') \<Longrightarrow> w' = w \<or> (\<exists>now. os_now os w = (now, w'))"
  by (auto simp: authorize_only_def io_bind_def io_lift_def io_draw_def decision_outcome split: res.splits prod.splits)

text \<open>What an accepted request is known to be: within the capability, in time, bound to it.\<close>

lemma authorize_only_sound:
  assumes "authorize_only c os ch req n_opt w = (Ok u, w')"
  shows "\<exists>now. os_now os w = (now, w') \<and> now < child_expires_at ch
    \<and> decide (os_fs os w') (child_permissions ch) req = Allow
    \<and> (\<forall>b. child_request_binding ch = Some b \<longrightarrow> (\<exists>n. n_opt = Some n \<and> request_binding_for c req n = Ok b))"
proof -
  obtain ab now v where v: "actual_binding_for c req n_opt = Ok ab" "os_now os w = (now, w')"
      "verify c ch now ab = Ok v" "decide (os_fs os w') (vc_permissions v) req = Allow"
    using assms by (auto simp: authorize_only_Ok_iff)
  from verify_permissions_match [OF v(3)] v(3) have
    m: "permissions_eq (vc_permissions v) (child_permissions ch)" "now < child_expires_at ch"
      "\<forall>b. child_request_binding ch = Some b \<longrightarrow> ab = Some b"
    by (auto simp: verify_Ok_iff)
  then have "decide (os_fs os w') (child_permissions ch) req = Allow"
    using v(4) decide_permissions_eq [OF m(1)] by simp
  with v(1,2) m show ?thesis
    by (auto simp: actual_binding_for_def res_split_rules split: option.splits)
qed

lemma authorize_only_network: "authorize_only c os ch Network n_opt w \<noteq> (Ok u, w')"
  by (auto simp: authorize_only_Ok_iff decide_simps)

section \<open>Dispatch\<close>

lemma dispatch_cases:
  assumes "dispatch c os ch call n_opt w = (r, w')"
  shows "(\<exists>e. authorize_only c os ch (to_request call) n_opt w = (Err e, w') \<and> r = Err e)
    \<or> (authorize_only c os ch (to_request call) n_opt w = (Panic, w') \<and> r = Panic)
    \<or> (\<exists>w1. authorize_only c os ch (to_request call) n_opt w = (Ok (), w1) \<and> execute os call w1 = (r, w'))"
  using assms unfolding dispatch_def io_bind_def
  by (cases "authorize_only c os ch (to_request call) n_opt w") (auto split: res.splits)

lemma execute_Err: "execute os call w = (Err e, w') \<Longrightarrow> \<exists>s. e = Io s"
  by (cases call) (auto simp: execute_def res_split_rules)

lemma dispatch_authorized:
  "authorize_only c os ch (to_request call) n_opt w = (Ok u, w1) \<Longrightarrow>
    dispatch c os ch call n_opt w = execute os call w1"
  by (simp add: dispatch_def io_bind_def)

lemma dispatch_refused:
  "authorize_only c os ch (to_request call) n_opt w = (Err e, w1) \<Longrightarrow>
    dispatch c os ch call n_opt w = (Err e, w1)"
  by (simp add: dispatch_def io_bind_def)

end
