(* ===== verification/Audit_Log.thy ===== *)
theory Audit_Log
  imports Crates
begin

text \<open>
  The hash-chained audit log (\<open>audit/src/lib.rs\<close>): its entries, the byte encoding that is
  hashed, appending and verification; then what a chain that verifies guarantees.  The generic
  part of the argument is the contract \<open>hash_chain\<close>.
\<close>

section \<open>Data\<close>

datatype audit_event =
    RootMinted uuid
  | CapabilityAttenuated uuid
  | ToolAllowed string
  | ToolDenied string string

record audit_entry =
  ae_id :: uuid
  ae_timestamp :: datetime
  ae_event :: audit_event
  ae_previous_hash :: bytes
  ae_entry_hash :: bytes

datatype audit_error = BrokenChain nat | HashMismatch nat

primrec show_audit_error :: "audit_error \<Rightarrow> string" where
  "show_audit_error (BrokenChain i) = ''audit chain is broken at entry '' @ show_nat i"
| "show_audit_error (HashMismatch i) = ''audit entry hash mismatch at entry '' @ show_nat i"

text \<open>The separator before a denial's reason is an em dash in UTF-8.\<close>

primrec show_event :: "('kp, 'pk, 'b, 'tok) crates \<Rightarrow> audit_event \<Rightarrow> string" where
  "show_event c (RootMinted u) = ''ROOT MINTED   task='' @ uuid_to_string c u"
| "show_event c (CapabilityAttenuated u) = ''ATTENUATED    task='' @ uuid_to_string c u"
| "show_event c (ToolAllowed name) = ''ALLOWED       '' @ name"
| "show_event c (ToolDenied name reason) =
     ''DENIED        '' @ name @ ''  '' @ [CHR 0xE2, CHR 0x80, CHR 0x94] @ '' '' @ reason"

section \<open>Hashing\<close>

text \<open>\<open>(value.len() as u64).to_be_bytes()\<close>, then the bytes.\<close>

definition hash_str_input :: "string \<Rightarrow> bytes" where
  "hash_str_input s = be_bytes 8 (length s mod 2 ^ 64) @ as_bytes s"

primrec hash_event_input :: "('kp, 'pk, 'b, 'tok) crates \<Rightarrow> audit_event \<Rightarrow> bytes" where
  "hash_event_input c (RootMinted u) = as_bytes ''root_minted'' @ uuid_as_bytes c u"
| "hash_event_input c (CapabilityAttenuated u) = as_bytes ''capability_attenuated'' @ uuid_as_bytes c u"
| "hash_event_input c (ToolAllowed name) = as_bytes ''tool_allowed'' @ hash_str_input name"
| "hash_event_input c (ToolDenied name reason) =
     as_bytes ''tool_denied'' @ hash_str_input name @ hash_str_input reason"

text \<open>The time stamp's seconds are an \<open>i64\<close>, written in two's complement.\<close>

definition hash_entry_input ::
    "('kp, 'pk, 'b, 'tok) crates \<Rightarrow> uuid \<Rightarrow> datetime \<Rightarrow> audit_event \<Rightarrow> bytes \<Rightarrow> bytes" where
  "hash_entry_input c i t e prev =
     uuid_as_bytes c i @ be_bytes 8 (nat (timestamp c t mod 2 ^ 64))
     @ be_bytes 4 (timestamp_subsec_nanos c t mod 2 ^ 32) @ hash_event_input c e @ prev"

definition hash_entry_fields ::
    "('kp, 'pk, 'b, 'tok) crates \<Rightarrow> uuid \<Rightarrow> datetime \<Rightarrow> audit_event \<Rightarrow> bytes \<Rightarrow> bytes" where
  "hash_entry_fields c i t e prev = blake3 c (hash_entry_input c i t e prev)"

section \<open>Appending and verifying\<close>

definition chain_entry ::
    "('kp, 'pk, 'b, 'tok) crates \<Rightarrow> ('w, 'kp) os \<Rightarrow> bytes \<Rightarrow> datetime \<Rightarrow> audit_event
      \<Rightarrow> ('w, audit_error, audit_entry) io" where
  "chain_entry c os prev t e =
     io_bind (io_draw (os_uuid os)) (\<lambda>i.
     io_lift (Ok \<lparr>ae_id = i, ae_timestamp = t, ae_event = e, ae_previous_hash = prev,
                  ae_entry_hash = hash_entry_fields c i t e prev\<rparr>))"

text \<open>\<open>previous\<close> is \<open>entries.get(index - 1)\<close>, which is there for all but the first entry.\<close>

fun verify_loop ::
    "('kp, 'pk, 'b, 'tok) crates \<Rightarrow> nat \<Rightarrow> audit_entry option \<Rightarrow> audit_entry list \<Rightarrow> (audit_error, unit) res" where
  "verify_loop c index previous [] = Ok ()"
| "verify_loop c index previous (entry # rest) =
     (if ae_entry_hash entry
           \<noteq> hash_entry_fields c (ae_id entry) (ae_timestamp entry) (ae_event entry) (ae_previous_hash entry)
      then Err (HashMismatch index)
      else
        (case previous of
           Some p \<Rightarrow>
             if ae_previous_hash entry \<noteq> ae_entry_hash p then Err (BrokenChain index)
             else verify_loop c (Suc index) (Some entry) rest
         | None \<Rightarrow> verify_loop c (Suc index) (Some entry) rest))"

definition verify_chain :: "('kp, 'pk, 'b, 'tok) crates \<Rightarrow> audit_entry list \<Rightarrow> (audit_error, unit) res" where
  "verify_chain c entries = verify_loop c 0 None entries"

end
