(* ===== verification/Audit_Facts.thy ===== *)
theory Audit_Facts
  imports Audit_Log
begin

text \<open>
  What a verified audit chain guarantees.  \<open>hash_chain\<close> is the contract of entries that carry a
  digest of themselves and the digest of their predecessor; its client lemmas are the closure of
  valid chains under appending and slicing, and the uniqueness of a chain given its last digest.
\<close>

section \<open>The contract of hash chains\<close>

definition chain_valid :: "('e \<Rightarrow> bool) \<Rightarrow> ('e \<Rightarrow> 'h) \<Rightarrow> ('e \<Rightarrow> 'h) \<Rightarrow> 'e list \<Rightarrow> bool" where
  "chain_valid good digest prev es \<longleftrightarrow>
     list_all good es \<and> successively (\<lambda>e f. prev f = digest e) es"

locale hash_chain =
  fixes good :: "'e \<Rightarrow> bool" and wf :: "'e \<Rightarrow> bool"
    and digest :: "'e \<Rightarrow> 'h" and prev :: "'e \<Rightarrow> 'h"
    and input :: "'e \<Rightarrow> 'm" and hash :: "'m \<Rightarrow> 'h"
  assumes good_digest: "good e \<Longrightarrow> digest e = hash (input e)"
    and input_inject: "wf e \<Longrightarrow> wf f \<Longrightarrow> input e = input f \<Longrightarrow> digest e = digest f \<Longrightarrow> e = f"
begin

lemma valid_snoc:
  "chain_valid good digest prev (es @ [e]) \<longleftrightarrow> chain_valid good digest prev es \<and> good e \<and> (es = [] \<or> prev e = digest (last es))"
  by (auto simp: chain_valid_def successively_append_iff)

lemma valid_slice: "chain_valid good digest prev es \<Longrightarrow> chain_valid good digest prev (take n (drop k es))"
proof -
  assume v: "chain_valid good digest prev es"
  have "es = take k es @ take n (drop k es) @ drop n (drop k es)"
    by (simp only: append_take_drop_id)
  with v show ?thesis
    unfolding chain_valid_def
    by (metis list_all_append successively_append_iff)
qed

lemma good_collision:
  assumes "good e" "good f" "wf e" "wf f" "digest e = digest f" "inj_on hash (input ` S)" "e \<in> S" "f \<in> S"
  shows "e = f"
proof -
  have "input e = input f" using assms good_digest by (auto dest: inj_onD)
  with assms show ?thesis using input_inject by blast
qed

lemma valid_unique:
  assumes "inj_on hash (input ` S)"
  shows "chain_valid good digest prev es \<Longrightarrow> chain_valid good digest prev fs \<Longrightarrow> list_all wf es \<Longrightarrow> list_all wf fs \<Longrightarrow> set es \<subseteq> S \<Longrightarrow> set fs \<subseteq> S
    \<Longrightarrow> length es = length fs \<Longrightarrow> es \<noteq> [] \<Longrightarrow> digest (last es) = digest (last fs) \<Longrightarrow> es = fs"
proof (induction es arbitrary: fs rule: rev_induct)
  case (snoc e es)
  then obtain gs f where fs: "fs = gs @ [f]" by (metis append_Nil2 length_0_conv rev_exhaust)
  from snoc.prems have goods: "good e" "good f" "chain_valid good digest prev es" "chain_valid good digest prev gs" by (simp_all add: fs valid_snoc)
  have ef: "e = f"
    using snoc.prems goods by (intro good_collision [OF goods(1,2) _ _ _ assms]) (simp_all add: fs)
  show ?case
  proof (cases "es = []")
    case False
    then have "gs \<noteq> []" using snoc.prems by (auto simp: fs)
    with False snoc.prems ef have "digest (last es) = digest (last gs)" by (simp add: fs valid_snoc)
    with False snoc.prems goods have "es = gs" by (intro snoc.IH) (simp_all add: fs)
    with ef show ?thesis by (simp add: fs)
  qed (use snoc.prems ef in \<open>simp add: fs\<close>)
qed simp

end

section \<open>The encoding determines the entry\<close>

definition entry_good :: "('kp, 'pk, 'b, 'tok) crates \<Rightarrow> audit_entry \<Rightarrow> bool" where
  "entry_good c e \<longleftrightarrow>
     ae_entry_hash e = hash_entry_fields c (ae_id e) (ae_timestamp e) (ae_event e) (ae_previous_hash e)"

definition entry_input :: "('kp, 'pk, 'b, 'tok) crates \<Rightarrow> audit_entry \<Rightarrow> bytes" where
  "entry_input c e = hash_entry_input c (ae_id e) (ae_timestamp e) (ae_event e) (ae_previous_hash e)"

text \<open>The crates' encodings of time stamps and identifiers, as the log relies on them.\<close>

definition stamp_laws :: "('kp, 'pk, 'b, 'tok) crates \<Rightarrow> bool" where
  "stamp_laws c \<longleftrightarrow> uuid_laws c \<and> (\<forall>t. timestamp c t = t div 1000000000)
     \<and> (\<forall>t. timestamp_subsec_nanos c t = nat (t mod 1000000000))"

text \<open>
  What every entry of the program satisfies by its Rust types: the previous hash is a
  \<open>[u8; 32]\<close>, the time is a \<open>DateTime\<close>, whose seconds fit an \<open>i64\<close>, and the strings have a
  length that fits a \<open>usize\<close>.
\<close>

primrec event_sized :: "audit_event \<Rightarrow> bool" where
  "event_sized (RootMinted u) = True"
| "event_sized (CapabilityAttenuated u) = True"
| "event_sized (ToolAllowed name) = (length name < 2 ^ 64)"
| "event_sized (ToolDenied name reason) = (length name < 2 ^ 64 \<and> length reason < 2 ^ 64)"

definition entry_sized :: "audit_entry \<Rightarrow> bool" where
  "entry_sized e \<longleftrightarrow> length (ae_previous_hash e) = 32 \<and> event_sized (ae_event e)
     \<and> - (2 ^ 63) \<le> ae_timestamp e div 1000000000 \<and> ae_timestamp e div 1000000000 < 2 ^ 63"

lemma hash_str_input_inject:
  assumes "length s < 2 ^ 64" "length t < 2 ^ 64" "hash_str_input s @ a = hash_str_input t @ b"
  shows "s = t \<and> a = b"
proof -
  from assms have lengths: "be_bytes 8 (length s) = be_bytes 8 (length t)"
      and rest: "as_bytes s @ a = as_bytes t @ b"
    by (simp_all add: hash_str_input_def append_eq_same_length)
  from be_bytes_inject [OF _ _ lengths] assms have "length (as_bytes s) = length (as_bytes t)" by simp
  with rest show ?thesis by (simp add: append_eq_same_length)
qed

text \<open>Event encodings are self-delimiting.\<close>

lemma tags_apart [simp]:
  "as_bytes ''root_minted'' @ a \<noteq> as_bytes ''capability_attenuated'' @ b"
  "as_bytes ''root_minted'' @ a \<noteq> as_bytes ''tool_allowed'' @ b"
  "as_bytes ''root_minted'' @ a \<noteq> as_bytes ''tool_denied'' @ b"
  "as_bytes ''capability_attenuated'' @ a \<noteq> as_bytes ''tool_allowed'' @ b"
  "as_bytes ''capability_attenuated'' @ a \<noteq> as_bytes ''tool_denied'' @ b"
  "as_bytes ''tool_allowed'' @ a \<noteq> as_bytes ''tool_denied'' @ b"
  by (simp_all add: as_bytes_def)

lemma hash_event_input_inject:
  assumes "uuid_laws c" "event_sized e" "event_sized f"
    and "hash_event_input c e @ a = hash_event_input c f @ b"
  shows "e = f \<and> a = b"
proof -
  have ids: "uuid_as_bytes c u @ a = uuid_as_bytes c v @ b \<Longrightarrow> u = v \<and> a = b" for u v
    using uuid_lawsD(4,5) [OF assms(1)] by (auto simp: append_eq_same_length dest: injD)
  show ?thesis
  proof (cases e; cases f)
    fix n r m q
    assume ef: "e = ToolDenied n r" "f = ToolDenied m q"
    with assms have "hash_str_input n @ (hash_str_input r @ a) = hash_str_input m @ (hash_str_input q @ b)"
      by simp
    from hash_str_input_inject [OF _ _ this] ef assms have "n = m"
        "hash_str_input r @ a = hash_str_input q @ b"
      by auto
    with hash_str_input_inject [OF _ _ this(2)] ef assms show ?thesis by auto
  next
    fix n m
    assume ef: "e = ToolAllowed n" "f = ToolAllowed m"
    with assms hash_str_input_inject [of n m a b] show ?thesis by auto
  qed (use assms(4) ids tags_apart [symmetric] in auto)
qed

lemma int64_inject:
  fixes a b :: int
  assumes "- (2 ^ 63) \<le> a" "a < 2 ^ 63" "- (2 ^ 63) \<le> b" "b < 2 ^ 63"
    and "nat (a mod 2 ^ 64) = nat (b mod 2 ^ 64)"
  shows "a = b"
proof -
  have "a mod 2 ^ 64 = b mod 2 ^ 64" using assms(5) by simp
  then have "(a + 2 ^ 63) mod 2 ^ 64 = (b + 2 ^ 63) mod 2 ^ 64" by (rule mod_add_cong) simp
  with assms(1-4) show ?thesis by simp
qed

lemma hash_entry_input_inject:
  assumes laws: "stamp_laws c" and sized: "entry_sized e" "entry_sized f"
    and eq: "entry_input c e = entry_input c f"
  shows "ae_id e = ae_id f \<and> ae_timestamp e = ae_timestamp f \<and> ae_event e = ae_event f
    \<and> ae_previous_hash e = ae_previous_hash f"
proof -
  have uuids: "uuid_laws c" and secs: "\<And>t. timestamp c t = t div 1000000000"
      and nanos: "\<And>t. timestamp_subsec_nanos c t = nat (t mod 1000000000)"
    using laws by (auto simp: stamp_laws_def)
  let ?t = "ae_timestamp e" and ?t' = "ae_timestamp f"
  have parts: "uuid_as_bytes c (ae_id e) = uuid_as_bytes c (ae_id f)"
      "be_bytes 8 (nat (timestamp c ?t mod 2 ^ 64)) = be_bytes 8 (nat (timestamp c ?t' mod 2 ^ 64))"
      "be_bytes 4 (timestamp_subsec_nanos c ?t mod 2 ^ 32) = be_bytes 4 (timestamp_subsec_nanos c ?t' mod 2 ^ 32)"
      "hash_event_input c (ae_event e) @ ae_previous_hash e = hash_event_input c (ae_event f) @ ae_previous_hash f"
    using eq unfolding entry_input_def hash_entry_input_def
    by (simp_all only: append_eq_same_length length_be_bytes uuid_lawsD(4) [OF uuids])
  have "nat (timestamp c ?t mod 2 ^ 64) = nat (timestamp c ?t' mod 2 ^ 64)"
    using parts(2) by (rule be_bytes_inject [rotated 2]) simp_all
  then have s: "?t div 1000000000 = ?t' div 1000000000"
    using sized by (intro int64_inject) (simp_all add: secs entry_sized_def)
  have small: "nat (t mod 1000000000) < 2 ^ 32" for t :: int by simp
  have "timestamp_subsec_nanos c ?t mod 2 ^ 32 = timestamp_subsec_nanos c ?t' mod 2 ^ 32"
    using parts(3) by (rule be_bytes_inject [rotated 2]) simp_all
  then have "?t mod 1000000000 = ?t' mod 1000000000"
    by (simp only: nanos mod_less [OF small] eq_nat_nat_iff [OF pos_mod_sign pos_mod_sign] zero_less_numeral)
  with s have "?t = ?t'" by (metis mult_div_mod_eq)
  with parts(1) uuid_lawsD(5) [OF uuids] hash_event_input_inject [OF uuids _ _ parts(4)] sized
  show ?thesis by (auto simp: entry_sized_def dest: injD)
qed

definition entry_wf :: "('kp, 'pk, 'b, 'tok) crates \<Rightarrow> audit_entry \<Rightarrow> bool" where
  "entry_wf c e \<longleftrightarrow> stamp_laws c \<and> entry_sized e"

interpretation audit: hash_chain "entry_good c" "entry_wf c" ae_entry_hash ae_previous_hash
    "entry_input c" "blake3 c" for c
proof (unfold_locales, goal_cases)
  case (1 e)
  then show ?case by (simp add: entry_good_def entry_input_def hash_entry_fields_def)
next
  case (2 e f)
  then have "stamp_laws c" "entry_sized e" "entry_sized f" by (simp_all add: entry_wf_def)
  from hash_entry_input_inject [OF this 2(3)] 2(4) show ?case by simp
qed

section \<open>Verification\<close>

lemma verify_loop_Ok_iff:
  "verify_loop c k p es = Ok () \<longleftrightarrow>
    list_all (entry_good c) es
    \<and> successively (\<lambda>e f. ae_previous_hash f = ae_entry_hash e) (case p of None \<Rightarrow> es | Some q \<Rightarrow> q # es)"
  by (induction c k p es rule: verify_loop.induct) (auto simp: entry_good_def split: option.splits)

lemma verify_chain_valid: "verify_chain c es = Ok () \<longleftrightarrow> chain_valid (entry_good c) ae_entry_hash ae_previous_hash es"
  by (simp add: verify_chain_def verify_loop_Ok_iff chain_valid_def)

lemma verify_loop_no_panic: "verify_loop c k p es \<noteq> Panic"
  by (induction c k p es rule: verify_loop.induct) (auto split: option.splits)

text \<open>An error names the first entry that is wrong.\<close>

lemma verify_loop_Err:
  "verify_loop c k p es = Err e \<Longrightarrow>
    \<exists>i < length es. verify_loop c k p (take i es) = Ok ()
      \<and> (if entry_good c (es ! i)
         then e = BrokenChain (k + i)
           \<and> (case (if i = 0 then p else Some (es ! (i - 1))) of
                None \<Rightarrow> False | Some q \<Rightarrow> ae_previous_hash (es ! i) \<noteq> ae_entry_hash q)
         else e = HashMismatch (k + i))"
proof (induction c k p es rule: verify_loop.induct)
  case (2 c k p x es)
  show ?case
  proof (cases "entry_good c x \<and> (case p of None \<Rightarrow> True | Some q \<Rightarrow> ae_previous_hash x = ae_entry_hash q)")
    case False
    with "2.prems" show ?thesis
      by (intro exI [of _ 0]) (auto simp: entry_good_def split: option.splits if_splits)
  next
    case True
    then have step: "verify_loop c k p (x # ys) = verify_loop c (Suc k) (Some x) ys" for ys
      by (auto simp: entry_good_def split: option.splits)
    have IH: "\<exists>i < length es. verify_loop c (Suc k) (Some x) (take i es) = Ok ()
      \<and> (if entry_good c (es ! i)
         then e = BrokenChain (Suc k + i)
           \<and> (case (if i = 0 then Some x else Some (es ! (i - 1))) of
                None \<Rightarrow> False | Some q \<Rightarrow> ae_previous_hash (es ! i) \<noteq> ae_entry_hash q)
         else e = HashMismatch (Suc k + i))"
      using "2.IH" "2.prems" True by (cases p) (auto simp: entry_good_def)
    then obtain i where i: "i < length es" "verify_loop c (Suc k) (Some x) (take i es) = Ok ()"
      "if entry_good c (es ! i)
         then e = BrokenChain (Suc k + i)
           \<and> (case (if i = 0 then Some x else Some (es ! (i - 1))) of
                None \<Rightarrow> False | Some q \<Rightarrow> ae_previous_hash (es ! i) \<noteq> ae_entry_hash q)
         else e = HashMismatch (Suc k + i)"
      by blast
    then show ?thesis by (intro exI [of _ "Suc i"]) (auto simp: step nth_Cons' simp del: verify_loop.simps split: if_splits)
  qed
qed simp

section \<open>Appending\<close>

lemma chain_entry_eq:
  "chain_entry c os prev t e w =
    (case os_uuid os w of (i, w') \<Rightarrow>
      (Ok \<lparr>ae_id = i, ae_timestamp = t, ae_event = e, ae_previous_hash = prev,
           ae_entry_hash = hash_entry_fields c i t e prev\<rparr>, w'))"
  by (simp add: chain_entry_def io_bind_def io_draw_def io_lift_def split: prod.split)

lemma chain_entry_Ok:
  "chain_entry c os prev t e w = (Ok entry, w') \<Longrightarrow>
    entry_good c entry \<and> ae_previous_hash entry = prev \<and> ae_timestamp entry = t \<and> ae_event entry = e"
  by (auto simp: chain_entry_eq entry_good_def split: prod.splits)

lemma verify_chain_append:
  assumes "verify_chain c es = Ok ()" "chain_entry c os prev t e w = (Ok entry, w')"
    and "es = [] \<or> prev = ae_entry_hash (last es)"
  shows "verify_chain c (es @ [entry]) = Ok ()"
  using assms chain_entry_Ok [OF assms(2)] by (auto simp: verify_chain_valid audit.valid_snoc)

lemma verify_chain_slice: "verify_chain c es = Ok () \<Longrightarrow> verify_chain c (take n (drop k es)) = Ok ()"
  by (simp add: verify_chain_valid audit.valid_slice)

end
