(* ===== verification/Agent.thy ===== *)
theory Agent
  imports Tools_Facts Audit_Facts
begin

text \<open>
  The reference orchestrator (\<open>agent/src/lib.rs\<close>, lines 1 to 370): the mode switch, the
  steps of the enforced and of the bypassed path, the audit record each leaves, and the loop that
  drives a principal.  A step acts on the orchestrator and the world; it never returns an error,
  so its error type is that of the loop.
\<close>

section \<open>Data\<close>

datatype authz_mode = Enforced | Bypassed

definition from_env_value :: "string \<Rightarrow> authz_mode" where
  "from_env_value s =
     (if to_ascii_lower (trim s) \<in> {''off'', ''0'', ''false'', ''no'', ''bypass''} then Bypassed else Enforced)"

definition CHILD_TTL_SECONDS :: u64 where
  "CHILD_TTL_SECONDS = 5"

definition DEFAULT_MAX_TURNS :: nat where
  "DEFAULT_MAX_TURNS = 16"

datatype orchestrator_error = Mint capability_error | AuditError audit_error

primrec show_orchestrator_error :: "orchestrator_error \<Rightarrow> string" where
  "show_orchestrator_error (Mint e) = ''failed to mint root capability: '' @ show_capability_error e"
| "show_orchestrator_error (AuditError e) = ''failed to write audit entry: '' @ show_audit_error e"

datatype step_decision = Allowed tool_output | Denied string | Errored string

record step_outcome =
  so_call :: tool_call
  so_decision :: step_decision

record 'tok orchestrator =
  o_mode :: authz_mode
  o_task_id :: uuid
  o_root :: "'tok root_capability"
  o_audit_log :: "audit_entry list"
  o_previous_hash :: bytes

section \<open>Feedback\<close>

definition MAX_FEEDBACK_CHARS :: nat where
  "MAX_FEEDBACK_CHARS = 4000"

definition newline :: string where
  "newline = [CHR 0x0A]"

definition truncate_for_feedback :: "string \<Rightarrow> string" where
  "truncate_for_feedback text =
     (if chars_count text \<le> MAX_FEEDBACK_CHARS then text
      else chars_take MAX_FEEDBACK_CHARS text @ newline @ ''... (truncated; ''
           @ show_nat (length text) @ '' bytes total)'')"

text \<open>\<open>{status:?}\<close> of an \<open>Option<i32>\<close>.\<close>

definition debug_status :: "int option \<Rightarrow> string" where
  "debug_status s = (case s of None \<Rightarrow> ''None'' | Some i \<Rightarrow> ''Some('' @ show_int i @ '')'')"

definition decision_feedback :: "step_decision \<Rightarrow> string" where
  "decision_feedback d =
     (case d of
        Allowed (ReadOutput content) \<Rightarrow> truncate_for_feedback content
      | Allowed (WriteOutput n) \<Rightarrow> ''ok: wrote '' @ show_nat n @ '' bytes''
      | Allowed (ExecOutput status out err) \<Rightarrow>
          ''exit='' @ debug_status status @ newline @ ''--- stdout ---'' @ newline
          @ truncate_for_feedback out @ newline @ ''--- stderr ---'' @ newline
          @ truncate_for_feedback err
      | Allowed (NetworkOutput n) \<Rightarrow> ''ok: sent '' @ show_nat n @ '' bytes''
      | Denied reason \<Rightarrow> ''DENIED by authorization policy: '' @ reason
      | Errored reason \<Rightarrow> ''ERROR executing tool: '' @ reason)"

section \<open>Recording\<close>

definition record_event ::
    "('kp, 'pk, 'b, 'tok) crates \<Rightarrow> ('w, 'kp) os \<Rightarrow> audit_event
      \<Rightarrow> ('tok orchestrator \<times> 'w, orchestrator_error, unit) io" where
  "record_event c os event s =
     (case s of (self, w) \<Rightarrow>
      case os_now os w of (now, w1) \<Rightarrow>
      case chain_entry c os (o_previous_hash self) now event w1 of
        (Ok entry, w2) \<Rightarrow>
          (Ok (), self\<lparr>o_previous_hash := ae_entry_hash entry,
                       o_audit_log := o_audit_log self @ [entry]\<rparr>, w2)
      | (Err e, w2) \<Rightarrow> (Err (AuditError e), self, w2)
      | (Panic, w2) \<Rightarrow> (Panic, self, w2))"

definition record_lossy ::
    "('kp, 'pk, 'b, 'tok) crates \<Rightarrow> ('w, 'kp) os \<Rightarrow> audit_event
      \<Rightarrow> ('tok orchestrator \<times> 'w, string, unit) io" where
  "record_lossy c os event s =
     (case record_event c os event s of
        (Ok u, s') \<Rightarrow> (Ok (), s') | (Err e, s') \<Rightarrow> (Ok (), s') | (Panic, s') \<Rightarrow> (Panic, s'))"

definition deny ::
    "('kp, 'pk, 'b, 'tok) crates \<Rightarrow> ('w, 'kp) os \<Rightarrow> tool_call \<Rightarrow> string
      \<Rightarrow> ('tok orchestrator \<times> 'w, string, step_outcome) io" where
  "deny c os call reason =
     io_bind (record_lossy c os (ToolDenied (call_tool_name call) reason)) (\<lambda>_.
     io_lift (Ok \<lparr>so_call = call, so_decision = Denied reason\<rparr>))"

section \<open>Creating an orchestrator\<close>

text \<open>
  The two keys that minting draws (the root's and the token's next one) are drawn together.
\<close>

definition new_orchestrator ::
    "('kp, 'pk, 'b, 'tok) crates \<Rightarrow> ('w, 'kp) os \<Rightarrow> task_manifest \<Rightarrow> authz_mode \<Rightarrow> 'w
      \<Rightarrow> (orchestrator_error, 'tok orchestrator) res \<times> 'w" where
  "new_orchestrator c os m mode w =
     (case os_now os w of (now, w1) \<Rightarrow>
      case os_keypair os w1 of (keypair, w2) \<Rightarrow>
      case os_keypair os w2 of (next_key, w3) \<Rightarrow>
      case mint c (os_fs os w1) keypair next_key m now of
        Err e \<Rightarrow> (Err (Mint e), w3)
      | Panic \<Rightarrow> (Panic, w3)
      | Ok root \<Rightarrow>
          (case record_event c os (RootMinted (tm_task_id m))
                  (\<lparr>o_mode = mode, o_task_id = tm_task_id m, o_root = root, o_audit_log = [],
                    o_previous_hash = replicate 32 0\<rparr>, w3) of
             (Ok u, self, w4) \<Rightarrow> (Ok self, w4)
           | (Err e, self, w4) \<Rightarrow> (Err e, w4)
           | (Panic, self, w4) \<Rightarrow> (Panic, w4)))"

section \<open>Steps\<close>

definition step_bypassed ::
    "('kp, 'pk, 'b, 'tok) crates \<Rightarrow> ('w, 'kp) os \<Rightarrow> tool_call
      \<Rightarrow> ('tok orchestrator \<times> 'w, string, step_outcome) io" where
  "step_bypassed c os call s =
     (case s of (self, w) \<Rightarrow>
      case execute os call w of
        (Ok output, w1) \<Rightarrow>
          io_bind (record_lossy c os (ToolAllowed (call_tool_name call))) (\<lambda>_.
          io_lift (Ok \<lparr>so_call = call, so_decision = Allowed output\<rparr>)) (self, w1)
      | (Err e, w1) \<Rightarrow>
          io_bind (record_lossy c os
            (ToolDenied (call_tool_name call) (''execution error: '' @ show_tool_error e))) (\<lambda>_.
          io_lift (Ok \<lparr>so_call = call, so_decision = Errored (show_tool_error e)\<rparr>)) (self, w1)
      | (Panic, w1) \<Rightarrow> (Panic, self, w1))"

text \<open>The request for a child: the root's own scope, a short life, one invocation.\<close>

definition child_request :: "permission_set \<Rightarrow> request_binding \<Rightarrow> attenuation_request" where
  "child_request P binding =
     \<lparr>ar_readable_roots = readable_roots P, ar_writable_roots = writable_roots P,
      ar_exec_binaries = exec_binaries P, ar_network = network P,
      ar_ttl_seconds = CHILD_TTL_SECONDS, ar_request_binding = Some binding\<rparr>"

text \<open>What follows the attenuation: dispatch, and one audit entry for its outcome.\<close>

definition dispatch_step ::
    "('kp, 'pk, 'b, 'tok) crates \<Rightarrow> ('w, 'kp) os \<Rightarrow> tool_call \<Rightarrow> 'tok child_capability \<Rightarrow> uuid
      \<Rightarrow> ('tok orchestrator \<times> 'w, string, step_outcome) io" where
  "dispatch_step c os call child n s =
     (case s of (self, w) \<Rightarrow>
      case dispatch c os child call (Some n) w of
        (Ok output, w1) \<Rightarrow>
          io_bind (record_lossy c os (ToolAllowed (call_tool_name call))) (\<lambda>_.
          io_lift (Ok \<lparr>so_call = call, so_decision = Allowed output\<rparr>)) (self, w1)
      | (Err (DeniedError reason), w1) \<Rightarrow> deny c os call reason (self, w1)
      | (Err (Verification e), w1) \<Rightarrow> deny c os call (show_verification_error e) (self, w1)
      | (Err (Serialize e), w1) \<Rightarrow> deny c os call (''argument serialization failed: '' @ e) (self, w1)
      | (Err (Io e), w1) \<Rightarrow>
          io_bind (record_lossy c os
            (ToolDenied (call_tool_name call) (''execution error: '' @ e))) (\<lambda>_.
          io_lift (Ok \<lparr>so_call = call, so_decision = Errored e\<rparr>)) (self, w1)
      | (Panic, w1) \<Rightarrow> (Panic, self, w1))"

definition step_enforced ::
    "('kp, 'pk, 'b, 'tok) crates \<Rightarrow> ('w, 'kp) os \<Rightarrow> tool_call
      \<Rightarrow> ('tok orchestrator \<times> 'w, string, step_outcome) io" where
  "step_enforced c os call s =
     (case s of (self, w) \<Rightarrow>
      case os_now os w of (now, w1) \<Rightarrow>
      case os_uuid os w1 of (n, w2) \<Rightarrow>
      case request_binding_for c (to_request call) n of
        Err e \<Rightarrow> deny c os call (''request binding failed: '' @ e) (self, w2)
      | Panic \<Rightarrow> (Panic, self, w2)
      | Ok binding \<Rightarrow>
          (case os_keypair os w2 of (next_key, w3) \<Rightarrow>
           case root_attenuate c (os_fs os w2) next_key (o_root self)
                  (child_request (root_permissions (o_root self)) binding) now of
             Err e \<Rightarrow> deny c os call (''capability not mintable: '' @ show_capability_error e) (self, w3)
           | Panic \<Rightarrow> (Panic, self, w3)
           | Ok child \<Rightarrow>
               io_bind (record_lossy c os (CapabilityAttenuated (o_task_id self))) (\<lambda>_.
               dispatch_step c os call child n) (self, w3)))"

definition step ::
    "('kp, 'pk, 'b, 'tok) crates \<Rightarrow> ('w, 'kp) os \<Rightarrow> tool_call
      \<Rightarrow> ('tok orchestrator \<times> 'w, string, step_outcome) io" where
  "step c os call s =
     (case o_mode (fst s) of
        Enforced \<Rightarrow> step_enforced c os call s
      | Bypassed \<Rightarrow> step_bypassed c os call s)"

end
