(* ===== verification/Agent_Loop.thy ===== *)
theory Agent_Loop
  imports Agent
begin

text \<open>
  Principals and the agentic loop (\<open>Principal\<close>, \<open>ScriptedPrincipal\<close>, \<open>run_principal\<close> and
  \<open>run\<close> of \<open>agent/src/lib.rs\<close>).  A principal is untrusted: two functions on a state
  of an arbitrary type, which for a live model includes the remote end.  An \<open>anyhow::Error\<close> is
  represented by its text.
\<close>

section \<open>Principals\<close>

record 'p principal =
  pr_next_tool_calls :: "'p \<Rightarrow> (string, (tool_call \<times> string) list) res \<times> 'p"
  pr_add_tool_result :: "string \<Rightarrow> string \<Rightarrow> 'p \<Rightarrow> 'p"

record scripted_principal =
  sp_pending :: "tool_call list"
  sp_next_id :: nat

definition scripted_new :: "tool_call list \<Rightarrow> scripted_principal" where
  "scripted_new calls = \<lparr>sp_pending = calls, sp_next_id = 0\<rparr>"

definition turn_budget :: "scripted_principal \<Rightarrow> nat" where
  "turn_budget p = length (sp_pending p) + 1"

definition scripted_next_tool_calls ::
    "scripted_principal \<Rightarrow> (string, (tool_call \<times> string) list) res \<times> scripted_principal" where
  "scripted_next_tool_calls p =
     (case sp_pending p of
        call # rest \<Rightarrow>
          (Ok [(call, ''scripted-'' @ show_nat (sp_next_id p))],
           \<lparr>sp_pending = rest, sp_next_id = sp_next_id p + 1\<rparr>)
      | [] \<Rightarrow> (Ok [], p))"

definition scripted :: "scripted_principal principal" where
  "scripted = \<lparr>pr_next_tool_calls = scripted_next_tool_calls, pr_add_tool_result = (\<lambda>_ _ p. p)\<rparr>"

section \<open>The loop\<close>

record ('p, 'tok, 'w) run_state =
  rs_principal :: 'p
  rs_self :: "'tok orchestrator"
  rs_world :: 'w
  rs_outcomes :: "step_outcome list"

text \<open>One call: enforce it, feed the decision back, keep the outcome.\<close>

definition run_call ::
    "('kp, 'pk, 'b, 'tok) crates \<Rightarrow> ('w, 'kp) os \<Rightarrow> 'p principal \<Rightarrow> tool_call \<times> string
      \<Rightarrow> (('p, 'tok, 'w) run_state, string, unit) io" where
  "run_call c os pr cc st =
     (case cc of (call, call_id) \<Rightarrow>
      case step c os call (rs_self st, rs_world st) of
        (Ok outcome, self, w) \<Rightarrow>
          (Ok (), \<lparr>rs_principal =
                     pr_add_tool_result pr call_id (decision_feedback (so_decision outcome)) (rs_principal st),
                   rs_self = self, rs_world = w, rs_outcomes = rs_outcomes st @ [outcome]\<rparr>)
      | (Err e, self, w) \<Rightarrow> (Err e, st\<lparr>rs_self := self, rs_world := w\<rparr>)
      | (Panic, self, w) \<Rightarrow> (Panic, st\<lparr>rs_self := self, rs_world := w\<rparr>))"

fun run_calls ::
    "('kp, 'pk, 'b, 'tok) crates \<Rightarrow> ('w, 'kp) os \<Rightarrow> 'p principal \<Rightarrow> (tool_call \<times> string) list
      \<Rightarrow> (('p, 'tok, 'w) run_state, string, unit) io" where
  "run_calls c os pr [] st = (Ok (), st)"
| "run_calls c os pr (cc # rest) st = io_bind (run_call c os pr cc) (\<lambda>_. run_calls c os pr rest) st"

fun run_principal ::
    "('kp, 'pk, 'b, 'tok) crates \<Rightarrow> ('w, 'kp) os \<Rightarrow> 'p principal \<Rightarrow> nat
      \<Rightarrow> (('p, 'tok, 'w) run_state, string, unit) io" where
  "run_principal c os pr 0 st = (Ok (), st)"
| "run_principal c os pr (Suc turns) st =
     (case pr_next_tool_calls pr (rs_principal st) of
        (Ok calls, p) \<Rightarrow>
          (if calls = [] then (Ok (), st\<lparr>rs_principal := p\<rparr>)
           else io_bind (run_calls c os pr calls) (\<lambda>_. run_principal c os pr turns) (st\<lparr>rs_principal := p\<rparr>))
      | (Err e, p) \<Rightarrow> (Err e, st\<lparr>rs_principal := p\<rparr>)
      | (Panic, p) \<Rightarrow> (Panic, st\<lparr>rs_principal := p\<rparr>))"

text \<open>\<open>run\<close>: the \<open>expect\<close> turns an error of the loop into a panic.\<close>

definition run ::
    "('kp, 'pk, 'b, 'tok) crates \<Rightarrow> ('w, 'kp) os \<Rightarrow> tool_call list
      \<Rightarrow> ('tok orchestrator \<times> 'w, string, step_outcome list) io" where
  "run c os calls s =
     (let p = scripted_new calls in
      case run_principal c os scripted (turn_budget p)
             \<lparr>rs_principal = p, rs_self = fst s, rs_world = snd s, rs_outcomes = []\<rparr> of
        (Ok u, st) \<Rightarrow> (Ok (rs_outcomes st), rs_self st, rs_world st)
      | (Err e, st) \<Rightarrow> (Panic, rs_self st, rs_world st)
      | (Panic, st) \<Rightarrow> (Panic, rs_self st, rs_world st))"

end
