(* ===== verification/Wire.thy ===== *)
theory Wire
  imports Agent_Loop
begin

text \<open>
  What the agent reads and writes as JSON: the messages of the model's endpoint
  (\<open>agent/src/lib.rs\<close>), tool calls (\<open>tools/src/lib.rs\<close>) and manifests (\<open>manifest/src/lib.rs\<close>), with
  the \<open>Serialize\<close> and \<open>Deserialize\<close> their types derive.  A writer gives the value of the text; a reader
  works on the tree of a text, in which the fields of an object stand in the order of the text.
  Why a text is not accepted is not kept.
\<close>

section \<open>Messages\<close>

record raw_function_call =
  rf_name :: string
  rf_arguments :: string

record raw_tool_call =
  rt_type :: string
  rt_id :: string
  rt_function :: raw_function_call

record chat_message =
  cm_role :: string
  cm_content :: "string option"
  cm_tool_calls :: "raw_tool_call list option"
  cm_tool_call_id :: "string option"

record open_ai_function =
  of_name :: string
  of_description :: string
  of_parameters :: json

record open_ai_tool =
  ot_type :: string
  ot_function :: open_ai_function

record chat_request =
  cr_model :: string
  cr_messages :: "chat_message list"
  cr_tools :: "open_ai_tool list"
  cr_tool_choice :: string
  cr_temperature :: string
  cr_seed :: "u64 option"

record assistant_message =
  am_tool_calls :: "raw_tool_call list"
  am_content :: "string option"

record chat_choice =
  cc_message :: assistant_message

record chat_response =
  cp_choices :: "chat_choice list"

section \<open>Writing\<close>

text \<open>
  Fields in order; \<open>content\<close>, \<open>tool_calls\<close> and \<open>tool_call_id\<close> of a message are left out
  when they are \<open>None\<close>.  The temperature is a float, kept as its text.
\<close>

definition json_of_raw_tool_call :: "raw_tool_call \<Rightarrow> json" where
  "json_of_raw_tool_call rc =
     JObject [(''type'', JString (rt_type rc)), (''id'', JString (rt_id rc)),
       (''function'', JObject [(''name'', JString (rf_name (rt_function rc))),
                               (''arguments'', JString (rf_arguments (rt_function rc)))])]"

definition json_field :: "string \<Rightarrow> ('a \<Rightarrow> json) \<Rightarrow> 'a option \<Rightarrow> (string \<times> json) list" where
  "json_field name f v = (case v of None \<Rightarrow> [] | Some x \<Rightarrow> [(name, f x)])"

definition json_of_message :: "chat_message \<Rightarrow> json" where
  "json_of_message m =
     JObject ([(''role'', JString (cm_role m))]
       @ json_field ''content'' JString (cm_content m)
       @ json_field ''tool_calls'' (\<lambda>cs. JArray (map json_of_raw_tool_call cs)) (cm_tool_calls m)
       @ json_field ''tool_call_id'' JString (cm_tool_call_id m))"

definition json_of_tool :: "open_ai_tool \<Rightarrow> json" where
  "json_of_tool tool =
     JObject [(''type'', JString (ot_type tool)),
       (''function'', JObject [(''name'', JString (of_name (ot_function tool))),
          (''description'', JString (of_description (ot_function tool))),
          (''parameters'', of_parameters (ot_function tool))])]"

definition json_of_request :: "chat_request \<Rightarrow> json" where
  "json_of_request req =
     JObject [(''model'', JString (cr_model req)),
       (''messages'', JArray (map json_of_message (cr_messages req))),
       (''tools'', JArray (map json_of_tool (cr_tools req))),
       (''tool_choice'', JString (cr_tool_choice req)),
       (''temperature'', JNumber (Float (cr_temperature req))),
       (''seed'', case cr_seed req of None \<Rightarrow> JNull | Some s \<Rightarrow> JNumber (PosInt s))]"

text \<open>A path is written as a string if it is one; otherwise serialization fails.\<close>

definition json_of_path :: "path \<Rightarrow> json option" where
  "json_of_path p = (if utf8_valid p then Some (JString p) else None)"

primrec json_of_paths :: "path list \<Rightarrow> json list option" where
  "json_of_paths [] = Some []"
| "json_of_paths (p # ps) =
     Option.bind (json_of_path p) (\<lambda>j. map_option (Cons j) (json_of_paths ps))"

text \<open>An enum is an object with one field, named after the variant; a variant without data is its name.\<close>

definition json_of_call :: "tool_call \<Rightarrow> json option" where
  "json_of_call call =
     (case call of
        FsRead p \<Rightarrow>
          map_option (\<lambda>j. JObject [(''FsRead'', JObject [(''path'', j)])]) (json_of_path p)
      | FsWrite p contents \<Rightarrow>
          map_option (\<lambda>j. JObject [(''FsWrite'', JObject [(''path'', j), (''contents'', JString contents)])]) (json_of_path p)
      | ExecCall binary args \<Rightarrow>
          Some (JObject [(''Exec'', JObject [(''binary'', JString binary), (''args'', JArray (map JString args))])])
      | NetworkCall host port payload \<Rightarrow>
          Some (JObject [(''Network'', JObject [(''host'', JString host), (''port'', JNumber (PosInt (ucast port))),
            (''payload'', JString payload)])]))"

definition json_of_manifest :: "('kp, 'pk, 'b, 'tok) crates \<Rightarrow> task_manifest \<Rightarrow> json option" where
  "json_of_manifest c m =
     Option.bind (json_of_path (repo_root m)) (\<lambda>root.
     Option.bind (json_of_paths (fp_readable_roots (filesystem m))) (\<lambda>readable.
     Option.bind (json_of_paths (fp_writable_roots (filesystem m))) (\<lambda>writable.
     Some (JObject
       [(''task_id'', JString (uuid_to_string c (tm_task_id m))), (''repo_root'', root),
        (''ttl_seconds'', JNumber (PosInt (tm_ttl_seconds m))),
        (''filesystem'', JObject [(''readable_roots'', JArray readable), (''writable_roots'', JArray writable)]),
        (''exec'', JObject [(''allowed_binaries'', JArray (map JString (allowed_binaries (tm_exec m))))]),
        (''network'', case tm_network m of DenyAll \<Rightarrow> JString ''DenyAll'')]))))"

section \<open>Values\<close>

definition json_get :: "string \<Rightarrow> json \<Rightarrow> json option" where
  "json_get key v = (case v of JObject kvs \<Rightarrow> map_of kvs key | _ \<Rightarrow> None)"

definition json_as_str :: "json \<Rightarrow> string option" where
  "json_as_str v = (case v of JString s \<Rightarrow> Some s | _ \<Rightarrow> None)"

definition json_as_array :: "json \<Rightarrow> json list option" where
  "json_as_array v = (case v of JArray vs \<Rightarrow> Some vs | _ \<Rightarrow> None)"

definition json_as_u64 :: "json \<Rightarrow> u64 option" where
  "json_as_u64 v = (case v of JNumber (PosInt n) \<Rightarrow> Some n | _ \<Rightarrow> None)"

definition u16_try_from :: "u64 \<Rightarrow> u16 option" where
  "u16_try_from n = (if unat n < 2 ^ 16 then Some (word_of_nat (unat n)) else None)"

section \<open>Reading\<close>

text \<open>
  A struct is read from an object, whose unknown fields are skipped and whose known ones must not
  be repeated, or from an array of its fields in order.
\<close>

definition struct_fields :: "string list \<Rightarrow> json \<Rightarrow> (string \<times> json) list option" where
  "struct_fields names v =
     (case v of
        JObject kvs \<Rightarrow>
          (let known = filter (\<lambda>kv. fst kv \<in> set names) kvs in
           if distinct (map fst known) then Some known else None)
      | JArray vs \<Rightarrow> if length vs \<le> length names then Some (zip names vs) else None
      | _ \<Rightarrow> None)"

definition read_field :: "string \<Rightarrow> (json \<Rightarrow> 'a option) \<Rightarrow> (string \<times> json) list \<Rightarrow> 'a option" where
  "read_field name f kvs = Option.bind (map_of kvs name) f"

text \<open>\<open>#[serde(default)]\<close>: a value that is absent, and not one that is null.\<close>

definition read_default :: "string \<Rightarrow> 'a \<Rightarrow> (json \<Rightarrow> 'a option) \<Rightarrow> (string \<times> json) list \<Rightarrow> 'a option" where
  "read_default name x f kvs = (case map_of kvs name of None \<Rightarrow> Some x | Some v \<Rightarrow> f v)"

text \<open>An \<open>Option\<close> may be null, and absent from an object, but not from an array.\<close>

definition read_option ::
    "json \<Rightarrow> string \<Rightarrow> (json \<Rightarrow> 'a option) \<Rightarrow> (string \<times> json) list \<Rightarrow> 'a option option" where
  "read_option whole name f kvs =
     (case map_of kvs name of
        None \<Rightarrow> (case whole of JObject _ \<Rightarrow> Some None | _ \<Rightarrow> None)
      | Some v \<Rightarrow> if v = JNull then Some None else map_option Some (f v))"

primrec read_all :: "(json \<Rightarrow> 'a option) \<Rightarrow> json list \<Rightarrow> 'a list option" where
  "read_all f [] = Some []"
| "read_all f (v # vs) = Option.bind (f v) (\<lambda>x. map_option (Cons x) (read_all f vs))"

definition read_vec :: "(json \<Rightarrow> 'a option) \<Rightarrow> json \<Rightarrow> 'a list option" where
  "read_vec f v = Option.bind (json_as_array v) (read_all f)"

definition read_u16 :: "json \<Rightarrow> u16 option" where
  "read_u16 v = Option.bind (json_as_u64 v) u16_try_from"

subsection \<open>The answer of a model\<close>

definition default_tool_type :: string where
  "default_tool_type = ''function''"

definition read_raw_function_call :: "json \<Rightarrow> raw_function_call option" where
  "read_raw_function_call v =
     Option.bind (struct_fields [''name'', ''arguments''] v) (\<lambda>kvs.
     Option.bind (read_field ''name'' json_as_str kvs) (\<lambda>name.
     Option.bind (read_field ''arguments'' json_as_str kvs) (\<lambda>arguments.
     Some \<lparr>rf_name = name, rf_arguments = arguments\<rparr>)))"

definition read_raw_tool_call :: "json \<Rightarrow> raw_tool_call option" where
  "read_raw_tool_call v =
     Option.bind (struct_fields [''type'', ''id'', ''function''] v) (\<lambda>kvs.
     Option.bind (read_default ''type'' default_tool_type json_as_str kvs) (\<lambda>type.
     Option.bind (read_field ''id'' json_as_str kvs) (\<lambda>id.
     Option.bind (read_field ''function'' read_raw_function_call kvs) (\<lambda>function.
     Some \<lparr>rt_type = type, rt_id = id, rt_function = function\<rparr>))))"

definition read_assistant_message :: "json \<Rightarrow> assistant_message option" where
  "read_assistant_message v =
     Option.bind (struct_fields [''tool_calls'', ''content''] v) (\<lambda>kvs.
     Option.bind (read_default ''tool_calls'' [] (read_vec read_raw_tool_call) kvs) (\<lambda>tool_calls.
     Option.bind (read_option v ''content'' json_as_str kvs) (\<lambda>content.
     Some \<lparr>am_tool_calls = tool_calls, am_content = content\<rparr>)))"

definition read_chat_choice :: "json \<Rightarrow> chat_choice option" where
  "read_chat_choice v =
     Option.bind (struct_fields [''message''] v) (\<lambda>kvs.
     Option.bind (read_field ''message'' read_assistant_message kvs) (\<lambda>message.
     Some \<lparr>cc_message = message\<rparr>))"

definition read_chat_response :: "json \<Rightarrow> chat_response option" where
  "read_chat_response v =
     Option.bind (struct_fields [''choices''] v) (\<lambda>kvs.
     Option.bind (read_field ''choices'' (read_vec read_chat_choice) kvs) (\<lambda>choices.
     Some \<lparr>cp_choices = choices\<rparr>))"

subsection \<open>Tool calls\<close>

definition read_call_body :: "string \<Rightarrow> json \<Rightarrow> tool_call option" where
  "read_call_body tag body =
     (if tag = ''FsRead'' then
        Option.bind (struct_fields [''path''] body) (\<lambda>kvs.
        Option.bind (read_field ''path'' json_as_str kvs) (\<lambda>p. Some (FsRead p)))
      else if tag = ''FsWrite'' then
        Option.bind (struct_fields [''path'', ''contents''] body) (\<lambda>kvs.
        Option.bind (read_field ''path'' json_as_str kvs) (\<lambda>p.
        Option.bind (read_field ''contents'' json_as_str kvs) (\<lambda>contents. Some (FsWrite p contents))))
      else if tag = ''Exec'' then
        Option.bind (struct_fields [''binary'', ''args''] body) (\<lambda>kvs.
        Option.bind (read_field ''binary'' json_as_str kvs) (\<lambda>binary.
        Option.bind (read_field ''args'' (read_vec json_as_str) kvs) (\<lambda>args. Some (ExecCall binary args))))
      else if tag = ''Network'' then
        Option.bind (struct_fields [''host'', ''port'', ''payload''] body) (\<lambda>kvs.
        Option.bind (read_field ''host'' json_as_str kvs) (\<lambda>host.
        Option.bind (read_field ''port'' read_u16 kvs) (\<lambda>port.
        Option.bind (read_field ''payload'' json_as_str kvs) (\<lambda>payload. Some (NetworkCall host port payload)))))
      else None)"

definition read_call :: "json \<Rightarrow> tool_call option" where
  "read_call v = (case v of JObject [(tag, body)] \<Rightarrow> read_call_body tag body | _ \<Rightarrow> None)"

subsection \<open>Manifests\<close>

text \<open>A variant without data may also be written as an object that holds null.\<close>

definition read_network_policy :: "json \<Rightarrow> network_policy option" where
  "read_network_policy v =
     (if v = JString ''DenyAll'' \<or> v = JObject [(''DenyAll'', JNull)] then Some DenyAll else None)"

definition read_filesystem_policy :: "json \<Rightarrow> filesystem_policy option" where
  "read_filesystem_policy v =
     Option.bind (struct_fields [''readable_roots'', ''writable_roots''] v) (\<lambda>kvs.
     Option.bind (read_field ''readable_roots'' (read_vec json_as_str) kvs) (\<lambda>readable.
     Option.bind (read_field ''writable_roots'' (read_vec json_as_str) kvs) (\<lambda>writable.
     Some \<lparr>fp_readable_roots = readable, fp_writable_roots = writable\<rparr>)))"

definition read_exec_policy :: "json \<Rightarrow> exec_policy option" where
  "read_exec_policy v =
     Option.bind (struct_fields [''allowed_binaries''] v) (\<lambda>kvs.
     Option.bind (read_field ''allowed_binaries'' (read_vec json_as_str) kvs) (\<lambda>binaries.
     Some \<lparr>allowed_binaries = binaries\<rparr>))"

definition read_manifest :: "('kp, 'pk, 'b, 'tok) crates \<Rightarrow> json \<Rightarrow> task_manifest option" where
  "read_manifest c v =
     Option.bind (struct_fields [''task_id'', ''repo_root'', ''ttl_seconds'', ''filesystem'', ''exec'', ''network''] v) (\<lambda>kvs.
     Option.bind (read_field ''task_id'' (\<lambda>j. Option.bind (json_as_str j) (uuid_parse_str c)) kvs) (\<lambda>task_id.
     Option.bind (read_field ''repo_root'' json_as_str kvs) (\<lambda>root.
     Option.bind (read_field ''ttl_seconds'' json_as_u64 kvs) (\<lambda>ttl.
     Option.bind (read_field ''filesystem'' read_filesystem_policy kvs) (\<lambda>fs.
     Option.bind (read_field ''exec'' read_exec_policy kvs) (\<lambda>ex.
     Option.bind (read_field ''network'' read_network_policy kvs) (\<lambda>net.
     Some \<lparr>tm_task_id = task_id, repo_root = root, tm_ttl_seconds = ttl, filesystem = fs, tm_exec = ex,
           tm_network = net\<rparr>)))))))"

section \<open>Texts\<close>

text \<open>\<open>serde_json::from_str\<close>: \<open>tree\<close> parses the text; an error is the context the caller gives it.\<close>

definition from_text :: "(string \<Rightarrow> json option) \<Rightarrow> (json \<Rightarrow> 'a option) \<Rightarrow> string \<Rightarrow> (string, 'a) res" where
  "from_text tree reader text =
     (case Option.bind (tree text) reader of Some x \<Rightarrow> Ok x | None \<Rightarrow> Err ''invalid JSON'')"

end
