(* ===== verification/Agent_Facts.thy ===== *)
theory Agent_Facts
  imports Agent
begin

text \<open>
  What a step of the orchestrator does to the world and to the log.  \<open>draws\<close> relates worlds by
  readings of the clock and draws of randomness only; \<open>carried_out\<close> adds one execution of the
  call, behind a decision of the policy on the given permissions and before the given expiry;
  \<open>logged\<close> says which events a state change appended to the log.
\<close>

section \<open>Worlds\<close>

inductive draw :: "('w, 'kp) os \<Rightarrow> 'w \<Rightarrow> 'w \<Rightarrow> bool" for os where
  clock: "os_now os w = (t, w') \<Longrightarrow> draw os w w'"
| random: "os_uuid os w = (u, w') \<Longrightarrow> draw os w w'"
| new_key: "os_keypair os w = (k, w') \<Longrightarrow> draw os w w'"

inductive_cases drawE: "draw os w w'"

abbreviation draws :: "('w, 'kp) os \<Rightarrow> 'w \<Rightarrow> 'w \<Rightarrow> bool" where
  "draws os \<equiv> (draw os)\<^sup>*\<^sup>*"

lemmas draws_trans = rtranclp_trans [where r = "draw os" for os]

lemma draws_one [intro]:
  "os_now os w = (t, w') \<Longrightarrow> draws os w w'"
  "os_uuid os w = (u, w') \<Longrightarrow> draws os w w'"
  "os_keypair os w = (k, w') \<Longrightarrow> draws os w w'"
  by (auto intro: draw.intros)

definition carried_out ::
    "('w, 'kp) os \<Rightarrow> permission_set \<Rightarrow> datetime \<Rightarrow> tool_call \<Rightarrow> 'w
      \<Rightarrow> (tool_error, tool_output) res \<Rightarrow> 'w \<Rightarrow> bool" where
  "carried_out os P x call w r w' \<longleftrightarrow>
     (\<exists>w0 t w1 w2. draws os w w0 \<and> os_now os w0 = (t, w1) \<and> t < x
        \<and> decide (os_fs os w1) P (to_request call) = Allow
        \<and> execute os call w1 = (r, w2) \<and> draws os w2 w')"

lemma carried_out_draws:
  "draws os v w \<Longrightarrow> carried_out os P x call w r w' \<Longrightarrow> draws os w' w'' \<Longrightarrow> carried_out os P x call v r w''"
  unfolding carried_out_def by (meson draws_trans)

lemma carried_out_mono:
  "narrower Q P \<Longrightarrow> y \<le> x \<Longrightarrow> carried_out os Q y call w r w' \<Longrightarrow> carried_out os P x call w r w'"
  unfolding carried_out_def by (meson pdp.permits_mono order_less_le_trans)

section \<open>Logs\<close>

text \<open>The log verifies, and the running hash is that of its last entry.\<close>

definition orch_ok :: "('kp, 'pk, 'b, 'tok) crates \<Rightarrow> 'tok orchestrator \<Rightarrow> bool" where
  "orch_ok c self \<longleftrightarrow>
     verify_chain c (o_audit_log self) = Ok ()
   \<and> o_previous_hash self =
       (if o_audit_log self = [] then replicate 32 0 else ae_entry_hash (last (o_audit_log self)))"

definition logged ::
    "('kp, 'pk, 'b, 'tok) crates \<Rightarrow> audit_event list \<Rightarrow> 'tok orchestrator \<Rightarrow> 'tok orchestrator \<Rightarrow> bool" where
  "logged c evs self self' \<longleftrightarrow>
     o_mode self' = o_mode self \<and> o_task_id self' = o_task_id self \<and> o_root self' = o_root self
   \<and> (\<exists>es. o_audit_log self' = o_audit_log self @ es \<and> map ae_event es = evs)
   \<and> (orch_ok c self \<longrightarrow> orch_ok c self')"

lemma logged_refl [simp]: "logged c [] self self"
  by (simp add: logged_def)

lemma logged_trans: "logged c evs a b \<Longrightarrow> logged c evs' b d \<Longrightarrow> logged c (evs @ evs') a d"
  unfolding logged_def by auto

lemma logged_same:
  "logged c evs a b \<Longrightarrow> o_mode b = o_mode a \<and> o_task_id b = o_task_id a \<and> o_root b = o_root a"
  by (simp add: logged_def)

lemma record_event_spec:
  assumes "record_event c os ev (self, w) = (r, self', w')"
  shows "r = Ok () \<and> draws os w w' \<and> logged c [ev] self self'"
proof -
  obtain t w1 where t: "os_now os w = (t, w1)" by fastforce
  obtain i w2 where i: "os_uuid os w1 = (i, w2)" by fastforce
  obtain entry where e: "chain_entry c os (o_previous_hash self) t ev w1 = (Ok entry, w2)"
    by (simp add: chain_entry_eq i)
  with assms t have r: "r = Ok ()" "w' = w2"
      "self' = self\<lparr>o_previous_hash := ae_entry_hash entry, o_audit_log := o_audit_log self @ [entry]\<rparr>"
    by (simp_all add: record_event_def)
  have "draws os w w2" using t i by (meson draws_one draws_trans)
  moreover have "orch_ok c self \<longrightarrow> orch_ok c self'"
    using verify_chain_append [OF _ e] r by (auto simp: orch_ok_def)
  ultimately show ?thesis using r chain_entry_Ok [OF e] by (simp add: logged_def)
qed

lemma record_lossy_eq: "record_lossy c os ev s = (Ok (), snd (record_event c os ev s))"
  by (cases "record_event c os ev s"; cases s) (auto simp: record_lossy_def dest: record_event_spec)

text \<open>Recording and then returning an outcome, the last thing every branch of a step does.\<close>

lemma record_then:
  "io_bind (record_lossy c os ev) f s = f () (snd (record_event c os ev s))"
  by (simp add: io_bind_def record_lossy_eq)

lemma record_then_return:
  assumes "io_bind (record_lossy c os ev) (\<lambda>_. io_lift (Ok out)) (self, w) = (r, self', w')"
  shows "r = Ok out \<and> draws os w w' \<and> logged c [ev] self self'"
proof -
  from assms have "r = Ok out" "record_event c os ev (self, w) = (fst (record_event c os ev (self, w)), self', w')"
    by (simp_all add: record_then io_lift_def prod_eq_iff)
  with record_event_spec show ?thesis by metis
qed

lemma deny_spec:
  assumes "deny c os call reason (self, w) = (r, self', w')"
  shows "r = Ok \<lparr>so_call = call, so_decision = Denied reason\<rparr> \<and> draws os w w'
    \<and> logged c [ToolDenied (call_tool_name call) reason] self self'"
  using record_then_return [OF assms [unfolded deny_def]] by simp

section \<open>Steps\<close>

text \<open>
  What an outcome says of the call: a denial means that nothing was executed; anything else that
  the call was carried out once, with that result.
\<close>

definition explained ::
    "('w, 'kp) os \<Rightarrow> permission_set \<Rightarrow> datetime \<Rightarrow> tool_call \<Rightarrow> step_decision \<Rightarrow> 'w \<Rightarrow> 'w \<Rightarrow> bool" where
  "explained os P x call d w w' \<longleftrightarrow>
     (case d of
        Denied reason \<Rightarrow> draws os w w'
      | Allowed out \<Rightarrow> carried_out os P x call w (Ok out) w'
      | Errored e \<Rightarrow> carried_out os P x call w (Err (Io e)) w')"

text \<open>The last event a step logs for its outcome.\<close>

definition outcome_event :: "tool_call \<Rightarrow> step_decision \<Rightarrow> audit_event" where
  "outcome_event call d =
     (case d of
        Denied reason \<Rightarrow> ToolDenied (call_tool_name call) reason
      | Allowed out \<Rightarrow> ToolAllowed (call_tool_name call)
      | Errored e \<Rightarrow> ToolDenied (call_tool_name call) (''execution error: '' @ e))"

lemma explained_draws:
  "draws os v w \<Longrightarrow> explained os P x call d w w' \<Longrightarrow> explained os P x call d v w'"
  by (cases d) (auto simp: explained_def intro: draws_trans carried_out_draws)

lemma explained_mono:
  "narrower Q P \<Longrightarrow> y \<le> x \<Longrightarrow> explained os Q y call d w w' \<Longrightarrow> explained os P x call d w w'"
  by (cases d) (auto simp: explained_def intro: carried_out_mono)

lemma authorized_carried_out:
  assumes "authorize_only c os child (to_request call) n_opt w = (Ok u, w1)"
    and "execute os call w1 = (r, w2)" "draws os w2 w'"
  shows "carried_out os (child_permissions child) (child_expires_at child) call w r w'"
  using authorize_only_sound [OF assms(1)] assms(2,3) unfolding carried_out_def
  by (meson rtranclp.rtrancl_refl)

lemma authorize_only_draws: "authorize_only c os ch req n_opt w = (r, w') \<Longrightarrow> draws os w w'"
  by (auto dest!: authorize_only_world intro: draw.clock)

lemma dispatch_step_spec:
  assumes "dispatch_step c os call child n (self, w) = (Ok out, self', w')"
  shows "so_call out = call
    \<and> explained os (child_permissions child) (child_expires_at child) call (so_decision out) w w'
    \<and> logged c [outcome_event call (so_decision out)] self self'"
proof -
  obtain r w1 where d: "dispatch c os child call (Some n) w = (r, w1)" by fastforce
  show ?thesis
  proof (cases r)
    case (Ok done_out)
    with d assms have "io_bind (record_lossy c os (ToolAllowed (call_tool_name call)))
        (\<lambda>_. io_lift (Ok \<lparr>so_call = call, so_decision = Allowed done_out\<rparr>)) (self, w1) = (Ok out, self', w')"
      by (simp add: dispatch_step_def)
    from record_then_return [OF this] dispatch_cases [OF d] Ok show ?thesis
      by (auto simp: explained_def outcome_event_def intro: authorized_carried_out)
  next
    case Panic
    with d assms show ?thesis by (simp add: dispatch_step_def)
  next
    case (Err e)
    show ?thesis
    proof (cases "\<exists>s. e = Io s")
      case True
      then obtain s where s: "e = Io s" by blast
      with Err d assms have "io_bind (record_lossy c os
            (ToolDenied (call_tool_name call) (''execution error: '' @ s)))
          (\<lambda>_. io_lift (Ok \<lparr>so_call = call, so_decision = Errored s\<rparr>)) (self, w1) = (Ok out, self', w')"
        by (simp add: dispatch_step_def)
      from record_then_return [OF this] dispatch_cases [OF d] Err s show ?thesis
        by (auto simp: explained_def outcome_event_def
            dest: authorize_only_Err intro: authorized_carried_out)
    next
      case False
      with dispatch_cases [OF d] Err have "draws os w w1"
        by (auto dest: execute_Err authorize_only_draws)
      moreover from False Err d assms obtain reason where
        "deny c os call reason (self, w1) = (Ok out, self', w')"
        by (cases e) (auto simp: dispatch_step_def)
      ultimately show ?thesis
        using deny_spec by (fastforce simp: explained_def outcome_event_def intro: draws_trans)
    qed
  qed
qed

lemma dispatch_step_abort:
  assumes "dispatch_step c os call child n (self, w) = (r, self', w')" "\<not> is_ok r"
  shows "r = Panic \<and> self' = self
    \<and> (draws os w w' \<or> carried_out os (child_permissions child) (child_expires_at child) call w Panic w')"
proof -
  obtain q w1 where d: "dispatch c os child call (Some n) w = (q, w1)" by fastforce
  have records: "\<not> is_ok z \<Longrightarrow> io_bind (record_lossy c os ev) (\<lambda>_. io_lift (Ok y)) s \<noteq> (z, t)"
    for ev and y :: step_outcome and s z t
    by (auto simp: record_then)
  from assms d records have "q = Panic" "r = Panic \<and> self' = self \<and> w' = w1"
    by (cases q; auto simp: dispatch_step_def deny_def split: tool_error.splits)+
  with dispatch_cases [OF d] show ?thesis
    by (auto dest: authorize_only_draws intro: authorized_carried_out)
qed

text \<open>The child of a step carries the root's authority or less.\<close>

lemma child_within_root:
  "root_attenuate c fs k root r now = Ok child \<Longrightarrow>
    narrower (child_permissions child) (root_permissions root) \<and> child_expires_at child \<le> root_expires_at root"
  by (rule root_att.attenuate_narrows)

definition root_explained ::
    "('w, 'kp) os \<Rightarrow> 'tok orchestrator \<Rightarrow> tool_call \<Rightarrow> step_decision \<Rightarrow> 'w \<Rightarrow> 'w \<Rightarrow> bool" where
  "root_explained os self call d w w' \<longleftrightarrow>
     explained os (root_permissions (o_root self)) (root_expires_at (o_root self)) call d w w'"

text \<open>The two ways an enforced step goes, with the worlds in between named.\<close>

lemma step_enforced_cases:
  assumes "step_enforced c os call (self, w) = (r, self', w')"
  shows "(\<exists>reason v. draws os w v \<and> deny c os call reason (self, v) = (r, self', w'))
    \<or> (r = Panic \<and> self' = self \<and> draws os w w')
    \<or> (\<exists>fs k now n b child self1 v.
          request_binding_for c (to_request call) n = Ok b
        \<and> root_attenuate c fs k (o_root self) (child_request (root_permissions (o_root self)) b) now = Ok child
        \<and> draws os w v \<and> logged c [CapabilityAttenuated (o_task_id self)] self self1
        \<and> dispatch_step c os call child n (self1, v) = (r, self', w'))"
proof -
  obtain now w1 where t: "os_now os w = (now, w1)" by fastforce
  obtain n w2 where n: "os_uuid os w1 = (n, w2)" by fastforce
  obtain k w3 where k: "os_keypair os w2 = (k, w3)" by fastforce
  have d2: "draws os w w2" and d3: "draws os w w3" using t n k by (meson draws_one draws_trans)+
  show ?thesis
  proof (cases "request_binding_for c (to_request call) n")
    case Panic
    with assms t n d2 show ?thesis by (simp add: step_enforced_def)
  next
    case (Err e)
    with assms t n d2 show ?thesis by (auto simp: step_enforced_def)
  next
    case b: (Ok b)
    show ?thesis
    proof (cases "root_attenuate c (os_fs os w2) k (o_root self)
        (child_request (root_permissions (o_root self)) b) now")
      case Panic
      with assms t n b k d3 show ?thesis by (simp add: step_enforced_def)
    next
      case (Err e)
      with assms t n b k d3 show ?thesis by (auto simp: step_enforced_def)
    next
      case (Ok child)
      let ?ev = "CapabilityAttenuated (o_task_id self)"
      obtain q self1 v where rec: "record_event c os ?ev (self, w3) = (q, self1, v)" by (cases rule: prod_cases3)
      from assms t n b k Ok rec have "dispatch_step c os call child n (self1, v) = (r, self', w')"
        by (simp add: step_enforced_def record_then)
      moreover from record_event_spec [OF rec] d3
      have "draws os w v" "logged c [?ev] self self1" by (auto intro: draws_trans)
      ultimately show ?thesis using b Ok by blast
    qed
  qed
qed

lemma step_enforced_spec:
  assumes "step_enforced c os call (self, w) = (Ok out, self', w')"
  shows "so_call out = call \<and> root_explained os self call (so_decision out) w w'
    \<and> (logged c [CapabilityAttenuated (o_task_id self), outcome_event call (so_decision out)] self self'
       \<or> (\<exists>reason. so_decision out = Denied reason)
         \<and> logged c [outcome_event call (so_decision out)] self self')"
  using step_enforced_cases [OF assms]
proof (elim disjE exE conjE)
  fix reason v
  assume "draws os w v" "deny c os call reason (self, v) = (Ok out, self', w')"
  with deny_spec [OF this(2)] show ?thesis
    by (auto simp: root_explained_def explained_def outcome_event_def intro: draws_trans)
next
  fix fs k now n b child self1 v
  assume child: "root_attenuate c fs k (o_root self) (child_request (root_permissions (o_root self)) b) now = Ok child"
    and v: "draws os w v" "logged c [CapabilityAttenuated (o_task_id self)] self self1"
    and disp: "dispatch_step c os call child n (self1, v) = (Ok out, self', w')"
  note spec = dispatch_step_spec [OF disp] and within = child_within_root [OF child]
  have "root_explained os self call (so_decision out) w w'"
    unfolding root_explained_def
    by (rule explained_draws [OF v(1) explained_mono]) (use spec within in auto)
  moreover have "logged c ([CapabilityAttenuated (o_task_id self)] @ [outcome_event call (so_decision out)]) self self'"
    by (rule logged_trans [OF v(2)]) (use spec in blast)
  ultimately show ?thesis using spec by simp
qed simp

lemma step_enforced_abort:
  assumes "step_enforced c os call (self, w) = (r, self', w')" "\<not> is_ok r"
  shows "r = Panic \<and> (\<exists>evs. logged c evs self self')
    \<and> (draws os w w'
       \<or> carried_out os (root_permissions (o_root self)) (root_expires_at (o_root self)) call w Panic w')"
  using step_enforced_cases [OF assms(1)]
proof (elim disjE exE conjE)
  fix reason v
  assume "deny c os call reason (self, v) = (r, self', w')"
  from deny_spec [OF this] assms(2) show ?thesis by simp
next
  fix fs k now n b child self1 v
  assume child: "root_attenuate c fs k (o_root self) (child_request (root_permissions (o_root self)) b) now = Ok child"
    and v: "draws os w v" "logged c [CapabilityAttenuated (o_task_id self)] self self1"
    and disp: "dispatch_step c os call child n (self1, v) = (r, self', w')"
  note abort = dispatch_step_abort [OF disp assms(2)] and within = child_within_root [OF child]
  from abort consider "draws os v w'" |
    "carried_out os (child_permissions child) (child_expires_at child) call v Panic w'" by blast
  then have "draws os w w'
    \<or> carried_out os (root_permissions (o_root self)) (root_expires_at (o_root self)) call w Panic w'"
  proof cases
    case 1
    with v(1) show ?thesis by (auto intro: draws_trans)
  next
    case 2
    from carried_out_draws [OF v(1) 2 rtranclp.rtrancl_refl] within show ?thesis
      by (auto intro: carried_out_mono)
  qed
  with abort v(2) show ?thesis by auto
qed (use logged_refl in blast)

text \<open>The bypassed path: execute, then log what happened.\<close>

lemma step_bypassed_spec:
  assumes "step_bypassed c os call (self, w) = (Ok out, self', w')"
  shows "so_call out = call
    \<and> (\<exists>r w1. execute os call w = (r, w1) \<and> draws os w1 w'
        \<and> (case r of
             Ok res \<Rightarrow> so_decision out = Allowed res \<and> logged c [ToolAllowed (call_tool_name call)] self self'
           | Err e \<Rightarrow> so_decision out = Errored (show_tool_error e)
               \<and> logged c [ToolDenied (call_tool_name call) (''execution error: '' @ show_tool_error e)] self self'
           | Panic \<Rightarrow> False))"
proof -
  obtain r w1 where e: "execute os call w = (r, w1)" by fastforce
  show ?thesis
  proof (cases r)
    case (Ok res)
    with assms e have "io_bind (record_lossy c os (ToolAllowed (call_tool_name call)))
        (\<lambda>_. io_lift (Ok \<lparr>so_call = call, so_decision = Allowed res\<rparr>)) (self, w1) = (Ok out, self', w')"
      by (simp add: step_bypassed_def)
    from record_then_return [OF this] Ok e show ?thesis by auto
  next
    case (Err x)
    with assms e have "io_bind (record_lossy c os
          (ToolDenied (call_tool_name call) (''execution error: '' @ show_tool_error x)))
        (\<lambda>_. io_lift (Ok \<lparr>so_call = call, so_decision = Errored (show_tool_error x)\<rparr>)) (self, w1)
        = (Ok out, self', w')"
      by (simp add: step_bypassed_def)
    from record_then_return [OF this] Err e show ?thesis by auto
  qed (use assms e in \<open>simp add: step_bypassed_def\<close>)
qed

lemma step_never_Err: "step c os call s \<noteq> (Err e, s')"
proof (cases s)
  case (Pair self w)
  have "step_bypassed c os call (self, w) \<noteq> (Err e, s')"
    by (auto simp: step_bypassed_def record_then split: prod.splits res.splits)
  moreover have "step_enforced c os call (self, w) \<noteq> (Err e, s')"
    using step_enforced_abort [of c os call self w "Err e" "fst s'" "snd s'"] by auto
  ultimately show ?thesis by (simp add: Pair step_def split: authz_mode.split)
qed

end
