(* ===== verification/Loop_Facts.thy ===== *)
theory Loop_Facts
  imports Agent_Loop Agent_Facts
begin

text \<open>
  What whole runs guarantee, for any principal.  \<open>loop_relation\<close> carries a relation from single
  steps to the loop; it is interpreted for the log (\<open>history\<close>) and for the world
  (\<open>containment\<close>).  \<open>finite_principal\<close> is the contract of principals that finish by
  themselves; the scripted one meets it, so its runs never reach the \<open>expect\<close>.
\<close>

section \<open>Confined worlds\<close>

text \<open>
  The state machine of the world under enforcement: the orchestrator reads the clock, draws
  randomness, or performs a call that the policy allows on the given permissions at a time before
  the given expiry.
\<close>

inductive action :: "('w, 'kp) os \<Rightarrow> permission_set \<Rightarrow> datetime \<Rightarrow> 'w \<Rightarrow> 'w \<Rightarrow> bool" for os P x where
  observe: "draw os w w' \<Longrightarrow> action os P x w w'"
| perform: "os_now os w = (t, w1) \<Longrightarrow> t < x \<Longrightarrow> decide (os_fs os w1) P (to_request call) = Allow
    \<Longrightarrow> execute os call w1 = (r, w') \<Longrightarrow> action os P x w w'"

inductive_cases actionE: "action os P x w w'"

abbreviation confined :: "('w, 'kp) os \<Rightarrow> permission_set \<Rightarrow> datetime \<Rightarrow> 'w \<Rightarrow> 'w \<Rightarrow> bool" where
  "confined os P x \<equiv> (action os P x)\<^sup>*\<^sup>*"

lemma draws_confined: "draws os w w' \<Longrightarrow> confined os P x w w'"
  by (rule rtranclp_mono [THEN predicate2D]) (auto intro: action.observe)

lemma carried_out_confined: "carried_out os P x call w r w' \<Longrightarrow> confined os P x w w'"
  unfolding carried_out_def
  by (meson action.perform draws_confined r_into_rtranclp rtranclp_trans)

lemma explained_confined: "explained os P x call d w w' \<Longrightarrow> confined os P x w w'"
  by (cases d) (auto simp: explained_def intro: draws_confined carried_out_confined)

text \<open>An invariant of the world that authorized calls and draws keep holds throughout.\<close>

lemma confined_invariant:
  assumes "confined os P x w w'" "I w"
    and "\<And>v v'. I v \<Longrightarrow> draw os v v' \<Longrightarrow> I v'"
    and "\<And>v call r v'. I v \<Longrightarrow> decide (os_fs os v) P (to_request call) = Allow
      \<Longrightarrow> execute os call v = (r, v') \<Longrightarrow> I v'"
  shows "I w'"
  using assms(1,2)
proof (induction rule: rtranclp_induct)
  case (step v v')
  from step.hyps(2) show ?case
  proof (cases rule: action.cases)
    case observe
    with step assms(3) show ?thesis by blast
  next
    case (perform t w1 call r)
    from step perform(1) have "I w1" by (auto intro: assms(3) draw.clock)
    with perform assms(4) show ?thesis by blast
  qed
qed

section \<open>From steps to the loop\<close>

locale loop_relation =
  fixes c :: "('kp, 'pk, 'b, 'tok) crates" and os :: "('w, 'kp) os"
    and rel :: "'tok orchestrator \<times> 'w \<Rightarrow> 'tok orchestrator \<times> 'w \<Rightarrow> bool"
  assumes rel_refl: "rel s s"
    and rel_trans: "rel s t \<Longrightarrow> rel t u \<Longrightarrow> rel s u"
    and step_rel: "step c os call s = (r, s') \<Longrightarrow> rel s s'"
begin

lemma run_call_rel:
  "run_call c os pr cc st = (r, st') \<Longrightarrow> rel (rs_self st, rs_world st) (rs_self st', rs_world st')"
  by (auto simp: run_call_def split: prod.splits res.splits dest: step_rel)

lemma run_calls_rel:
  "run_calls c os pr ccs st = (r, st') \<Longrightarrow> rel (rs_self st, rs_world st) (rs_self st', rs_world st')"
proof (induction ccs arbitrary: st)
  case (Cons cc ccs)
  obtain q st1 where q: "run_call c os pr cc st = (q, st1)" by fastforce
  from Cons.prems q have "st' = st1 \<or> run_calls c os pr ccs st1 = (r, st')"
    by (cases q) (auto simp: io_bind_def)
  with Cons.IH run_call_rel [OF q] rel_trans show ?case by blast
qed (simp add: rel_refl)

lemma run_principal_rel:
  "run_principal c os pr n st = (r, st') \<Longrightarrow> rel (rs_self st, rs_world st) (rs_self st', rs_world st')"
proof (induction n arbitrary: st)
  case (Suc n)
  obtain q p where next_calls: "pr_next_tool_calls pr (rs_principal st) = (q, p)" by fastforce
  let ?st = "st\<lparr>rs_principal := p\<rparr>"
  show ?case
  proof (cases "\<exists>calls. q = Ok calls \<and> calls \<noteq> []")
    case True
    then obtain calls q' st1 where calls: "q = Ok calls" "calls \<noteq> []"
        and st1: "run_calls c os pr calls ?st = (q', st1)"
      by (metis surj_pair)
    from Suc.prems next_calls calls st1
    have "st' = st1 \<or> run_principal c os pr n st1 = (r, st')"
      by (cases q') (auto simp: io_bind_def)
    with Suc.IH run_calls_rel [OF st1] rel_trans show ?thesis by fastforce
  next
    case False
    with Suc.prems next_calls have "rs_self st' = rs_self st" "rs_world st' = rs_world st"
      by (cases q; auto)+
    then show ?thesis by (simp add: rel_refl)
  qed
qed (simp add: rel_refl)

lemma run_rel: "run c os calls s = (r, s') \<Longrightarrow> rel s s'"
  by (cases s) (auto simp: run_def Let_def split: prod.splits res.splits dest: run_principal_rel)

end

section \<open>The log and the world of a run\<close>

lemma step_logged: "step c os call (self, w) = (r, self', w') \<Longrightarrow> \<exists>evs. logged c evs self self'"
proof -
  assume s: "step c os call (self, w) = (r, self', w')"
  show ?thesis
  proof (cases "o_mode self")
    case Enforced
    with s have "step_enforced c os call (self, w) = (r, self', w')" by (simp add: step_def)
    then show ?thesis
      using step_enforced_spec [of c os call self w] step_enforced_abort [of c os call self w r]
      by (cases r) auto
  next
    case Bypassed
    with s have b: "step_bypassed c os call (self, w) = (r, self', w')" by (simp add: step_def)
    obtain q w1 where e: "execute os call w = (q, w1)" by fastforce
    show ?thesis
    proof (cases q)
      case Panic
      with b e have "self' = self" by (simp add: step_bypassed_def)
      then show ?thesis using logged_refl by blast
    qed (use b e record_then_return in \<open>fastforce simp: step_bypassed_def\<close>)+
  qed
qed

interpretation history: loop_relation c os "\<lambda>s s'. \<exists>evs. logged c evs (fst s) (fst s')" for c os
  by unfold_locales (auto intro: logged_refl dest: step_logged, blast dest: logged_trans)

definition contained :: "('w, 'kp) os \<Rightarrow> 'tok orchestrator \<times> 'w \<Rightarrow> 'tok orchestrator \<times> 'w \<Rightarrow> bool" where
  "contained os s s' \<longleftrightarrow>
     (o_mode (fst s) = Enforced \<longrightarrow>
        o_mode (fst s') = Enforced \<and> o_root (fst s') = o_root (fst s)
      \<and> confined os (root_permissions (o_root (fst s))) (root_expires_at (o_root (fst s))) (snd s) (snd s'))"

lemma step_contained: "step c os call s = (r, s') \<Longrightarrow> contained os s s'"
proof (cases "o_mode (fst s)")
  case Enforced
  assume "step c os call s = (r, s')"
  then have e: "step_enforced c os call (fst s, snd s) = (r, fst s', snd s')"
    using Enforced by (simp add: step_def)
  have "confined os (root_permissions (o_root (fst s))) (root_expires_at (o_root (fst s))) (snd s) (snd s')"
  proof (cases "is_ok r")
    case True
    then obtain out where "r = Ok out" by (auto simp: is_ok_iff)
    with e have "step_enforced c os call (fst s, snd s) = (Ok out, fst s', snd s')" by simp
    from step_enforced_spec [OF this] show ?thesis
      by (auto simp: root_explained_def intro: explained_confined)
  next
    case False
    with step_enforced_abort [OF e] show ?thesis
      by (auto intro: draws_confined carried_out_confined)
  qed
  moreover have "o_mode (fst s') = Enforced \<and> o_root (fst s') = o_root (fst s)"
    using step_logged [of c os call "fst s" "snd s" r "fst s'" "snd s'"] Enforced e
    by (auto simp: step_def dest!: logged_same)
  ultimately show ?thesis by (simp add: contained_def)
qed (simp add: contained_def)

interpretation containment: loop_relation c os "contained os" for c os
proof (unfold_locales, goal_cases)
  case (3 call s r s')
  then show ?case by (rule step_contained)
qed (auto simp: contained_def intro: rtranclp_trans)

section \<open>Outcomes and the log\<close>

text \<open>The events one outcome of an enforced step contributes.\<close>

definition outcome_events :: "uuid \<Rightarrow> step_outcome \<Rightarrow> audit_event list \<Rightarrow> bool" where
  "outcome_events task out evs \<longleftrightarrow>
     evs = [CapabilityAttenuated task, outcome_event (so_call out) (so_decision out)]
   \<or> (\<exists>reason. so_decision out = Denied reason) \<and> evs = [outcome_event (so_call out) (so_decision out)]"

text \<open>What a run has recorded of the calls it was given.\<close>

definition accounted ::
    "('kp, 'pk, 'b, 'tok) crates \<Rightarrow> tool_call list \<Rightarrow> ('p, 'tok, 'w) run_state
      \<Rightarrow> ('p, 'tok, 'w) run_state \<Rightarrow> bool" where
  "accounted c calls st st' \<longleftrightarrow>
     (\<exists>outs evss. rs_outcomes st' = rs_outcomes st @ outs \<and> map so_call outs = calls
        \<and> list_all2 (outcome_events (o_task_id (rs_self st))) outs evss
        \<and> logged c (concat evss) (rs_self st) (rs_self st'))"

lemma accounted_refl [simp]: "rs_outcomes st' = rs_outcomes st \<Longrightarrow> rs_self st' = rs_self st \<Longrightarrow> accounted c [] st st'"
  by (auto simp: accounted_def)

lemma accounted_trans:
  assumes "accounted c xs a b" "accounted c ys b d"
  shows "accounted c (xs @ ys) a d"
proof -
  obtain outs evss where x: "rs_outcomes b = rs_outcomes a @ outs" "map so_call outs = xs"
      "list_all2 (outcome_events (o_task_id (rs_self a))) outs evss" "logged c (concat evss) (rs_self a) (rs_self b)"
    using assms(1) by (auto simp: accounted_def)
  obtain outs' evss' where y: "rs_outcomes d = rs_outcomes b @ outs'" "map so_call outs' = ys"
      "list_all2 (outcome_events (o_task_id (rs_self b))) outs' evss'" "logged c (concat evss') (rs_self b) (rs_self d)"
    using assms(2) by (auto simp: accounted_def)
  have "rs_outcomes d = rs_outcomes a @ (outs @ outs')" "map so_call (outs @ outs') = xs @ ys"
      "list_all2 (outcome_events (o_task_id (rs_self a))) (outs @ outs') (evss @ evss')"
      "logged c (concat (evss @ evss')) (rs_self a) (rs_self d)"
    using x y logged_same [OF x(4)] logged_trans [OF x(4) y(4)] by (auto intro: list_all2_appendI)
  then show ?thesis unfolding accounted_def by blast
qed

lemma accounted_mode: "accounted c xs a b \<Longrightarrow> o_mode (rs_self b) = o_mode (rs_self a)"
  by (auto simp: accounted_def dest: logged_same)

lemma run_call_accounted:
  assumes "run_call c os pr (call, i) st = (Ok u, st')" "o_mode (rs_self st) = Enforced"
  shows "accounted c [call] st st'"
proof -
  obtain out self w where s: "step c os call (rs_self st, rs_world st) = (Ok out, self, w)"
      and st': "rs_self st' = self" "rs_outcomes st' = rs_outcomes st @ [out]"
    using assms(1) by (auto simp: run_call_def split: prod.splits res.splits)
  from s assms(2) have "step_enforced c os call (rs_self st, rs_world st) = (Ok out, self, w)"
    by (simp add: step_def)
  from step_enforced_spec [OF this] obtain evs where
    "so_call out = call" "outcome_events (o_task_id (rs_self st)) out evs" "logged c evs (rs_self st) self"
    by (auto simp: outcome_events_def)
  then have "map so_call [out] = [call]" "list_all2 (outcome_events (o_task_id (rs_self st))) [out] [evs]"
      "logged c (concat [evs]) (rs_self st) (rs_self st')"
    using st' by simp_all
  with st'(2) show ?thesis
    unfolding accounted_def by (intro exI [of _ "[out]"] exI [of _ "[evs]"] conjI)
qed

lemma run_calls_accounted:
  "run_calls c os pr ccs st = (Ok u, st') \<Longrightarrow> o_mode (rs_self st) = Enforced
    \<Longrightarrow> accounted c (map fst ccs) st st'"
proof (induction ccs arbitrary: st)
  case (Cons cc ccs)
  obtain call i where cc: "cc = (call, i)" by fastforce
  from Cons.prems obtain st1 where s: "run_call c os pr (call, i) st = (Ok (), st1)"
      "run_calls c os pr ccs st1 = (Ok u, st')"
    by (auto simp: cc res_split_rules)
  from run_call_accounted [OF s(1) Cons.prems(2)] have a: "accounted c [call] st st1" .
  with Cons.IH [OF s(2)] Cons.prems(2) accounted_mode have "accounted c (map fst ccs) st1 st'" by metis
  from accounted_trans [OF a this] show ?case by (simp add: cc)
qed simp

lemma run_principal_accounted:
  "run_principal c os pr n st = (Ok u, st') \<Longrightarrow> o_mode (rs_self st) = Enforced
    \<Longrightarrow> \<exists>calls. accounted c calls st st'"
proof (induction n arbitrary: st)
  case 0
  then show ?case using accounted_refl by auto
next
  case (Suc n)
  obtain q p where next_calls: "pr_next_tool_calls pr (rs_principal st) = (q, p)" by fastforce
  with Suc.prems obtain calls where q: "q = Ok calls" by (cases q) auto
  let ?st = "st\<lparr>rs_principal := p\<rparr>"
  have start: "accounted c [] st ?st" by simp
  show ?case
  proof (cases "calls = []")
    case True
    with Suc.prems next_calls q start show ?thesis by auto
  next
    case False
    with Suc.prems next_calls q obtain st1 where s: "run_calls c os pr calls ?st = (Ok (), st1)"
        "run_principal c os pr n st1 = (Ok u, st')"
      by (auto simp: res_split_rules)
    from run_calls_accounted [OF s(1)] Suc.prems(2) have a: "accounted c (map fst calls) ?st st1" by simp
    with accounted_mode Suc.prems(2) have "o_mode (rs_self st1) = Enforced" by fastforce
    from Suc.IH [OF s(2) this] accounted_trans [OF accounted_trans [OF start a]] show ?thesis by blast
  qed
qed

section \<open>Principals that finish\<close>

locale finite_principal =
  fixes pr :: "'p principal" and budget :: "'p \<Rightarrow> nat"
  assumes next_total: "\<exists>calls p'. pr_next_tool_calls pr p = (Ok calls, p') \<and> (calls = [] \<or> budget p' < budget p)"
    and add_budget: "budget (pr_add_tool_result pr i s p) = budget p"
begin

lemma run_call_budget:
  "run_call c os pr cc st = (r, st') \<Longrightarrow>
    budget (rs_principal st') = budget (rs_principal st) \<and> (\<forall>e. r \<noteq> Err e)"
  by (auto simp: run_call_def add_budget step_never_Err split: prod.splits res.splits)

lemma run_calls_budget:
  "run_calls c os pr ccs st = (r, st') \<Longrightarrow>
    budget (rs_principal st') = budget (rs_principal st) \<and> (\<forall>e. r \<noteq> Err e)"
proof (induction ccs arbitrary: st)
  case (Cons cc ccs)
  obtain q st1 where q: "run_call c os pr cc st = (q, st1)" by fastforce
  from run_call_budget [OF q] Cons.prems q Cons.IH [of st1] show ?case
    by (cases q) (auto simp: io_bind_def)
qed auto

lemma run_principal_never_Err: "run_principal c os pr n st \<noteq> (Err e, st')"
proof (induction n arbitrary: st)
  case (Suc n)
  obtain calls p' where nx: "pr_next_tool_calls pr (rs_principal st) = (Ok calls, p')"
    using next_total by blast
  obtain q st1 where q: "run_calls c os pr calls (st\<lparr>rs_principal := p'\<rparr>) = (q, st1)" by fastforce
  with nx Suc.IH run_calls_budget [OF q] show ?case by (cases q) (auto simp: io_bind_def)
qed simp

text \<open>Beyond the principal's budget the number of turns does not matter: the loop ended by itself.\<close>

lemma enough_turns:
  "budget (rs_principal st) < n \<Longrightarrow> budget (rs_principal st) < m
    \<Longrightarrow> run_principal c os pr n st = run_principal c os pr m st"
proof (induction n arbitrary: st m)
  case (Suc n)
  then obtain k where m: "m = Suc k" by (cases m) auto
  obtain calls p' where nx: "pr_next_tool_calls pr (rs_principal st) = (Ok calls, p')"
      "calls = [] \<or> budget p' < budget (rs_principal st)"
    using next_total by blast
  obtain q st1 where q: "run_calls c os pr calls (st\<lparr>rs_principal := p'\<rparr>) = (q, st1)" by fastforce
  from run_calls_budget [OF q] have "budget (rs_principal st1) = budget p'" by simp
  with nx Suc.prems m have "calls = [] \<or> run_principal c os pr n st1 = run_principal c os pr k st1"
    by (auto intro!: Suc.IH)
  with nx q m show ?case by (auto simp: io_bind_def split: res.split)
qed simp

end

lemma scripted_simps [simp]:
  "pr_next_tool_calls scripted = scripted_next_tool_calls" "pr_add_tool_result scripted i s p = p"
  by (simp_all add: scripted_def)

interpretation scripted: finite_principal scripted "\<lambda>p. length (sp_pending p)"
proof (unfold_locales, goal_cases)
  case (1 p)
  then show ?case by (cases "sp_pending p") (simp_all add: scripted_next_tool_calls_def)
qed simp

end
