(* ===== verification/Run_Facts.thy ===== *)
theory Run_Facts
  imports Loop_Facts
begin

text \<open>
  Scripted runs are refined by a plain fold of steps (\<open>step_all\<close>), so \<open>run\<close> performs each
  call once, in order, and cannot reach its \<open>expect\<close>; under enforcement no run depends on
  the network operations of the system.
\<close>

section \<open>Scripted runs\<close>

fun step_all ::
    "('kp, 'pk, 'b, 'tok) crates \<Rightarrow> ('w, 'kp) os \<Rightarrow> tool_call list
      \<Rightarrow> ('tok orchestrator \<times> 'w, string, step_outcome list) io" where
  "step_all c os [] s = (Ok [], s)"
| "step_all c os (call # calls) s =
     io_bind (step c os call) (\<lambda>out. io_bind (step_all c os calls) (\<lambda>outs. io_lift (Ok (out # outs)))) s"

lemma step_all_never_Err: "step_all c os calls s \<noteq> (Err e, s')"
  by (induction calls arbitrary: s) (auto simp: res_split_rules step_never_Err)

lemma step_all_calls: "step_all c os calls s = (Ok outs, s') \<Longrightarrow> length outs = length calls"
  by (induction calls arbitrary: s outs) (auto simp: res_split_rules)

text \<open>One turn of a scripted principal is one step.\<close>

lemma scripted_turn:
  assumes "step c os call (self, w) = (q, self1, w1)"
  shows "run_principal c os scripted (Suc n)
      \<lparr>rs_principal = \<lparr>sp_pending = call # calls, sp_next_id = i\<rparr>, rs_self = self, rs_world = w, rs_outcomes = outs\<rparr>
    = (case q of
         Ok out \<Rightarrow> run_principal c os scripted n
           \<lparr>rs_principal = \<lparr>sp_pending = calls, sp_next_id = i + 1\<rparr>, rs_self = self1, rs_world = w1,
            rs_outcomes = outs @ [out]\<rparr>
       | Err e \<Rightarrow> (Err e,
           \<lparr>rs_principal = \<lparr>sp_pending = calls, sp_next_id = i + 1\<rparr>, rs_self = self1, rs_world = w1,
            rs_outcomes = outs\<rparr>)
       | Panic \<Rightarrow> (Panic,
           \<lparr>rs_principal = \<lparr>sp_pending = calls, sp_next_id = i + 1\<rparr>, rs_self = self1, rs_world = w1,
            rs_outcomes = outs\<rparr>))"
  by (cases q) (simp_all add: scripted_next_tool_calls_def run_call_def io_bind_def assms)

text \<open>The simulation: the loop on a scripted principal and the fold go through the same states.\<close>

lemma run_principal_scripted:
  "step_all c os calls (self, w) = (r, self', w') \<Longrightarrow>
    \<exists>st'. run_principal c os scripted (Suc (length calls))
        \<lparr>rs_principal = \<lparr>sp_pending = calls, sp_next_id = i\<rparr>, rs_self = self, rs_world = w, rs_outcomes = outs\<rparr>
        = (if is_ok r then Ok () else Panic, st')
      \<and> rs_self st' = self' \<and> rs_world st' = w' \<and> (\<forall>xs. r = Ok xs \<longrightarrow> rs_outcomes st' = outs @ xs)"
proof (induction calls arbitrary: self w r self' w' i outs)
  case Nil
  then show ?case by (auto simp: scripted_next_tool_calls_def)
next
  case (Cons call calls)
  obtain q self1 w1 where s: "step c os call (self, w) = (q, self1, w1)" by (cases rule: prod_cases3)
  show ?case
  proof (cases q)
    case (Ok out)
    obtain q' self2 w2 where rest: "step_all c os calls (self1, w1) = (q', self2, w2)" by (cases rule: prod_cases3)
    from Cons.prems s Ok rest have r: "r = (case q' of Ok xs \<Rightarrow> Ok (out # xs) | Err e \<Rightarrow> Err e | Panic \<Rightarrow> Panic)"
        "self' = self2" "w' = w2"
      by (cases q'; auto simp: io_bind_def io_lift_def)+
    obtain st' where "run_principal c os scripted (Suc (length calls))
          \<lparr>rs_principal = \<lparr>sp_pending = calls, sp_next_id = i + 1\<rparr>, rs_self = self1, rs_world = w1,
           rs_outcomes = outs @ [out]\<rparr> = (if is_ok q' then Ok () else Panic, st')"
        "rs_self st' = self2" "rs_world st' = w2" "\<forall>xs. q' = Ok xs \<longrightarrow> rs_outcomes st' = (outs @ [out]) @ xs"
      using Cons.IH [OF rest] by blast
    with s Ok r show ?thesis
      by (intro exI [of _ st'])
        (cases q'; simp add: scripted_turn [OF s] del: run_principal.simps)
  next
    case (Err e)
    with s step_never_Err show ?thesis by metis
  next
    case Panic
    with Cons.prems s show ?thesis
      by (auto simp: scripted_turn [OF s] io_bind_def simp del: run_principal.simps)
  qed
qed

lemma run_step_all: "run c os calls s = step_all c os calls s"
proof (cases s)
  case (Pair self w)
  obtain r self' w' where s: "step_all c os calls (self, w) = (r, self', w')" by (cases rule: prod_cases3)
  then have "r \<noteq> Err e" for e using step_all_never_Err by metis
  with run_principal_scripted [OF s, of 0 "[]"] show ?thesis
    by (cases r) (auto simp: run_def Let_def scripted_new_def turn_budget_def Pair s
        simp del: run_principal.simps)
qed

section \<open>Isolation from the network\<close>

lemma record_event_network:
  "record_event c (os\<lparr>os_tcp_connect := f, os_tcp_write_all := g\<rparr>) ev = record_event c os ev"
  by (intro ext) (simp add: record_event_def chain_entry_def)

lemma record_lossy_network:
  "record_lossy c (os\<lparr>os_tcp_connect := f, os_tcp_write_all := g\<rparr>) ev = record_lossy c os ev"
  by (intro ext) (simp add: record_lossy_def record_event_network)

lemma authorize_only_network_ops:
  "authorize_only c (os\<lparr>os_tcp_connect := f, os_tcp_write_all := g\<rparr>) ch req n = authorize_only c os ch req n"
  by (simp add: authorize_only_def)

lemma execute_network_ops:
  "to_request call \<noteq> Network \<Longrightarrow>
    execute (os\<lparr>os_tcp_connect := f, os_tcp_write_all := g\<rparr>) call = execute os call"
  by (cases call) (simp_all add: execute_def)

lemma dispatch_network_ops:
  "dispatch c (os\<lparr>os_tcp_connect := f, os_tcp_write_all := g\<rparr>) ch call n w = dispatch c os ch call n w"
proof (cases "to_request call = Network")
  case True
  obtain r w1 where a: "authorize_only c os ch Network n w = (r, w1)" by fastforce
  with authorize_only_network [of c os ch n w] have "\<not> is_ok r" by (auto simp: is_ok_iff)
  with True a show ?thesis
    by (cases r) (simp_all add: dispatch_def io_bind_def authorize_only_network_ops)
qed (simp add: dispatch_def authorize_only_network_ops execute_network_ops)

lemma step_enforced_network_ops:
  "step_enforced c (os\<lparr>os_tcp_connect := f, os_tcp_write_all := g\<rparr>) call = step_enforced c os call"
proof -
  have "deny c (os\<lparr>os_tcp_connect := f, os_tcp_write_all := g\<rparr>) call reason = deny c os call reason" for reason
    by (simp add: deny_def record_lossy_network)
  moreover from this
  have "dispatch_step c (os\<lparr>os_tcp_connect := f, os_tcp_write_all := g\<rparr>) call child n s = dispatch_step c os call child n s"
    for child n s
    by (simp add: dispatch_step_def dispatch_network_ops record_lossy_network
        split: prod.split res.split tool_error.split)
  then have "dispatch_step c (os\<lparr>os_tcp_connect := f, os_tcp_write_all := g\<rparr>) call = dispatch_step c os call"
    by (intro ext)
  ultimately show ?thesis
    by (intro ext) (simp add: step_enforced_def record_lossy_network split: prod.split res.split)
qed

lemma run_calls_network_ops:
  "o_mode (rs_self st) = Enforced \<Longrightarrow>
    run_calls c (os\<lparr>os_tcp_connect := f, os_tcp_write_all := g\<rparr>) pr ccs st = run_calls c os pr ccs st"
proof (induction ccs arbitrary: st)
  case (Cons cc ccs)
  have same: "run_call c (os\<lparr>os_tcp_connect := f, os_tcp_write_all := g\<rparr>) pr cc st = run_call c os pr cc st"
    using Cons.prems by (simp add: run_call_def step_def step_enforced_network_ops)
  obtain q st1 where q: "run_call c os pr cc st = (q, st1)" by fastforce
  from containment.run_call_rel [OF q] Cons.prems have "o_mode (rs_self st1) = Enforced"
    by (simp add: contained_def)
  from Cons.IH [OF this] same q show ?case by (simp add: io_bind_def split: res.split)
qed simp

lemma run_principal_network_ops:
  "o_mode (rs_self st) = Enforced \<Longrightarrow>
    run_principal c (os\<lparr>os_tcp_connect := f, os_tcp_write_all := g\<rparr>) pr n st = run_principal c os pr n st"
proof (induction n arbitrary: st)
  case (Suc n)
  obtain q p where nx: "pr_next_tool_calls pr (rs_principal st) = (q, p)" by fastforce
  show ?case
  proof (cases q)
    case (Ok calls)
    let ?st = "st\<lparr>rs_principal := p\<rparr>"
    obtain r st1 where r: "run_calls c os pr calls ?st = (r, st1)" by fastforce
    from containment.run_calls_rel [OF r] Suc.prems have "o_mode (rs_self st1) = Enforced"
      by (simp add: contained_def)
    note IH = Suc.IH [OF this]
    have "run_calls c (os\<lparr>os_tcp_connect := f, os_tcp_write_all := g\<rparr>) pr calls ?st = (r, st1)"
      by (subst run_calls_network_ops) (use Suc.prems r in simp_all)
    with IH nx Ok r show ?thesis by (cases r) (simp_all add: io_bind_def)
  qed (simp_all add: nx)
qed simp

section \<open>A new orchestrator\<close>

lemma new_orchestrator_spec:
  assumes "new_orchestrator c os m mode w = (Ok self, w')"
  shows "draws os w w' \<and> o_mode self = mode \<and> o_task_id self = tm_task_id m
    \<and> map ae_event (o_audit_log self) = [RootMinted (tm_task_id m)] \<and> orch_ok c self
    \<and> (\<exists>fs kp nk now. mint c fs kp nk m now = Ok (o_root self))"
proof -
  obtain now w1 where t: "os_now os w = (now, w1)" by fastforce
  obtain kp w2 where k: "os_keypair os w1 = (kp, w2)" by fastforce
  obtain nk w3 where n: "os_keypair os w2 = (nk, w3)" by fastforce
  obtain root where root: "mint c (os_fs os w1) kp nk m now = Ok root"
    using assms t k n by (cases "mint c (os_fs os w1) kp nk m now") (simp_all add: new_orchestrator_def)
  let ?start = "\<lparr>o_mode = mode, o_task_id = tm_task_id m, o_root = root, o_audit_log = [],
    o_previous_hash = replicate 32 0\<rparr>"
  obtain r self1 w4 where rec: "record_event c os (RootMinted (tm_task_id m)) (?start, w3) = (r, self1, w4)"
    by (cases rule: prod_cases3)
  from record_event_spec [OF rec] have spec: "r = Ok ()" "draws os w3 w4"
      "logged c [RootMinted (tm_task_id m)] ?start self1"
    by blast+
  with assms t k n root rec have self: "self = self1" "w' = w4"
    by (simp_all add: new_orchestrator_def)
  have "draws os w w4" using t k n spec(2) by (meson draws_one draws_trans)
  moreover have "orch_ok c ?start" by (simp add: orch_ok_def verify_chain_def)
  ultimately show ?thesis using spec(3) self root by (auto simp: logged_def)
qed

text \<open>The authority a run is confined to is that of the manifest.\<close>

lemma minted_authority:
  "mint c fs kp nk m now = Ok root \<Longrightarrow>
    from_manifest fs m = Ok (root_permissions root)
    \<and> checked_expires_at c now (tm_ttl_seconds m) = Ok (root_expires_at root) \<and> validate m = Ok ()"
  by (auto simp: mint_Ok_iff)

section \<open>The bypassed path\<close>

text \<open>
  The two modes differ only in the check: a call that is carried out under enforcement gives the
  output that ambient authority gives in the same world.
\<close>

lemma enforced_output_is_ambient:
  assumes "step_enforced c os call (self, w) = (Ok out, self', w')" "so_decision out = Allowed res"
  shows "\<exists>w1. draws os w w1 \<and>
    (\<exists>out' self'' w''. step_bypassed c os call (self, w1) = (Ok out', self'', w'') \<and> so_decision out' = Allowed res)"
proof -
  from step_enforced_spec [OF assms(1)] assms(2)
  obtain w0 t w1 w2 where w: "draws os w w0" "os_now os w0 = (t, w1)" "execute os call w1 = (Ok res, w2)"
    by (auto simp: root_explained_def explained_def carried_out_def)
  then have "draws os w w1" by (meson draws_one draws_trans)
  moreover have "\<exists>out' self'' w''. step_bypassed c os call (self, w1) = (Ok out', self'', w'')
      \<and> so_decision out' = Allowed res"
  proof -
    obtain s where "snd (record_event c os (ToolAllowed (call_tool_name call)) (self, w2)) = s" by blast
    then show ?thesis by (cases s) (simp add: step_bypassed_def w(3) record_then)
  qed
  ultimately show ?thesis by blast
qed

section \<open>Feedback\<close>

lemma truncate_long:
  assumes "MAX_FEEDBACK_CHARS < chars_count s"
  shows "\<exists>head rest. s = head @ rest \<and> chars_count head = MAX_FEEDBACK_CHARS
    \<and> truncate_for_feedback s
      = head @ newline @ ''... (truncated; '' @ show_nat (length s) @ '' bytes total)''"
proof -
  obtain rest where "s = chars_take MAX_FEEDBACK_CHARS s @ rest"
    using chars_take_prefix by blast
  moreover have "chars_count (chars_take MAX_FEEDBACK_CHARS s) = MAX_FEEDBACK_CHARS"
    using assms by (simp add: chars_count_take)
  ultimately show ?thesis using assms by (auto simp: truncate_for_feedback_def)
qed

end
