(* ===== verification/Cli.thy ===== *)
theory Cli
  imports Live_Principal Run_Facts
begin

text \<open>
  The command line of the orchestrator (\<open>agent/src/main.rs\<close>) and the containment stub
  (\<open>sandbox/src/lib.rs\<close>).  What reads a manifest or a list of calls from a text is an argument of
  \<open>agent_main\<close>, which holds for any; \<open>Demo_Runs\<close> gives it the readers of \<open>Wire\<close>.  The output is the
  list of lines printed to standard output.
\<close>

section \<open>Printing\<close>

definition describe_output :: "tool_output \<Rightarrow> string" where
  "describe_output out =
     (case out of
        ReadOutput content \<Rightarrow> ''read '' @ show_nat (length content) @ '' bytes''
      | WriteOutput n \<Rightarrow> ''wrote '' @ show_nat n @ '' bytes''
      | ExecOutput status stdout stderr \<Rightarrow> ''exec status='' @ debug_status status
      | NetworkOutput n \<Rightarrow> ''sent '' @ show_nat n @ '' bytes'')"

text \<open>\<open>{:8}\<close>: at least eight columns, padded on the right.\<close>

definition pad8 :: "string \<Rightarrow> string" where
  "pad8 s = s @ replicate (8 - chars_count s) (CHR '' '')"

definition print_outcome :: "step_outcome \<Rightarrow> string" where
  "print_outcome outcome =
     (let (tag, detail) =
        (case so_decision outcome of
           Allowed out \<Rightarrow> (''ALLOW'', describe_output out)
         | Denied reason \<Rightarrow> (''DENY '', reason)
         | Errored reason \<Rightarrow> (''ERROR'', reason)) in
      ''['' @ tag @ ''] '' @ pad8 (call_tool_name (so_call outcome)) @ '' '' @ detail)"

definition show_mode :: "authz_mode \<Rightarrow> string" where
  "show_mode m = (case m of Enforced \<Rightarrow> ''Enforced'' | Bypassed \<Rightarrow> ''Bypassed'')"

definition audit_report :: "('kp, 'pk, 'b, 'tok) crates \<Rightarrow> 'tok orchestrator \<Rightarrow> string list" where
  "audit_report c self =
     (newline @ ''--- audit log ('' @ show_nat (length (o_audit_log self)) @ '' entries) ---'')
     # map (\<lambda>entry. show_event c (ae_event entry)) (o_audit_log self)"

section \<open>Main\<close>

record environment =
  env_authz :: "string option"
  env_base_url :: "string option"
  env_model :: "string option"
  env_api_key :: "string option"

datatype exit = Returned | Failed string | Exited int | Panicked

definition mode_of_env :: "environment \<Rightarrow> authz_mode" where
  "mode_of_env env = (case env_authz env of Some v \<Rightarrow> from_env_value v | None \<Rightarrow> Enforced)"

definition live_task :: "task_manifest \<Rightarrow> string" where
  "live_task m =
     ''You are a coding agent working in the repository at '' @ path_display (repo_root m)
     @ ''. Fix the failing test in this package. Start by exploring the files (there may be an ''
     @ ''AGENT_NOTE.md with additional instructions). Use absolute paths under the repository root.''"

text \<open>\<open>serde_json::from_str(&read_to_string(path).context(\<dots>)?).context(\<dots>)?\<close>.\<close>

definition load ::
    "('w, 'kp) os \<Rightarrow> (string \<Rightarrow> (string, 'a) res) \<Rightarrow> path \<Rightarrow> string \<Rightarrow> string \<Rightarrow> ('w, string, 'a) io" where
  "load os parse p reading parsing =
     io_bind (io_map_err (\<lambda>_. reading) (\<lambda>w. os_read_to_string os w p)) (\<lambda>text.
     io_lift (res_map_err (\<lambda>_. parsing) (parse text)))"

text \<open>The end of \<open>main\<close>: the outcomes, the audit log, then the error of the loop if any.\<close>

definition report ::
    "('kp, 'pk, 'b, 'tok) crates \<Rightarrow> step_outcome list \<Rightarrow> 'tok orchestrator \<Rightarrow> string list" where
  "report c outcomes self = map print_outcome outcomes @ audit_report c self"

definition run_scripted_feed ::
    "('kp, 'pk, 'b, 'tok) crates \<Rightarrow> ('w, 'kp) os \<Rightarrow> tool_call list \<Rightarrow> 'tok orchestrator \<Rightarrow> 'w
      \<Rightarrow> exit \<times> string list \<times> 'w" where
  "run_scripted_feed c os calls self w =
     (case run c os calls (self, w) of
        (Ok outcomes, self', w') \<Rightarrow> (Returned, report c outcomes self', w')
      | (_, self', w') \<Rightarrow> (Panicked, [], w'))"

definition run_live ::
    "('kp, 'pk, 'b, 'tok) crates \<Rightarrow> ('w, 'kp) os \<Rightarrow> 'r http \<Rightarrow> open_ai_principal_client \<Rightarrow> 'r
      \<Rightarrow> 'tok orchestrator \<Rightarrow> 'w \<Rightarrow> exit \<times> string list \<times> 'w" where
  "run_live c os h client r self w =
     (case run_principal c os (open_ai_principal c h) DEFAULT_MAX_TURNS
             \<lparr>rs_principal = (client, r), rs_self = self, rs_world = w, rs_outcomes = []\<rparr> of
        (Ok u, st) \<Rightarrow> (Returned, report c (rs_outcomes st) (rs_self st), rs_world st)
      | (Err e, st) \<Rightarrow> (Failed ''live principal loop failed'', report c (rs_outcomes st) (rs_self st), rs_world st)
      | (Panic, st) \<Rightarrow> (Panicked, [], rs_world st))"

text \<open>An explicit calls file selects the scripted path, whatever the environment holds.\<close>

definition run_feed ::
    "('kp, 'pk, 'b, 'tok) crates \<Rightarrow> ('w, 'kp) os \<Rightarrow> 'r http
      \<Rightarrow> (string \<Rightarrow> (string, tool_call list) res) \<Rightarrow> environment \<Rightarrow> string list \<Rightarrow> task_manifest
      \<Rightarrow> 'r \<Rightarrow> 'tok orchestrator \<Rightarrow> 'w \<Rightarrow> exit \<times> string list \<times> 'w" where
  "run_feed c os h parse_calls env args manifest r self w =
     (if length args \<ge> 3 then
        (case load os parse_calls (args ! 2) ''reading calls'' ''parsing calls json'' w of
           (Err e, w') \<Rightarrow> (Failed e, [], w')
         | (Panic, w') \<Rightarrow> (Panicked, [], w')
         | (Ok calls, w') \<Rightarrow> run_scripted_feed c os calls self w')
      else
        (case env_base_url env of
           Some base_url \<Rightarrow>
             run_live c os h
               (open_ai_new base_url (case env_model env of Some m \<Rightarrow> m | None \<Rightarrow> ''ds4-flash'')
                 (env_api_key env) (build_demo_initial_messages (live_task manifest)))
               r self w
         | None \<Rightarrow> (Exited 2, [], w)))"

definition agent_main ::
    "('kp, 'pk, 'b, 'tok) crates \<Rightarrow> ('w, 'kp) os \<Rightarrow> 'r http
      \<Rightarrow> (string \<Rightarrow> (string, task_manifest) res) \<Rightarrow> (string \<Rightarrow> (string, tool_call list) res)
      \<Rightarrow> environment \<Rightarrow> string list \<Rightarrow> 'r \<Rightarrow> 'w \<Rightarrow> exit \<times> string list \<times> 'w" where
  "agent_main c os h parse_manifest parse_calls env args r w =
     (if args = [] then (Panicked, [], w)
      else if length args < 2 then (Exited 2, [], w)
      else
        (case load os parse_manifest (args ! 1) ''reading manifest'' ''parsing manifest json'' w of
           (Err e, w1) \<Rightarrow> (Failed e, [], w1)
         | (Panic, w1) \<Rightarrow> (Panicked, [], w1)
         | (Ok manifest, w1) \<Rightarrow>
             (case new_orchestrator c os manifest (mode_of_env env) w1 of
                (Err e, w2) \<Rightarrow> (Failed (show_orchestrator_error e), [], w2)
              | (Panic, w2) \<Rightarrow> (Panicked, [], w2)
              | (Ok self, w2) \<Rightarrow>
                  (case run_feed c os h parse_calls env args manifest r self w2 of (ex, printed, w') \<Rightarrow>
                     (ex, (''AUTHZ = '' @ show_mode (o_mode self) @ newline) # printed, w')))))"

section \<open>The containment stub\<close>

datatype sandbox_error = Disabled | NotImplemented

primrec show_sandbox_error :: "sandbox_error \<Rightarrow> string" where
  "show_sandbox_error Disabled = ''linux containment is not enabled in this build''"
| "show_sandbox_error NotImplemented =
     ''linux containment is enabled at build time but not yet implemented (stub)''"

definition install_linux_containment :: "bool \<Rightarrow> (sandbox_error, unit) res" where
  "install_linux_containment feature_linux_containment =
     (if feature_linux_containment then Err NotImplemented else Err Disabled)"

end
