(* ===== verification/Cli_Facts.thy ===== *)
theory Cli_Facts
  imports Cli
begin

text \<open>
  What the command line guarantees: under enforcement the world is touched only by the two trusted
  reads of its arguments, by draws, and by calls the manifest's policy allows.
\<close>

definition trusted_read :: "('w, 'kp) os \<Rightarrow> path \<Rightarrow> 'w \<Rightarrow> 'w \<Rightarrow> bool" where
  "trusted_read os p w w' \<longleftrightarrow> (\<exists>r. os_read_to_string os w p = (r, w'))"

lemma load_reads: "load os parse p a b w = (r, w') \<Longrightarrow> trusted_read os p w w'"
  by (cases "os_read_to_string os w p")
    (auto simp: load_def io_bind_def io_map_err_def io_lift_def trusted_read_def split: res.splits)

lemma new_orchestrator_draws: "new_orchestrator c os m mode w = (r, w') \<Longrightarrow> draws os w w'"
proof -
  assume new: "new_orchestrator c os m mode w = (r, w')"
  obtain now w1 where t: "os_now os w = (now, w1)" by fastforce
  obtain kp w2 where k: "os_keypair os w1 = (kp, w2)" by fastforce
  obtain nk w3 where n: "os_keypair os w2 = (nk, w3)" by fastforce
  have d: "draws os w w3" using t k n by (meson draws_one draws_trans)
  show ?thesis
  proof (cases "mint c (os_fs os w1) kp nk m now")
    case (Ok root)
    let ?start = "\<lparr>o_mode = mode, o_task_id = tm_task_id m, o_root = root, o_audit_log = [],
      o_previous_hash = replicate 32 0\<rparr>"
    obtain q self1 w4 where rec: "record_event c os (RootMinted (tm_task_id m)) (?start, w3) = (q, self1, w4)"
      by (cases rule: prod_cases3)
    with record_event_spec [OF rec] new t k n Ok d show ?thesis
      by (auto simp: new_orchestrator_def intro: draws_trans)
  qed (use new t k n d in \<open>auto simp: new_orchestrator_def\<close>)
qed

lemma run_scripted_feed_contained:
  assumes "run_scripted_feed c os calls self w = (ex, out, w')" "o_mode self = Enforced"
  shows "confined os (root_permissions (o_root self)) (root_expires_at (o_root self)) w w'"
proof -
  obtain r self1 w1 where r: "run c os calls (self, w) = (r, self1, w1)" by (cases rule: prod_cases3)
  with assms(1) have "w' = w1" by (cases r) (simp_all add: run_scripted_feed_def)
  with containment.run_rel [OF r] assms(2) show ?thesis by (simp add: contained_def)
qed

lemma run_live_contained:
  assumes "run_live c os h client r self w = (ex, out, w')" "o_mode self = Enforced"
  shows "confined os (root_permissions (o_root self)) (root_expires_at (o_root self)) w w'"
proof -
  let ?st = "\<lparr>rs_principal = (client, r), rs_self = self, rs_world = w, rs_outcomes = []\<rparr>"
  obtain q st where q: "run_principal c os (open_ai_principal c h) DEFAULT_MAX_TURNS ?st = (q, st)"
    by fastforce
  with assms(1) have "w' = rs_world st" by (cases q) (simp_all add: run_live_def)
  with containment.run_principal_rel [OF q] assms(2) show ?thesis by (simp add: contained_def)
qed

lemma run_feed_contained:
  assumes run: "run_feed c os h parse_calls env args m r self w = (ex, out, w')"
    and mode: "o_mode self = Enforced"
  shows "\<exists>w1. (w1 = w \<or> trusted_read os (args ! 2) w w1)
    \<and> confined os (root_permissions (o_root self)) (root_expires_at (o_root self)) w1 w'"
proof (cases "length args \<ge> 3")
  case True
  obtain k w1 where k: "load os parse_calls (args ! 2) ''reading calls'' ''parsing calls json'' w = (k, w1)"
    by fastforce
  show ?thesis
  proof (cases k)
    case (Ok calls)
    with run True k have "run_scripted_feed c os calls self w1 = (ex, out, w')"
      by (simp add: run_feed_def)
    from run_scripted_feed_contained [OF this mode] load_reads [OF k] show ?thesis by blast
  qed (use run True k load_reads [OF k] in \<open>auto simp: run_feed_def\<close>)
next
  case False
  with run show ?thesis
    by (auto simp: run_feed_def split: option.splits dest: run_live_contained [OF _ mode])
qed

text \<open>The phases of a run of the program.\<close>

lemma agent_main_phases:
  assumes run: "agent_main c os h parse_manifest parse_calls env args r w = (ex, out, w')"
    and mode: "mode_of_env env = Enforced"
  shows "w' = w
    \<or> (\<exists>w1. trusted_read os (args ! 1) w w1 \<and> draws os w1 w')
    \<or> (\<exists>m self w1 w2 w3. trusted_read os (args ! 1) w w1
        \<and> new_orchestrator c os m Enforced w1 = (Ok self, w2)
        \<and> (w3 = w2 \<or> trusted_read os (args ! 2) w2 w3)
        \<and> confined os (root_permissions (o_root self)) (root_expires_at (o_root self)) w3 w')"
proof -
  obtain q w1 where l: "load os parse_manifest (args ! 1) ''reading manifest'' ''parsing manifest json'' w = (q, w1)"
    by fastforce
  note read = load_reads [OF l]
  consider "args = [] \<or> length args < 2" | "args \<noteq> []" "\<not> length args < 2" "\<nexists>m. q = Ok m"
    | m where "args \<noteq> []" "\<not> length args < 2" "q = Ok m"
    by fastforce
  then show ?thesis
  proof cases
    case 1
    with run have "w' = w" by (auto simp: agent_main_def split: if_splits)
    then show ?thesis by simp
  next
    case 2
    with run l have "w' = w1" by (cases q) (auto simp: agent_main_def)
    with read show ?thesis by blast
  next
    case (3 m)
    obtain n w2 where n: "new_orchestrator c os m Enforced w1 = (n, w2)" by fastforce
    note drawn = new_orchestrator_draws [OF n]
    show ?thesis
    proof (cases n)
      case (Ok self)
      note new = n [unfolded Ok]
      from new_orchestrator_spec [OF new] have enforced: "o_mode self = Enforced" by blast
      from run l 3 new mode obtain printed where
        feed: "run_feed c os h parse_calls env args m r self w2 = (ex, printed, w')"
        by (auto simp: agent_main_def split: prod.splits)
      from run_feed_contained [OF feed enforced] obtain w3 where "w3 = w2 \<or> trusted_read os (args ! 2) w2 w3"
          "confined os (root_permissions (o_root self)) (root_expires_at (o_root self)) w3 w'"
        by blast
      with read new show ?thesis by blast
    next
      case (Err e)
      with run l 3 n mode have "w' = w2" by (simp add: agent_main_def)
      with read drawn show ?thesis by blast
    next
      case Panic
      with run l 3 n mode have "w' = w2" by (simp add: agent_main_def)
      with read drawn show ?thesis by blast
    qed
  qed
qed

end
