(* ===== verification/Wire_Facts.thy ===== *)
theory Wire_Facts
  imports Wire
begin

text \<open>
  Readers invert writers: what the program writes as JSON it reads back, and the readers refuse
  what is not of their type.
\<close>

section \<open>Values\<close>

lemma json_as_simps [simp]:
  "json_as_str (JString s) = Some s" "json_as_str JNull = None" "json_as_array (JArray vs) = Some vs"
  "json_as_u64 (JNumber (PosInt n)) = Some n"
  by (simp_all add: json_as_str_def json_as_array_def json_as_u64_def)

lemma u16_try_from_ucast [simp]: "u16_try_from (ucast p) = Some p"
proof -
  have "unat p < 2 ^ 16" using unsigned_less [of p] by simp
  moreover have "unat (ucast p :: u64) = unat p"
    by (simp add: unsigned_ucast_eq take_bit_nat_eq_self less_trans [OF unsigned_less])
  ultimately show ?thesis by (simp add: u16_try_from_def)
qed

lemma u16_try_from_large: "2 ^ 16 \<le> unat n \<Longrightarrow> u16_try_from n = None"
  by (simp add: u16_try_from_def)

lemma read_u16_PosInt [simp]: "read_u16 (JNumber (PosInt n)) = u16_try_from n"
  by (simp add: read_u16_def)

lemma read_all_map [simp]: "(\<And>x. x \<in> set xs \<Longrightarrow> f (g x) = Some x) \<Longrightarrow> read_all f (map g xs) = Some xs"
  by (induction xs) simp_all

lemma read_vec_JArray [simp]: "read_vec f (JArray vs) = read_all f vs" "read_vec f JNull = None"
  by (simp_all add: read_vec_def json_as_array_def)

lemma read_vec_strings [simp]: "read_vec json_as_str (JArray (map JString ss)) = Some ss"
  by simp

section \<open>Formats\<close>

text \<open>A format is a writer that may refuse and a reader that inverts it; so do lists of its values.\<close>

locale wire_format =
  fixes enc :: "'a \<Rightarrow> json option" and dec :: "json \<Rightarrow> 'a option"
  assumes read_written: "enc x = Some j \<Longrightarrow> dec j = Some x"
begin

lemma enc_inj: "enc x = Some j \<Longrightarrow> enc y = Some j \<Longrightarrow> x = y"
  using read_written [of x j] read_written [of y j] by simp

lemma read_all_written: "list_all2 (\<lambda>x j. enc x = Some j) xs js \<Longrightarrow> read_all dec js = Some xs"
  by (induction rule: list_all2_induct) (simp_all add: read_written)

lemma read_vec_written: "list_all2 (\<lambda>x j. enc x = Some j) xs js \<Longrightarrow> read_vec dec (JArray js) = Some xs"
  by (simp add: read_vec_def read_all_written)

end

interpretation path_format: wire_format json_of_path json_as_str
  by unfold_locales (auto simp: json_of_path_def split: if_splits)

lemma json_of_paths_read: "json_of_paths ps = Some js \<Longrightarrow> read_all json_as_str js = Some ps"
proof (rule path_format.read_all_written)
  show "json_of_paths ps = Some js \<Longrightarrow> list_all2 (\<lambda>p j. json_of_path p = Some j) ps js"
    by (induction ps arbitrary: js) (auto simp: bind_eq_Some_conv)
qed

text \<open>The fields of an object that is written by the program.\<close>

lemma struct_fields_JObject [simp]:
  "struct_fields names (JObject kvs) =
    (let known = filter (\<lambda>kv. fst kv \<in> set names) kvs in if distinct (map fst known) then Some known else None)"
  by (simp add: struct_fields_def)

lemma read_field_Cons [simp]:
  "read_field name f ((key, v) # kvs) = (if key = name then f v else read_field name f kvs)"
  by (simp add: read_field_def)

lemma read_default_Cons [simp]:
  "read_default name x f ((key, v) # kvs) = (if key = name then f v else read_default name x f kvs)"
  "read_default name x f [] = Some x"
  by (simp_all add: read_default_def)

section \<open>Messages\<close>

lemma read_raw_tool_call [simp]: "read_raw_tool_call (json_of_raw_tool_call rc) = Some rc"
  by (simp add: read_raw_tool_call_def read_raw_function_call_def json_of_raw_tool_call_def Let_def)

lemma read_vec_raw_tool_calls [simp]:
  "read_vec read_raw_tool_call (JArray (map json_of_raw_tool_call rcs)) = Some rcs"
  by simp

interpretation raw_call_format: wire_format "\<lambda>rc. Some (json_of_raw_tool_call rc)" read_raw_tool_call
  by unfold_locales auto

text \<open>A call without a type is one of a function.\<close>

lemma read_untyped_tool_call:
  "read_raw_tool_call (JObject [(''id'', JString i), (''function'', JObject [(''name'', JString n),
     (''arguments'', JString a)])]) = Some \<lparr>rt_type = ''function'', rt_id = i, rt_function = \<lparr>rf_name = n, rf_arguments = a\<rparr>\<rparr>"
  by (simp add: read_raw_tool_call_def read_raw_function_call_def default_tool_type_def Let_def)

text \<open>A null content is none; calls that are null are not accepted, although absent ones are.\<close>

lemma read_assistant_shapes:
  "read_assistant_message (JObject []) = Some \<lparr>am_tool_calls = [], am_content = None\<rparr>"
  "read_assistant_message (JObject [(''content'', JNull)]) = Some \<lparr>am_tool_calls = [], am_content = None\<rparr>"
  "read_assistant_message (JObject [(''tool_calls'', JNull)]) = None"
  by (simp_all add: read_assistant_message_def read_option_def Let_def)

section \<open>Calls and manifests\<close>

interpretation call_format: wire_format json_of_call read_call
proof
  show "read_call j = Some call" if "json_of_call call = Some j" for call j
    using that by (cases call)
      (auto simp: json_of_call_def read_call_def read_call_body_def Let_def dest!: path_format.read_written)
qed

lemma json_of_call_utf8:
  "json_of_call call = None \<longleftrightarrow> (case call of FsRead p \<Rightarrow> \<not> utf8_valid p | FsWrite p t \<Rightarrow> \<not> utf8_valid p | _ \<Rightarrow> False)"
  by (cases call) (simp_all add: json_of_call_def json_of_path_def)

lemma json_of_paths_utf8: "json_of_paths ps = None \<longleftrightarrow> \<not> list_all utf8_valid ps"
  by (induction ps) (auto simp: json_of_path_def)

lemma json_of_manifest_utf8:
  "json_of_manifest c m = None \<longleftrightarrow>
    \<not> list_all utf8_valid (repo_root m # fp_readable_roots (filesystem m) @ fp_writable_roots (filesystem m))"
  by (cases "json_of_paths (fp_readable_roots (filesystem m))"; cases "json_of_paths (fp_writable_roots (filesystem m))")
    (auto simp: json_of_manifest_def json_of_path_def json_of_paths_utf8 [symmetric] simp flip: json_of_paths_utf8)

lemma read_network_port:
  "2 ^ 16 \<le> unat n \<Longrightarrow> read_call (JObject [(''Network'', JObject [(''host'', h), (''port'', JNumber (PosInt n)),
     (''payload'', p)])]) = None"
  by (simp add: read_call_def read_call_body_def Let_def u16_try_from_large split: bind_splits)

lemma read_manifest_of_json:
  assumes "uuid_laws c" "json_of_manifest c m = Some j"
  shows "read_manifest c j = Some m"
proof -
  obtain root readable writable where w: "json_of_path (repo_root m) = Some root"
      "json_of_paths (fp_readable_roots (filesystem m)) = Some readable"
      "json_of_paths (fp_writable_roots (filesystem m)) = Some writable"
    using assms(2) by (auto simp: json_of_manifest_def bind_eq_Some_conv)
  note reads = path_format.read_written [OF w(1)] json_of_paths_read [OF w(2)] json_of_paths_read [OF w(3)]
  have "tm_network m = DenyAll" by (cases "tm_network m") simp
  moreover have "uuid_parse_str c (uuid_to_string c u) = Some u" for u using assms(1) by (simp add: uuid_laws_def)
  ultimately show ?thesis using assms(2) w reads
    by (auto simp: json_of_manifest_def read_manifest_def read_filesystem_policy_def read_exec_policy_def
        read_network_policy_def Let_def)
qed

lemma manifest_format: "uuid_laws c \<Longrightarrow> wire_format (json_of_manifest c) (read_manifest c)"
  by unfold_locales (rule read_manifest_of_json)

end
