(* ===== verification/Live_Facts.thy ===== *)
theory Live_Facts
  imports Live_Principal Wire_Facts Loop_Facts "HOL-Library.Multiset"
begin

text \<open>
  What holds of the live principal: its conversation never leaves a tool call unanswered (contract
  \<open>conversing_principal\<close>), it queries the endpoint a bounded number of times per turn, and its
  parser of raw calls inverts the encoding the tool schema asks for.
\<close>

section \<open>Conversations\<close>

definition asked :: "chat_message \<Rightarrow> string multiset" where
  "asked m = (case cm_tool_calls m of None \<Rightarrow> {#} | Some cs \<Rightarrow> mset (map rt_id cs))"

definition answered :: "chat_message \<Rightarrow> string multiset" where
  "answered m = (case cm_tool_call_id m of None \<Rightarrow> {#} | Some i \<Rightarrow> {#i#})"

text \<open>The tool calls of a conversation that no later message has answered.\<close>

definition open_ids :: "chat_message list \<Rightarrow> string multiset" where
  "open_ids ms = foldl (\<lambda>acc m. acc + asked m - answered m) {#} ms"

lemma open_ids_snoc [simp]: "open_ids (ms @ [m]) = open_ids ms + asked m - answered m"
  by (simp add: open_ids_def)

lemma open_ids_add_tool_result [simp]:
  "open_ids (oc_messages (add_tool_result i s self)) = open_ids (oc_messages self) - {#i#}"
  by (simp add: add_tool_result_def push_message_def asked_def answered_def)

section \<open>The contract of conversing principals\<close>

locale conversing_principal =
  fixes pr :: "'p principal" and pending :: "'p \<Rightarrow> string multiset"
  assumes next_pending: "pending p = {#} \<Longrightarrow> pr_next_tool_calls pr p = (Ok calls, p') \<Longrightarrow>
      pending p' = mset (map snd calls)"
    and next_error: "pending p = {#} \<Longrightarrow> pr_next_tool_calls pr p = (Err e, p') \<Longrightarrow> pending p' = {#}"
    and add_pending: "pending (pr_add_tool_result pr i s p) = pending p - {#i#}"
begin

lemma run_calls_pending:
  "run_calls c os pr ccs st = (Ok u, st') \<Longrightarrow>
    pending (rs_principal st') = pending (rs_principal st) - mset (map snd ccs)"
proof (induction ccs arbitrary: st)
  case (Cons cc ccs)
  from Cons.prems obtain st1 where s: "run_call c os pr cc st = (Ok (), st1)" "run_calls c os pr ccs st1 = (Ok u, st')"
    by (auto simp: res_split_rules)
  from s(1) have "pending (rs_principal st1) = pending (rs_principal st) - {#snd cc#}"
    by (auto simp: run_call_def add_pending split: prod.splits res.splits)
  with Cons.IH [OF s(2)] show ?case by simp
qed simp

lemma run_calls_no_Err: "run_calls c os pr ccs st \<noteq> (Err e, st')"
  by (induction ccs arbitrary: st)
    (auto simp: res_split_rules run_call_def step_never_Err split: prod.splits res.splits)

lemma run_principal_pending:
  "run_principal c os pr n st = (r, st') \<Longrightarrow> r \<noteq> Panic \<Longrightarrow> pending (rs_principal st) = {#}
    \<Longrightarrow> pending (rs_principal st') = {#}"
proof (induction n arbitrary: st)
  case (Suc n)
  obtain q p where nx: "pr_next_tool_calls pr (rs_principal st) = (q, p)" by fastforce
  let ?st = "st\<lparr>rs_principal := p\<rparr>"
  show ?case
  proof (cases q)
    case (Ok calls)
    with nx Suc.prems next_pending have p: "pending p = mset (map snd calls)" by blast
    show ?thesis
    proof (cases "calls = []")
      case False
      obtain q' st1 where r: "run_calls c os pr calls ?st = (q', st1)" by fastforce
      with Suc.prems nx Ok False run_calls_no_Err [of c os calls ?st] obtain "q' = Ok ()" "run_principal c os pr n st1 = (r, st')"
        by (cases q') (auto simp: io_bind_def)
      with Suc.IH Suc.prems(2) run_calls_pending r p show ?thesis by fastforce
    qed (use Suc.prems nx Ok p in auto)
  next
    case (Err e)
    with nx Suc.prems next_error show ?thesis by auto
  next
    case Panic
    with nx Suc.prems show ?thesis by auto
  qed
qed simp

end

section \<open>The live client converses\<close>

lemma ingest_calls_open:
  "ingest_calls c raws acc self = (calls, self') \<Longrightarrow>
   open_ids (oc_messages self) = X + mset (map snd acc) + mset (map rt_id raws) \<Longrightarrow>
     open_ids (oc_messages self') = X + mset (map snd calls)"
  by (induction c raws acc self arbitrary: X rule: ingest_calls.induct)
    (fastforce split: option.splits)+

lemma ingest_calls_fields:
  "ingest_calls c raws acc self = (calls, self') \<Longrightarrow>
    calls = acc @ List.map_filter
      (\<lambda>raw. map_option (\<lambda>call. (call, rt_id raw)) (parse_raw_tool_call c (rt_function raw))) raws"
  by (induction c raws acc self rule: ingest_calls.induct)
    (auto simp: List.map_filter_def split: option.splits)

lemma classify_open:
  assumes "classify_assistant c a self = (out, self')" "open_ids (oc_messages self) = {#}"
  shows "open_ids (oc_messages self') = (case out of Calls calls \<Rightarrow> mset (map snd calls) | _ \<Rightarrow> {#})"
proof -
  obtain calls where i: "ingest_assistant c a self = (calls, self')"
      and out: "out = (if calls \<noteq> [] then Calls calls
        else if am_tool_calls a \<noteq> [] then RetryAfterUnparseable else Done)"
    using assms(1) by (auto simp: classify_assistant_def split: prod.splits)
  have "open_ids (oc_messages self') = {#} + mset (map snd calls)"
    using i assms(2) unfolding ingest_assistant_def
    by (intro ingest_calls_open) (auto simp: push_message_def asked_def answered_def)
  with out show ?thesis by auto
qed

lemma query_loop_open:
  "query_loop c h n (self, r) = (q, self', r') \<Longrightarrow> open_ids (oc_messages self) = {#} \<Longrightarrow>
    open_ids (oc_messages self') = (case q of Ok calls \<Rightarrow> mset (map snd calls) | _ \<Rightarrow> {#})"
proof (induction n arbitrary: self r)
  case (Suc n)
  obtain a r1 where p: "post_chat h (oc_base_url self) (oc_model self) (oc_api_key self) (oc_messages self) r = (a, r1)"
    by fastforce
  show ?case
  proof (cases a)
    case (Ok m)
    obtain out self1 where cl: "classify_assistant c m self = (out, self1)" by fastforce
    from classify_open [OF cl Suc.prems(2)] Suc.prems Suc.IH [of self1 r1] Ok p cl
    show ?thesis by (cases out) auto
  qed (use Suc.prems p in auto)
qed auto

interpretation live: conversing_principal "open_ai_principal c h" "\<lambda>(self, r). open_ids (oc_messages self)" for c h
proof (unfold_locales, goal_cases)
  case (1 p calls p')
  then show ?case
    by (cases p; cases p') (auto simp: open_ai_principal_def dest: query_loop_open)
next
  case (2 p e p')
  then show ?case
    by (cases p; cases p') (auto simp: open_ai_principal_def dest: query_loop_open)
qed (auto simp: open_ai_principal_def)

section \<open>Bounded querying\<close>

text \<open>\<open>f\<close> is any count that one request raises by at most one.\<close>

lemma post_chat_count:
  assumes "\<And>url hs body r q r'. http_send h url hs body r = (q, r') \<Longrightarrow> f r' \<le> Suc (f r)"
  shows "post_chat h b m k ms r = (q, r') \<Longrightarrow> f r' \<le> Suc (f r)"
  using assms
  by (cases "http_build h"; cases "http_send h (chat_url b) (chat_headers k) (json_of_request (chat_request_for m ms)) r")
    (fastforce simp: post_chat_def io_bind_def io_lift_def split: res.splits if_splits prod.splits)+

lemma query_loop_count:
  assumes "\<And>url hs body r q r'. http_send h url hs body r = (q, r') \<Longrightarrow> f r' \<le> Suc (f r)"
  shows "query_loop c h n (self, r) = (q, self', r') \<Longrightarrow> f r' \<le> f r + n"
proof (induction n arbitrary: self r)
  case (Suc n)
  obtain a r1 where p: "post_chat h (oc_base_url self) (oc_model self) (oc_api_key self) (oc_messages self) r = (a, r1)"
    by fastforce
  from post_chat_count [of h f, OF assms p] have le: "f r1 \<le> Suc (f r)" by simp
  show ?case
  proof (cases a)
    case (Ok m)
    obtain out self1 where cl: "classify_assistant c m self = (out, self1)" by fastforce
    from Suc.prems Suc.IH [of self1 r1] Ok p cl le show ?thesis by (cases out) auto
  qed (use Suc.prems p le in auto)
qed simp

text \<open>Executing calls sends nothing to the endpoint, so a run sends a bounded number of requests.\<close>

lemma run_call_remote:
  "run_call c os (open_ai_principal c h) cc st = (q, st') \<Longrightarrow> snd (rs_principal st') = snd (rs_principal st)"
  by (auto simp: run_call_def open_ai_principal_def split: prod.splits res.splits)

lemma run_calls_remote:
  "run_calls c os (open_ai_principal c h) ccs st = (q, st') \<Longrightarrow> snd (rs_principal st') = snd (rs_principal st)"
proof (induction ccs arbitrary: st)
  case (Cons cc ccs)
  obtain p st1 where p: "run_call c os (open_ai_principal c h) cc st = (p, st1)" by fastforce
  with Cons run_call_remote [OF p] show ?case by (cases p) (auto simp: io_bind_def)
qed simp

lemma run_principal_count:
  assumes "\<And>url hs body r q r'. http_send h url hs body r = (q, r') \<Longrightarrow> f r' \<le> Suc (f r)"
  shows "run_principal c os (open_ai_principal c h) n st = (q, st') \<Longrightarrow>
    f (snd (rs_principal st')) \<le> f (snd (rs_principal st)) + n * MAX_UNPARSEABLE_RETRIES"
proof (induction n arbitrary: st)
  case (Suc n)
  let ?pr = "open_ai_principal c h"
  obtain a client r1 where nx: "pr_next_tool_calls ?pr (rs_principal st) = (a, client, r1)" by (cases rule: prod_cases3)
  then have "query_loop c h MAX_UNPARSEABLE_RETRIES (fst (rs_principal st), snd (rs_principal st)) = (a, client, r1)"
    by (simp add: open_ai_principal_def)
  from query_loop_count [of h f, OF assms this]
  have le: "f r1 \<le> f (snd (rs_principal st)) + MAX_UNPARSEABLE_RETRIES" by simp
  let ?st = "st\<lparr>rs_principal := (client, r1)\<rparr>"
  show ?case
  proof (cases "\<exists>calls. a = Ok calls \<and> calls \<noteq> []")
    case True
    then obtain calls where calls: "a = Ok calls" "calls \<noteq> []" by blast
    obtain q' st1 where st1: "run_calls c os ?pr calls ?st = (q', st1)" by fastforce
    from Suc.prems nx calls st1 have "st' = st1 \<or> run_principal c os ?pr n st1 = (q, st')"
      by (cases q') (auto simp: io_bind_def)
    with Suc.IH [of st1] run_calls_remote [OF st1] le show ?thesis by fastforce
  next
    case False
    with Suc.prems nx have "rs_principal st' = (client, r1)" by (cases a) auto
    with le show ?thesis by simp
  qed
qed simp

section \<open>Parsing raw calls\<close>

text \<open>The arguments the tool schema asks for.\<close>

primrec call_arguments :: "tool_call \<Rightarrow> json" where
  "call_arguments (FsRead p) = JObject [(''path'', JString p)]"
| "call_arguments (FsWrite p contents) = JObject [(''path'', JString p), (''contents'', JString contents)]"
| "call_arguments (ExecCall binary args) =
     JObject [(''binary'', JString binary), (''args'', JArray (map JString args))]"
| "call_arguments (NetworkCall host port payload) =
     JObject [(''host'', JString host), (''port'', JNumber (PosInt (ucast port))), (''payload'', JString payload)]"

lemma map_filter_strings [simp]: "List.map_filter json_as_str (map JString ss) = ss"
  by (induction ss) (simp_all add: json_as_str_def map_filter_simps)

lemma parse_call_arguments:
  assumes "json_from_str c text = Ok (call_arguments call)"
  shows "parse_raw_tool_call c \<lparr>rf_name = call_tool_name call, rf_arguments = text\<rparr> = Some call"
  using assms
  by (cases call) (simp_all add: parse_raw_tool_call_def str_arg_def json_get_def)

lemma parse_raw_name: "parse_raw_tool_call c f = Some call \<Longrightarrow> call_tool_name call = rf_name f"
  by (auto simp: parse_raw_tool_call_def bind_eq_Some_conv split: res.splits if_splits)

end
