(* ===== verification/Honest_Use.thy ===== *)
theory Honest_Use
  imports Tools_Facts
begin

text \<open>
  The outcome of \<open>authorize_only\<close> on a capability that was honestly minted and attenuated:
  every branch, with nothing left to chance but the clock and the file system.
\<close>

text \<open>A capability in use: what the theorems below ask of it.\<close>

definition honest ::
    "('kp, 'pk, 'b, 'tok) crates \<Rightarrow> ('b \<Rightarrow> fact set) \<Rightarrow> ('b \<Rightarrow> 'pk) \<Rightarrow> 'tok child_capability \<Rightarrow> bool" where
  "honest c facts root_of ch \<longleftrightarrow>
     biscuit_laws c facts root_of \<and> uuid_laws c
   \<and> (\<exists>fs kp nk m now root. mint c fs kp nk m now = Ok root \<and> descends c root ch)
   \<and> token_answers c (child_token ch) \<and> encodable c (last (child_caveats ch))"

text \<open>Whether the binding of the latest block is the one the struct reports.\<close>

definition binding_current :: "'tok child_capability \<Rightarrow> bool" where
  "binding_current ch \<longleftrightarrow> cv_request_binding (last (child_caveats ch)) = child_request_binding ch"

lemma honest_verify:
  assumes "honest c facts root_of ch"
  shows "if binding_current ch
         then \<exists>v. verify_and_decode c ch = Ok v \<and> vs_task_id v = child_task_id ch
           \<and> permissions_eq (vs_permissions v) (child_permissions ch)
           \<and> vs_expires_at v = child_expires_at ch \<and> vs_request_binding v = child_request_binding ch
         else verify_and_decode c ch = Err TokenStateMismatch"
proof -
  obtain fs kp nk m now root where laws: "biscuit_laws c facts root_of" "uuid_laws c"
      and r: "mint c fs kp nk m now = Ok root" "descends c root ch"
      and a: "token_answers c (child_token ch)" "encodable c (last (child_caveats ch))"
    using assms by (auto simp: honest_def)
  from verify_descendant [OF laws r a] descends_last [OF r(2)] descends_identity [OF r(2)]
  show ?thesis
    by (auto simp: binding_current_def child_request_binding_chain state_of_def split: if_splits)
qed

lemma honest_authorize:
  assumes honest: "honest c facts root_of ch"
    and binding: "actual_binding_for c req n_opt = Ok ab" and clock: "os_now os w = (t, w1)"
  shows "authorize_only c os ch req n_opt w =
    (if \<not> binding_current ch then Err (Verification StateTampered)
     else if child_expires_at ch \<le> t then Err (Verification Expired)
     else if child_request_binding ch \<noteq> None \<and> ab \<noteq> child_request_binding ch
       then Err (Verification RequestBindingMismatch)
     else (case decide (os_fs os w1) (child_permissions ch) req of
             Allow \<Rightarrow> Ok () | Deny reason \<Rightarrow> Err (DeniedError reason)), w1)"
proof -
  have start: "authorize_only c os ch req n_opt w =
    io_bind (io_lift (res_map_err Verification (verify c ch t ab))) (\<lambda>verified w.
      (case decide (os_fs os w) (vc_permissions verified) req of
        Allow \<Rightarrow> (Ok (), w) | Deny reason \<Rightarrow> (Err (DeniedError reason), w))) w1"
    by (simp add: authorize_only_def actual_binding_lift binding io_bind_draw [where d = "os_now os", OF clock])
  show ?thesis
  proof (cases "binding_current ch")
    case False
    with honest_verify [OF honest] have "verify c ch t ab = Err StateTampered"
      by (simp add: verify_of_error verification_error_of_def)
    with start False show ?thesis by simp
  next
    case True
    with honest_verify [OF honest] obtain v where
      v: "verify_and_decode c ch = Ok v" "permissions_eq (vs_permissions v) (child_permissions ch)"
        "vs_expires_at v = child_expires_at ch" "vs_request_binding v = child_request_binding ch"
      by auto
    from start True verify_of_state [OF v(1), of t ab] v(3,4) decide_permissions_eq [OF v(2)]
    show ?thesis by (simp add: vc_permissions_def split: decision.split)
  qed
qed

text \<open>
  Nothing remembers that a capability was used: once accepted, it is accepted again until it
  expires, for the same request under the same file system.
\<close>

lemma authorize_again:
  assumes "authorize_only c os ch req n_opt w = (Ok u, w1)"
    and "os_now os w2 = (t, w3)" "t < child_expires_at ch" "os_fs os w3 = os_fs os w1"
  shows "authorize_only c os ch req n_opt w2 = (Ok (), w3)"
proof -
  obtain ab now v where v: "actual_binding_for c req n_opt = Ok ab" "os_now os w = (now, w1)"
      "verify c ch now ab = Ok v" "decide (os_fs os w1) (vc_permissions v) req = Allow"
    using assms(1) by (auto simp: authorize_only_Ok_iff)
  from v(3) assms(3) verify_permissions_match [OF v(3)] have "verify c ch t ab = Ok v"
    by (auto simp: verify_Ok_iff)
  with v assms show ?thesis by (auto simp: authorize_only_Ok_iff)
qed

end
