(* ===== verification/Testbed.thy ===== *)
theory Testbed
  imports Cli_Facts Live_Facts Honest_Use "HOL-Library.Code_Target_Nat"
begin

text \<open>
  A concrete instance of every parameter of the model, on which the theorems are exercised: a
  symbolic biscuit whose token is its list of facts under a root key, printed integers for times
  and identifiers, a self-delimiting JSON encoding, and a small world with a clock, a supply of
  fresh values, files, directories and symbolic links.  The laws named by the theorems are proved
  of it, so they can hold together.
\<close>

section \<open>Reading integers\<close>

definition digit_value :: "char \<Rightarrow> nat" where
  "digit_value ch = of_char ch - 48"

definition read_nat :: "string \<Rightarrow> nat" where
  "read_nat s = foldl (\<lambda>acc ch. acc * 10 + digit_value ch) 0 s"

definition read_int :: "string \<Rightarrow> int" where
  "read_int s = (case s of c # t \<Rightarrow> if c = CHR ''-'' then - int (read_nat t) else int (read_nat s) | [] \<Rightarrow> 0)"

lemma digit_value_char: "d < 10 \<Longrightarrow> digit_value (digit_char d) = d"
  by (simp add: digit_value_def digit_char_def of_char_of)

lemma digit_char_range: "d < 10 \<Longrightarrow> 48 \<le> (of_char (digit_char d) :: nat) \<and> (of_char (digit_char d) :: nat) \<le> 57"
  by (simp add: digit_char_def of_char_of)

lemma read_show_nat: "read_nat (show_nat n) = n"
proof (induction n rule: show_nat.induct)
  case (1 n)
  show ?case
  proof (cases "n < 10")
    case True
    then show ?thesis by (simp add: show_nat.simps [of n] read_nat_def digit_value_char)
  next
    case False
    with 1 show ?thesis
      by (simp add: show_nat.simps [of n] read_nat_def digit_value_char)
  qed
qed

lemma show_nat_digits: "ch \<in> set (show_nat n) \<Longrightarrow> 48 \<le> (of_char ch :: nat) \<and> (of_char ch :: nat) \<le> 57"
proof (induction n rule: show_nat.induct)
  case (1 n)
  then show ?case
    using digit_char_range [of n] digit_char_range [of "n mod 10"]
    by (cases "n < 10") (auto simp: show_nat.simps [of n])
qed

lemma show_nat_no [simp]:
  "CHR ''-'' \<notin> set (show_nat n)" "CHR '','' \<notin> set (show_nat n)" "CHR ''('' \<notin> set (show_nat n)"
  "CHR 0x22 \<notin> set (show_nat n)" "CHR 0x5C \<notin> set (show_nat n)"
  by (auto dest: show_nat_digits)

lemma show_nat_nonempty [simp]: "show_nat n \<noteq> []"
  by (simp add: show_nat.simps [of n])

lemma read_show_int: "read_int (show_int i) = i"
proof (cases "i < 0")
  case True
  then show ?thesis by (simp add: show_int_def read_int_def read_show_nat)
next
  case False
  have "hd (show_nat (nat i)) \<noteq> CHR ''-''"
    using show_nat_no(1) [of "nat i"] by (metis hd_in_set show_nat_nonempty)
  with False show ?thesis
    by (cases "show_nat (nat i)") (use read_show_nat [of "nat i"] in \<open>auto simp: show_int_def read_int_def\<close>)
qed

lemma show_int_no [simp]: "CHR '','' \<notin> set (show_int i)" "CHR 0x22 \<notin> set (show_int i)"
  by (simp_all add: show_int_def)

section \<open>A symbolic biscuit\<close>

record tb_biscuit =
  tb_root :: bytes
  tb_facts :: "fact list"

definition tb_parse_fact :: "string \<Rightarrow> (string, fact) res" where
  "tb_parse_fact s =
     (let name = takeWhile (\<lambda>ch. ch \<noteq> CHR ''('') s;
          body = drop (Suc (length name)) s;
          quoted = (\<lambda>t. literal_value (take (length t - 3) (tl t))) in
      if body \<noteq> [] \<and> hd body = CHR 0x22 then
        (case quoted body of None \<Rightarrow> Err ''literal'' | Some v \<Rightarrow> Ok (Fact name [DStr v]))
      else
        (let num = takeWhile (\<lambda>ch. ch \<noteq> CHR '','') body in
         case quoted (drop (length num + 2) body) of
           None \<Rightarrow> Err ''literal''
         | Some v \<Rightarrow> Ok (Fact name [DInt (read_int num), DStr v])))"

definition tb_query_name :: "nat \<Rightarrow> string \<Rightarrow> string" where
  "tb_query_name skip q = takeWhile (\<lambda>ch. ch \<noteq> CHR ''('') (drop skip q)"

fun tb_row1 :: "string \<Rightarrow> fact \<Rightarrow> string option" where
  "tb_row1 name (Fact n [DStr v]) = (if n = name then Some v else None)"
| "tb_row1 name _ = None"

fun tb_row2 :: "string \<Rightarrow> fact \<Rightarrow> (int \<times> string) option" where
  "tb_row2 name (Fact n [DInt i, DStr v]) = (if n = name then Some (i, v) else None)"
| "tb_row2 name _ = None"

definition tb_rows1 :: "string \<Rightarrow> fact list \<Rightarrow> string list" where
  "tb_rows1 name fs = List.map_filter (tb_row1 name) fs"

definition tb_rows2 :: "string \<Rightarrow> fact list \<Rightarrow> (int \<times> string) list" where
  "tb_rows2 name fs = List.map_filter (tb_row2 name) fs"

lemma tb_row1_iff: "tb_row1 name f = Some v \<longleftrightarrow> f = Fact name [DStr v]"
  by (induction name f rule: tb_row1.induct) auto

lemma tb_row2_iff: "tb_row2 name f = Some (i, v) \<longleftrightarrow> f = Fact name [DInt i, DStr v]"
  by (induction name f rule: tb_row2.induct) auto

section \<open>A self-delimiting JSON encoding\<close>

definition unary :: "nat \<Rightarrow> string" where
  "unary n = replicate n (CHR ''a'') @ ''b''"

definition enc_string :: "string \<Rightarrow> string" where
  "enc_string s = unary (length s) @ s"

fun enc_json :: "json \<Rightarrow> string" where
  "enc_json (JString s) = ''s'' @ enc_string s"
| "enc_json (JObject kvs) = ''o'' @ unary (length kvs) @ concat (map (\<lambda>kv. enc_string (fst kv) @ enc_json (snd kv)) kvs)"
| "enc_json _ = ''x''"

lemma unary_inject: "unary m @ a = unary n @ b \<Longrightarrow> m = n \<and> a = b"
proof -
  assume "unary m @ a = unary n @ b"
  then have "replicate m (CHR ''a'') @ CHR ''b'' # a = replicate n (CHR ''a'') @ CHR ''b'' # b"
    by (simp add: unary_def)
  then have "replicate m (CHR ''a'') = replicate n (CHR ''a'') \<and> a = b"
    by (intro append_delim_inject) auto
  then show ?thesis by (metis length_replicate)
qed

lemma enc_string_inject: "enc_string s @ a = enc_string t @ b \<Longrightarrow> s = t \<and> a = b"
  by (auto simp: enc_string_def dest: unary_inject)

definition enc_fields :: "(string \<times> json) list \<Rightarrow> string" where
  "enc_fields kvs = concat (map (\<lambda>kv. enc_string (fst kv) @ enc_json (snd kv)) kvs)"

lemma enc_fields_inject:
  assumes "\<And>kv k a b. kv \<in> set kvs \<Longrightarrow> text_json k \<Longrightarrow> enc_json (snd kv) @ a = enc_json k @ b \<Longrightarrow> snd kv = k \<and> a = b"
    and "length kvs = length lvs" "list_all (\<lambda>kv. text_json (snd kv)) lvs"
    and "enc_fields kvs @ a = enc_fields lvs @ b"
  shows "kvs = lvs \<and> a = b"
  using assms
proof (induction kvs arbitrary: lvs a b)
  case (Cons kv kvs)
  then obtain lv lvs' where lvs: "lvs = lv # lvs'" by (cases lvs) auto
  from Cons.prems(4) have "fst kv = fst lv \<and>
      enc_json (snd kv) @ (enc_fields kvs @ a) = enc_json (snd lv) @ (enc_fields lvs' @ b)"
    by (intro enc_string_inject) (simp add: lvs enc_fields_def)
  moreover from this have "snd kv = snd lv \<and> enc_fields kvs @ a = enc_fields lvs' @ b"
    using Cons.prems(3) lvs by (intro Cons.prems(1)) auto
  moreover have "kvs = lvs' \<and> a = b"
  proof (rule Cons.IH)
    show "snd kv' = k \<and> a = b"
      if "kv' \<in> set kvs" "text_json k" "enc_json (snd kv') @ a = enc_json k @ b" for kv' k a b
      by (rule Cons.prems(1) [OF _ that(2,3)]) (simp add: that(1))
    show "length kvs = length lvs'" "list_all (\<lambda>kv. text_json (snd kv)) lvs'"
      using Cons.prems(2,3) by (simp_all add: lvs)
    show "enc_fields kvs @ a = enc_fields lvs' @ b" using calculation by blast
  qed
  ultimately show ?case by (simp add: lvs prod_eq_iff)
qed (simp add: enc_fields_def)

lemma enc_json_inject:
  "text_json j \<Longrightarrow> text_json k \<Longrightarrow> enc_json j @ a = enc_json k @ b \<Longrightarrow> j = k \<and> a = b"
proof (induction j arbitrary: k a b rule: text_json.induct)
  case (1 s)
  then show ?case by (cases k) (auto dest: enc_string_inject)
next
  case (2 kvs)
  then obtain lvs where k: "k = JObject lvs" by (cases k) auto
  have eqs: "length kvs = length lvs \<and> enc_fields kvs @ a = enc_fields lvs @ b"
    using "2.prems"(3) by (intro unary_inject) (simp add: k enc_fields_def)
  have IH: "snd kv = l \<and> x = y"
    if "kv \<in> set kvs" "text_json l" "enc_json (snd kv) @ x = enc_json l @ y" for kv l x y
  proof -
    have "text_json (snd kv)" using "2.prems"(1) that(1) by (simp add: list_all_iff)
    from "2.IH" [OF that(1) this that(2,3)] show ?thesis .
  qed
  have "kvs = lvs \<and> a = b"
  proof (rule enc_fields_inject)
    show "list_all (\<lambda>kv. text_json (snd kv)) lvs" using "2.prems"(2) k by simp
  qed (use eqs in \<open>auto dest: IH\<close>)
  with k show ?case by simp
qed auto

section \<open>The crates\<close>

text \<open>A stand-in for the hash: 32 bytes picked from both ends of the message.\<close>

definition tb_hash :: "bytes \<Rightarrow> bytes" where
  "tb_hash bs = take 16 (bs @ replicate 16 0) @ take 16 (drop 17 (rev bs) @ replicate 16 0)"

definition tb_lo :: datetime where "tb_lo = - 8334601228800 * 1000000000"
definition tb_hi :: datetime where "tb_hi = 8210266876800 * 1000000000"

definition tb :: "(bytes, bytes, tb_biscuit, tb_biscuit) crates" where
  "tb =
     \<lparr>duration_seconds =
        (\<lambda>s. if - max_delta_seconds \<le> s \<and> s \<le> max_delta_seconds then Some (s * 1000000000) else None),
      checked_add_signed = (\<lambda>t d. if tb_lo \<le> t + d \<and> t + d \<le> tb_hi then Some (t + d) else None),
      to_rfc3339 = show_int, parse_from_rfc3339 = (\<lambda>s. Some (read_int s)),
      timestamp = (\<lambda>t. t div 1000000000), timestamp_subsec_nanos = (\<lambda>t. nat (t mod 1000000000)),
      uuid_to_string = (\<lambda>u. show_nat (unat u)), uuid_parse_str = (\<lambda>s. Some (word_of_nat (read_nat s))),
      uuid_as_bytes = (\<lambda>u. be_bytes 16 (unat u)), blake3 = tb_hash,
      json_to_vec = (\<lambda>j. Ok (as_bytes (enc_json j))),
      json_from_str = (\<lambda>s. Ok (JObject [(''path'', JString s)])),
      public_key_bytes = (\<lambda>k. k), public_key_from_bytes = Ok,
      parse_fact = tb_parse_fact,
      biscuit_build = (\<lambda>k nk F. Ok \<lparr>tb_root = k, tb_facts = F\<rparr>),
      biscuit_append = (\<lambda>nk b F. Ok (b\<lparr>tb_facts := tb_facts b @ F\<rparr>)),
      biscuit_to_vec = Ok, biscuit_from = (\<lambda>b pk. if tb_root b = pk then Ok b else Err ''signature''),
      biscuit_authorizer = (\<lambda>b. Ok ()),
      query_all1 = (\<lambda>n b q. Ok (tb_rows1 (tb_query_name 13 q) (tb_facts b))),
      query_all2 = (\<lambda>n b q. Ok (tb_rows2 (tb_query_name 19 q) (tb_facts b)))\<rparr>"

section \<open>The laws hold\<close>

lemma tb_chrono_laws: "chrono_laws tb tb_lo tb_hi"
  by (simp add: chrono_laws_def tb_def read_show_int)

lemma tb_uuid_laws: "uuid_laws tb"
proof -
  have "inj (\<lambda>u :: uuid. be_bytes 16 (unat u))"
  proof (rule injI)
    fix u v :: uuid
    have small: "unat w < 256 ^ 16" for w :: uuid using unsigned_less [of w] by simp
    assume "be_bytes 16 (unat u) = be_bytes 16 (unat v)"
    from be_bytes_inject [OF small small this] show "u = v" by (simp add: word_unat_eq_iff)
  qed
  then show ?thesis by (simp add: uuid_laws_def tb_def read_show_nat)
qed

lemma tb_json_laws: "json_laws tb"
  using enc_json_inject [of _ _ "[]" "[]"] by (auto simp: json_laws_def tb_def)

lemma tb_stamp_laws: "stamp_laws tb"
  using tb_uuid_laws by (simp add: stamp_laws_def) (simp add: tb_def)

lemma takeWhile_until: "d \<notin> set a \<Longrightarrow> takeWhile (\<lambda>ch. ch \<noteq> d) (a @ d # b) = a"
  by (induction a) auto

lemma tb_parse_fact2:
  assumes "CHR ''('' \<notin> set name" "literal_value lit = Some v"
  shows "tb_parse_fact (fact2_str name i lit) = Ok (Fact name [DInt i, DStr v])"
proof -
  have s: "fact2_str name i lit
      = name @ CHR ''('' # show_int i @ CHR '','' # CHR '' '' # CHR 0x22 # lit @ [CHR 0x22, CHR '')'']"
    by (simp add: fact2_str_def)
  have "hd (show_int i @ x) \<noteq> CHR 0x22" for x
    using show_int_no(2) [of i] by (cases "show_int i") (auto simp: show_int_def split: if_splits)
  with assms show ?thesis
    by (simp add: tb_parse_fact_def s takeWhile_until Let_def read_show_int)
qed

lemma tb_parse_fact1:
  assumes "CHR ''('' \<notin> set name" "literal_value lit = Some v"
  shows "tb_parse_fact (fact1_str name lit) = Ok (Fact name [DStr v])"
proof -
  have s: "fact1_str name lit = name @ CHR ''('' # CHR 0x22 # lit @ [CHR 0x22, CHR '')'']"
    by (simp add: fact1_str_def)
  with assms show ?thesis by (simp add: tb_parse_fact_def takeWhile_until Let_def)
qed

lemma tb_query_names:
  "CHR ''('' \<notin> set name \<Longrightarrow> tb_query_name 19 (query2_str name) = name"
  "CHR ''('' \<notin> set name \<Longrightarrow> tb_query_name 13 (query1_str name) = name"
  by (simp_all add: tb_query_name_def query2_str_def query1_str_def takeWhile_until)

lemma set_tb_rows1: "set (tb_rows1 name fs) = rows1 (set fs) name"
  by (auto simp: tb_rows1_def rows1_def set_map_filter_iff tb_row1_iff)

lemma set_tb_rows2: "set (tb_rows2 name fs) = rows2 (set fs) name"
  by (auto simp: tb_rows2_def rows2_def set_map_filter_iff tb_row2_iff)

lemma fact_names_no_paren: "name \<in> set fact_names \<Longrightarrow> CHR ''('' \<notin> set name"
  by (auto simp: fact_names_def)

lemma tb_biscuit_laws: "biscuit_laws tb (\<lambda>b. set (tb_facts b)) tb_root"
  unfolding biscuit_laws_def
  by (auto simp: tb_def tb_parse_fact2 tb_parse_fact1 fact_names_no_paren tb_query_names
      set_tb_rows1 set_tb_rows2 split: if_splits)

lemma tb_answers: "biscuit_answers tb b" "token_answers tb tok"
  by (simp_all add: biscuit_answers_def token_answers_def tb_def list_all_iff)

section \<open>A small world\<close>

record world =
  w_clock :: int
  w_fresh :: nat
  w_files :: "(path \<times> string) list"
  w_dirs :: "path list"
  w_links :: "(path \<times> path) list"
  w_sent :: "(string \<times> string) list"

text \<open>One level of links: an entry of \<open>w_links\<close> stands for its target.\<close>

definition w_target :: "world \<Rightarrow> path \<Rightarrow> path" where
  "w_target w p = (case map_of (w_links w) p of Some q \<Rightarrow> q | None \<Rightarrow> p)"

definition w_present :: "world \<Rightarrow> path \<Rightarrow> bool" where
  "w_present w p \<longleftrightarrow> w_target w p \<in> set (w_dirs w) \<or> w_target w p \<in> fst ` set (w_files w)"

definition w_fs :: "world \<Rightarrow> fs_view" where
  "w_fs w = \<lparr>fs_exists = w_present w,
     fs_canonicalize = (\<lambda>p. if w_present w p then Some (w_target w p) else None)\<rparr>"

definition tb_os :: "(world, bytes) os" where
  "tb_os =
     \<lparr>os_now = (\<lambda>w. (w_clock w, w\<lparr>w_clock := w_clock w + 1000000\<rparr>)),
      os_uuid = (\<lambda>w. (word_of_nat (w_fresh w), w\<lparr>w_fresh := w_fresh w + 1\<rparr>)),
      os_keypair = (\<lambda>w. ([word_of_nat (w_fresh w)], w\<lparr>w_fresh := w_fresh w + 1\<rparr>)),
      os_fs = w_fs,
      os_read_to_string = (\<lambda>w p.
        (case map_of (w_files w) (w_target w p) of
           Some s \<Rightarrow> Ok s | None \<Rightarrow> Err ''No such file or directory (os error 2)'', w)),
      os_write = (\<lambda>w p s. (Ok (), w\<lparr>w_files := (w_target w p, s) # w_files w\<rparr>)),
      os_command_output = (\<lambda>w b args. (Ok \<lparr>out_status = Some 0, out_stdout = b, out_stderr = []\<rparr>, w)),
      os_tcp_connect = (\<lambda>w host port. (Ok (length (w_sent w)), w\<lparr>w_sent := (host, []) # w_sent w\<rparr>)),
      os_tcp_write_all = (\<lambda>w i s. (Ok (), w\<lparr>w_sent := ('''', s) # w_sent w\<rparr>))\<rparr>"

definition w0 :: world where
  "w0 = \<lparr>w_clock = 1000000000, w_fresh = 1, w_files = [(''/repo/a'', ''hello''), (''/etc/key'', ''secret'')],
     w_dirs = [''/'', ''/repo'', ''/repo/src'', ''/etc''], w_links = [(''/repo/link'', ''/etc/key'')], w_sent = []\<rparr>"

definition m0 :: task_manifest where
  "m0 = \<lparr>tm_task_id = 7, repo_root = ''/repo'', tm_ttl_seconds = 60,
     filesystem = \<lparr>fp_readable_roots = [''/repo''], fp_writable_roots = [''/repo/src'']\<rparr>,
     tm_exec = \<lparr>allowed_binaries = [''/bin/true'']\<rparr>, tm_network = DenyAll\<rparr>"

end
