(* ===== verification/Scenario.thy ===== *)
theory Scenario
  imports Testbed
begin

text \<open>
  One scenario on the concrete instance: an orchestrator for the manifest \<open>m0\<close>, a child of its
  root bound to reading \<open>/repo/a\<close>, a grandchild without a binding, and the steps of permitted and
  of refused calls.  The path checks are evaluated; the rest follows from the laws.
\<close>

section \<open>The instance, field by field\<close>

lemma tb_sel [simp]:
  "public_key_bytes tb k = k" "public_key_from_bytes tb k = Ok k"
  "biscuit_to_vec tb b = Ok b" "biscuit_from tb b k = (if tb_root b = k then Ok b else Err ''signature'')"
  "biscuit_build tb k nk F = Ok \<lparr>tb_root = k, tb_facts = F\<rparr>"
  "biscuit_append tb nk b F = Ok (b\<lparr>tb_facts := tb_facts b @ F\<rparr>)"
  "json_to_vec tb j = Ok (as_bytes (enc_json j))"
  "to_rfc3339 tb t = show_int t" "parse_from_rfc3339 tb s = Some (read_int s)"
  "blake3 tb bs = tb_hash bs"
  by (simp_all add: tb_def)

lemma tb_os_sel [simp]:
  "os_now tb_os w = (w_clock w, w\<lparr>w_clock := w_clock w + 1000000\<rparr>)"
  "os_uuid tb_os w = (word_of_nat (w_fresh w), w\<lparr>w_fresh := w_fresh w + 1\<rparr>)"
  "os_keypair tb_os w = ([word_of_nat (w_fresh w)], w\<lparr>w_fresh := w_fresh w + 1\<rparr>)"
  "os_fs tb_os w = w_fs w"
  by (simp_all add: tb_os_def)

lemma length_tb_hash [simp]: "length (tb_hash bs) = 32"
  by (simp add: tb_hash_def)

lemma tb_build:
  "build_root_token tb nk u P e kp
    = Ok \<lparr>tb_root = kp, tb_facts = Fact ''task_id'' [DStr (uuid_to_string tb u)] # block_facts tb 0 P e None\<rparr>"
  by (simp add: build_root_token_def parse_task_fact [OF tb_biscuit_laws tb_uuid_laws]
      parse_state_facts [OF tb_biscuit_laws tb_uuid_laws])

lemma tb_append:
  "append_block tb nk tok (tb_root tok) k P e b = Ok (tok\<lparr>tb_facts := tb_facts tok @ block_facts tb k P e b\<rparr>)"
  by (simp add: append_block_def parse_state_facts [OF tb_biscuit_laws tb_uuid_laws])

lemma tb_expires_at:
  "unat ttl \<le> 1000000000 \<Longrightarrow> 0 \<le> now \<Longrightarrow> now \<le> 1000000000000 \<Longrightarrow>
    checked_expires_at tb now ttl = Ok (now + int (unat ttl) * 1000000000)"
  by (simp add: checked_expires_at_cases [OF tb_chrono_laws] Let_def max_delta_seconds_def tb_lo_def tb_hi_def
      del: int_nat_eq of_nat_unat)

lemma tb_encodable:
  "encodable tb s \<longleftrightarrow> permissions_ok (cv_permissions s)
   \<and> (\<forall>p \<in> set (readable_roots (cv_permissions s)) \<union> set (writable_roots (cv_permissions s)). utf8_valid p)
   \<and> (case cv_request_binding s of None \<Rightarrow> True | Some b \<Rightarrow> length (argument_hash b) = 32)"
  by (simp add: encodable_def read_show_int)

section \<open>The root\<close>

definition P0 :: permission_set where
  "P0 = \<lparr>readable_roots = [''/repo''], writable_roots = [''/repo/src''], exec_binaries = [''/bin/true''],
     network = DenyAll\<rparr>"

definition root0 :: "tb_biscuit root_capability" where
  "root0 = \<lparr>root_task_id = 7, root_permissions = P0, root_expires_at = 61000000000,
     root_token = \<lparr>tb_root = [1],
       tb_facts = Fact ''task_id'' [DStr (uuid_to_string tb 7)] # block_facts tb 0 P0 61000000000 None\<rparr>,
     root_root_public_key = [1]\<rparr>"

lemma P0_permissions: "validate m0 = Ok ()" "from_manifest (w_fs w0) m0 = Ok P0"
  by code_simp+

lemma minted0: "mint tb (w_fs w0) [1] nk m0 1000000000 = Ok root0"
proof -
  have "tm_ttl_seconds m0 = 60" "tm_task_id m0 = 7" by (simp_all add: m0_def)
  moreover have "checked_expires_at tb 1000000000 60 = Ok 61000000000" by (simp add: tb_expires_at)
  ultimately show ?thesis
    by (simp add: mint_Ok_iff P0_permissions tb_build root0_def)
qed

section \<open>Children\<close>

definition child_of :: "tb_biscuit \<Rightarrow> caveat list \<Rightarrow> caveat \<Rightarrow> tb_biscuit child_capability" where
  "child_of tok cvs s =
     \<lparr>child_task_id = 7, child_permissions = cv_permissions s, child_expires_at = cv_expires_at s,
      child_caveats = cvs @ [s],
      child_token = tok\<lparr>tb_facts := tb_facts tok @ block_facts tb (int (length cvs) + 1) (cv_permissions s)
        (cv_expires_at s) (cv_request_binding s)\<rparr>,
      child_root_public_key = tb_root tok\<rparr>"

definition caveat_of :: "fs_view \<Rightarrow> attenuation_request \<Rightarrow> datetime \<Rightarrow> caveat" where
  "caveat_of fs r e = \<lparr>cv_permissions = requested_permissions fs r, cv_expires_at = e,
     cv_request_binding = ar_request_binding r\<rparr>"

lemma attenuate0:
  assumes "request_within fs r P0" "checked_expires_at tb now (ar_ttl_seconds r) = Ok e" "e \<le> 61000000000"
  shows "root_attenuate tb fs k root0 r now = Ok (child_of (root_token root0) [] (caveat_of fs r e))"
proof -
  have v: "validate_attenuation tb fs (root_permissions root0) (root_expires_at root0) r now = Ok ()"
    using assms by (simp add: validate_attenuation_Ok_iff root0_def)
  from attenuated_state_validated [OF v] assms(2)
  have "attenuated_state tb fs r now = Ok (e, requested_permissions fs r)" by auto
  with v tb_append [of k "root_token root0"] show ?thesis
    by (simp add: root_attenuate_def parse_public_key_def root0_def child_of_def caveat_of_def)
qed

lemma attenuate_child_of:
  assumes "request_within fs r (cv_permissions s)" "checked_expires_at tb now (ar_ttl_seconds r) = Ok e"
    and "e \<le> cv_expires_at s"
  shows "child_attenuate tb fs k (child_of tok cvs s) r now
    = Ok (child_of (child_token (child_of tok cvs s)) (cvs @ [s]) (caveat_of fs r e))"
proof -
  let ?x = "child_of tok cvs s"
  have v: "validate_attenuation tb fs (child_permissions ?x) (child_expires_at ?x) r now = Ok ()"
    using assms by (simp add: validate_attenuation_Ok_iff child_of_def)
  from attenuated_state_validated [OF v] assms(2)
  have "attenuated_state tb fs r now = Ok (e, requested_permissions fs r)" by auto
  with v tb_append [of k "child_token ?x"] show ?thesis
    by (simp add: child_attenuate_def parse_public_key_def child_of_def caveat_of_def Let_def)
qed

definition r0 :: "request_binding option \<Rightarrow> attenuation_request" where
  "r0 b = \<lparr>ar_readable_roots = [''/repo/src''], ar_writable_roots = [], ar_exec_binaries = [],
     ar_network = DenyAll, ar_ttl_seconds = 30, ar_request_binding = b\<rparr>"

definition P1 :: permission_set where
  "P1 = \<lparr>readable_roots = [''/repo/src''], writable_roots = [], exec_binaries = [], network = DenyAll\<rparr>"

lemma r0_within: "request_within (w_fs w0) (r0 b) P0" "request_within (w_fs w0) (r0 b) P1"
proof -
  have "contains_all_roots (w_fs w0) P0 [''/repo/src''] False" "contains_all_roots (w_fs w0) P1 [''/repo/src''] False"
    by code_simp+
  then show "request_within (w_fs w0) (r0 b) P0" "request_within (w_fs w0) (r0 b) P1"
    by (simp_all add: request_within_def r0_def contains_all_roots_iff contains_all_exec_iff)
qed

lemma r0_permissions: "requested_permissions (w_fs w0) (r0 b) = P1"
proof -
  have "btree_collect components (map (resolve_existing_ancestor (w_fs w0)) [''/repo/src'']) = [''/repo/src'']"
    by code_simp
  then show ?thesis
    by (simp add: requested_permissions_def r0_def P1_def btree_collect_def)
qed

definition b0 :: request_binding where
  "b0 = \<lparr>tool_name = ''fs_read'',
     argument_hash = hash_tool_arguments tb ''fs_read'' (as_bytes (enc_json (request_json (Read ''/repo/src'')))) 9,
     nonce = 9\<rparr>"

lemma bound0: "request_binding_for tb (Read ''/repo/src'') 9 = Ok b0"
  by (simp add: request_binding_for_def b0_def)

definition s0 :: "request_binding option \<Rightarrow> caveat" where
  "s0 b = \<lparr>cv_permissions = P1, cv_expires_at = 32000000000, cv_request_binding = b\<rparr>"

definition ch0 :: "tb_biscuit child_capability" where
  "ch0 = child_of (root_token root0) [] (s0 (Some b0))"

definition gc0 :: "tb_biscuit child_capability" where
  "gc0 = child_of (child_token ch0) [s0 (Some b0)] (s0 None)"

lemma r0_expires: "checked_expires_at tb 2000000000 (ar_ttl_seconds (r0 b)) = Ok 32000000000"
  by (simp add: tb_expires_at r0_def)

lemma caveat_r0: "caveat_of (w_fs w0) (r0 b) 32000000000 = s0 b"
  by (simp add: caveat_of_def r0_permissions s0_def) (simp add: r0_def)

lemma attenuated0: "root_attenuate tb (w_fs w0) k root0 (r0 (Some b0)) 2000000000 = Ok ch0"
  using attenuate0 [OF r0_within(1) r0_expires] by (simp add: caveat_r0 ch0_def)

lemma reattenuated0: "child_attenuate tb (w_fs w0) k ch0 (r0 None) 2000000000 = Ok gc0"
  unfolding ch0_def
  using attenuate_child_of [of "w_fs w0" "r0 None" "s0 (Some b0)", OF _ r0_expires] r0_within(2)
  by (simp add: caveat_r0 gc0_def ch0_def s0_def)

lemma descends0: "descends tb root0 ch0" "descends tb root0 gc0"
proof -
  show "descends tb root0 ch0" by (rule descends.first [OF attenuated0])
  then show "descends tb root0 gc0" by (rule descends.further [OF _ reattenuated0])
qed

lemma P1_encodable: "permissions_ok P1" "utf8_valid ''/repo/src''" "utf8_valid ''/repo''" "permissions_ok P0"
  by (simp_all add: permissions_ok_def P1_def P0_def btree_ok_def) code_simp+

lemma s0_encodable: "encodable tb (s0 None)" "encodable tb (s0 (Some b0))"
  using P1_encodable
  by (simp_all add: tb_encodable s0_def b0_def hash_tool_arguments_def) (simp_all add: P1_def)

lemma honest0:
  "honest tb (\<lambda>b. set (tb_facts b)) tb_root ch0" "honest tb (\<lambda>b. set (tb_facts b)) tb_root gc0"
proof -
  have "child_caveats ch0 = [s0 (Some b0)]" "child_caveats gc0 = [s0 (Some b0), s0 None]"
    by (simp_all add: ch0_def gc0_def child_of_def)
  with tb_biscuit_laws tb_uuid_laws minted0 descends0 tb_answers s0_encodable
  show "honest tb (\<lambda>b. set (tb_facts b)) tb_root ch0" "honest tb (\<lambda>b. set (tb_facts b)) tb_root gc0"
    unfolding honest_def by (simp_all; blast)+
qed

lemma bindings0:
  "binding_current ch0" "\<not> binding_current gc0" "child_request_binding ch0 = Some b0"
  "child_permissions ch0 = P1" "child_expires_at ch0 = 32000000000"
  by (simp_all add: binding_current_def child_request_binding_chain ch0_def gc0_def child_of_def s0_def
      chain_binding_def List.map_filter_def)

section \<open>The orchestrator\<close>

lemma w_fs_cong:
  "w_files v = w_files w \<Longrightarrow> w_dirs v = w_dirs w \<Longrightarrow> w_links v = w_links w \<Longrightarrow> w_fs v = w_fs w"
proof -
  assume same: "w_files v = w_files w" "w_dirs v = w_dirs w" "w_links v = w_links w"
  then have t: "w_target v = w_target w" by (intro ext) (simp add: w_target_def)
  with same have "w_present v = w_present w" by (intro ext) (simp add: w_present_def)
  with t show ?thesis by (simp add: w_fs_def cong: if_cong)
qed

lemma tb_record:
  "record_event tb tb_os ev (self, w) =
    (let h = hash_entry_fields tb (word_of_nat (w_fresh w)) (w_clock w) ev (o_previous_hash self) in
     (Ok (), self\<lparr>o_previous_hash := h,
        o_audit_log := o_audit_log self @
          [\<lparr>ae_id = word_of_nat (w_fresh w), ae_timestamp = w_clock w, ae_event = ev,
            ae_previous_hash = o_previous_hash self, ae_entry_hash = h\<rparr>]\<rparr>,
      w\<lparr>w_clock := w_clock w + 1000000, w_fresh := w_fresh w + 1\<rparr>))"
  by (simp add: record_event_def chain_entry_eq Let_def)

definition o0 :: "authz_mode \<Rightarrow> tb_biscuit orchestrator" where
  "o0 mode = (let h = hash_entry_fields tb 3 1001000000 (RootMinted 7) (replicate 32 0) in
     \<lparr>o_mode = mode, o_task_id = 7, o_root = root0,
      o_audit_log = [\<lparr>ae_id = 3, ae_timestamp = 1001000000, ae_event = RootMinted 7,
        ae_previous_hash = replicate 32 0, ae_entry_hash = h\<rparr>],
      o_previous_hash = h\<rparr>)"

definition wA :: world where
  "wA = w0\<lparr>w_clock := 1002000000, w_fresh := 4\<rparr>"

lemma started0: "new_orchestrator tb tb_os m0 mode w0 = (Ok (o0 mode), wA)"
proof -
  have "w_fs (w0\<lparr>w_clock := 1001000000\<rparr>) = w_fs w0" by (rule w_fs_cong) simp_all
  moreover have "tm_task_id m0 = 7" "w_clock w0 = 1000000000" "w_fresh w0 = 1"
    by (simp_all add: m0_def w0_def)
  ultimately show ?thesis
    by (simp add: new_orchestrator_def minted0 tb_record o0_def wA_def Let_def)
qed

lemma o0_sel [simp]: "o_mode (o0 mode) = mode" "o_root (o0 mode) = root0" "o_task_id (o0 mode) = 7"
  by (simp_all add: o0_def Let_def)

lemma child_request_within: "request_within (w_fs w0) (child_request P0 b) P0"
proof -
  have "contains_all_roots (w_fs w0) P0 [''/repo''] False" "contains_all_roots (w_fs w0) P0 [''/repo/src''] True"
    by code_simp+
  then show ?thesis
    by (simp add: request_within_def child_request_def P0_def contains_all_exec_iff)
qed

lemma child_request_permissions: "requested_permissions (w_fs w0) (child_request P0 b) = P0"
proof -
  have "btree_collect components (map (resolve_existing_ancestor (w_fs w0)) [''/repo'']) = [''/repo'']"
      "btree_collect components (map (resolve_existing_ancestor (w_fs w0)) [''/repo/src'']) = [''/repo/src'']"
    by code_simp+
  then show ?thesis by (simp add: requested_permissions_def child_request_def P0_def)
qed

definition step_child :: "request_binding \<Rightarrow> datetime \<Rightarrow> tb_biscuit child_capability" where
  "step_child b e = child_of (root_token root0) []
     \<lparr>cv_permissions = P0, cv_expires_at = e, cv_request_binding = Some b\<rparr>"

lemma step_attenuated:
  assumes "0 \<le> now" "now \<le> 50000000000"
  shows "root_attenuate tb (w_fs w0) k root0 (child_request P0 b) now = Ok (step_child b (now + 5000000000))"
proof -
  have ttl: "ar_ttl_seconds (child_request P0 b) = 5" by (simp add: child_request_def CHILD_TTL_SECONDS_def)
  have "checked_expires_at tb now 5 = Ok (now + 5000000000)"
    using assms by (simp add: tb_expires_at)
  with assms attenuate0 [OF child_request_within, of now b "now + 5000000000" k] ttl show ?thesis
    by (simp add: caveat_of_def child_request_permissions step_child_def) (simp add: child_request_def)
qed

lemma step_child_honest:
  assumes "0 \<le> now" "now \<le> 50000000000" "length (argument_hash b) = 32"
  shows "honest tb (\<lambda>b. set (tb_facts b)) tb_root (step_child b (now + 5000000000))"
proof -
  have "descends tb root0 (step_child b (now + 5000000000))"
    by (rule descends.first [OF step_attenuated [OF assms(1,2)]])
  moreover have "encodable tb (last (child_caveats (step_child b (now + 5000000000))))"
    using P1_encodable assms(3) by (simp add: step_child_def child_of_def tb_encodable) (simp add: P0_def)
  ultimately show ?thesis
    unfolding honest_def using tb_biscuit_laws tb_uuid_laws minted0 tb_answers by blast
qed

lemma step_child_sel:
  "binding_current (step_child b e)" "child_request_binding (step_child b e) = Some b"
  "child_permissions (step_child b e) = P0" "child_expires_at (step_child b e) = e"
  by (simp_all add: binding_current_def child_request_binding_chain step_child_def child_of_def
      chain_binding_def List.map_filter_def)

text \<open>A step on this instance, for a call whose decision and effect are known.\<close>

lemma tb_dispatch:
  assumes "w_fs w = w_fs w0" "0 \<le> now" "now \<le> w_clock w" "w_clock w < now + 5000000000" "now \<le> 50000000000"
    and b: "request_binding_for tb (to_request call) n = Ok b"
  shows "dispatch tb tb_os (step_child b (now + 5000000000)) call (Some n) w =
    (case decide (w_fs w0) P0 (to_request call) of
       Allow \<Rightarrow> execute tb_os call (w\<lparr>w_clock := w_clock w + 1000000\<rparr>)
     | Deny reason \<Rightarrow> (Err (DeniedError reason), w\<lparr>w_clock := w_clock w + 1000000\<rparr>))"
proof -
  have len: "length (argument_hash b) = 32"
    using b by (auto simp: request_binding_for_Ok_iff hash_tool_arguments_def)
  have ab: "actual_binding_for tb (to_request call) (Some n) = Ok (Some b)"
    using b by (simp add: actual_binding_for_def)
  have fs: "w_fs (w\<lparr>w_clock := w_clock w + 1000000\<rparr>) = w_fs w0"
    using assms(1) w_fs_cong [of "w\<lparr>w_clock := w_clock w + 1000000\<rparr>" w] by simp
  note auth = honest_authorize [OF step_child_honest [OF assms(2,5) len] ab, of tb_os w, OF tb_os_sel(1)]
  show ?thesis
    using assms auth
    by (simp add: dispatch_def io_bind_def step_child_sel fs split: decision.split)
qed

definition ready :: "tb_biscuit orchestrator \<Rightarrow> world \<Rightarrow> bool" where
  "ready self w \<longleftrightarrow> o_root self = root0 \<and> o_mode self = Enforced \<and> w_fs w = w_fs w0
     \<and> 0 \<le> w_clock w \<and> w_clock w \<le> 50000000000"

lemma tb_step:
  assumes "ready self w"
  shows "\<exists>child n self1. step tb tb_os call (self, w) =
      dispatch_step tb tb_os call child n (self1, w\<lparr>w_clock := w_clock w + 2000000, w_fresh := w_fresh w + 3\<rparr>)
    \<and> dispatch tb tb_os child call (Some n) (w\<lparr>w_clock := w_clock w + 2000000, w_fresh := w_fresh w + 3\<rparr>) =
      (case decide (w_fs w0) P0 (to_request call) of
         Allow \<Rightarrow> execute tb_os call (w\<lparr>w_clock := w_clock w + 3000000, w_fresh := w_fresh w + 3\<rparr>)
       | Deny reason \<Rightarrow>
           (Err (DeniedError reason), w\<lparr>w_clock := w_clock w + 3000000, w_fresh := w_fresh w + 3\<rparr>))"
proof -
  let ?n = "word_of_nat (w_fresh w) :: uuid"
  obtain b where b: "request_binding_for tb (to_request call) ?n = Ok b"
    by (simp add: request_binding_for_def)
  let ?v = "w\<lparr>w_clock := w_clock w + 2000000, w_fresh := w_fresh w + 3\<rparr>"
  let ?child = "step_child b (w_clock w + 5000000000)"
  have fs: "w_fs (w\<lparr>w_clock := t, w_fresh := k\<rparr>) = w_fs w0" for t k
    using assms w_fs_cong [of "w\<lparr>w_clock := t, w_fresh := k\<rparr>" w] by (simp add: ready_def)
  let ?w1 = "w\<lparr>w_clock := w_clock w + 3000000, w_fresh := w_fresh w + 3\<rparr>"
  have w1: "?v\<lparr>w_clock := w_clock ?v + 1000000\<rparr> = ?w1" by simp
  have "dispatch tb tb_os ?child call (Some ?n) ?v =
      (case decide (w_fs w0) P0 (to_request call) of
         Allow \<Rightarrow> execute tb_os call (?v\<lparr>w_clock := w_clock ?v + 1000000\<rparr>)
       | Deny reason \<Rightarrow> (Err (DeniedError reason), ?v\<lparr>w_clock := w_clock ?v + 1000000\<rparr>))"
    using assms b by (intro tb_dispatch) (simp_all add: ready_def fs)
  then have "dispatch tb tb_os ?child call (Some ?n) ?v =
      (case decide (w_fs w0) P0 (to_request call) of
         Allow \<Rightarrow> execute tb_os call ?w1 | Deny reason \<Rightarrow> (Err (DeniedError reason), ?w1))"
    unfolding w1 .
  moreover have "\<exists>self1. step tb tb_os call (self, w) = dispatch_step tb tb_os call ?child ?n (self1, ?v)"
  proof -
    have att: "root_attenuate tb (w_fs w0) k root0 (child_request P0 b) (w_clock w) = Ok ?child" for k
      using assms by (intro step_attenuated) (simp_all add: ready_def)
    have "root_permissions root0 = P0" by (simp add: root0_def)
    with assms b att show ?thesis
      by (simp add: step_def step_enforced_def ready_def fs record_then tb_record Let_def eval_nat_numeral ac_simps) blast
  qed
  ultimately show ?thesis by blast
qed

text \<open>The outcome of a step, and that the orchestrator is ready for the next.\<close>

lemma tb_step_denied:
  assumes "ready self w" "decide (w_fs w0) P0 (to_request call) = Deny reason"
  shows "fst (step tb tb_os call (self, w)) = Ok \<lparr>so_call = call, so_decision = Denied reason\<rparr>"
  using tb_step [OF assms(1), of call] assms(2)
  by (auto simp: dispatch_step_def deny_def record_then io_lift_def)

lemma tb_step_allowed:
  assumes "ready self w" "decide (w_fs w0) P0 (to_request call) = Allow"
    and "\<And>t k. fst (execute tb_os call (w\<lparr>w_clock := t, w_fresh := k\<rparr>)) = Ok out"
  shows "fst (step tb tb_os call (self, w)) = Ok \<lparr>so_call = call, so_decision = Allowed out\<rparr>"
proof -
  let ?w1 = "w\<lparr>w_clock := w_clock w + 3000000, w_fresh := w_fresh w + 3\<rparr>"
  obtain w2 where "execute tb_os call ?w1 = (Ok out, w2)"
    using assms(3) [where t = "w_clock w + 3000000" and k = "w_fresh w + 3"] by (metis prod.collapse)
  with tb_step [OF assms(1), of call] assms(2) show ?thesis
    by (auto simp: dispatch_step_def record_then io_lift_def)
qed

lemma ready0: "ready (o0 Enforced) wA"
proof -
  have "w_fs wA = w_fs w0" by (rule w_fs_cong) (simp_all add: wA_def)
  then show ?thesis by (simp add: ready_def) (simp add: wA_def)
qed

lemma demo_decisions:
  "decide (w_fs w0) P0 (to_request (FsRead ''/repo/a'')) = Allow"
  "decide (w_fs w0) P0 (to_request (FsRead ''/repo/link'')) = Deny ''read path is outside capability scope''"
  "decide (w_fs w0) P0 (to_request (NetworkCall h p s)) = Deny ''network policy denies all egress''"
  by (code_simp, code_simp, simp add: decide_simps)

lemma demo_read:
  "fst (step tb tb_os (FsRead ''/repo/a'') (o0 Enforced, wA))
    = Ok \<lparr>so_call = FsRead ''/repo/a'', so_decision = Allowed (ReadOutput ''hello'')\<rparr>"
proof (rule tb_step_allowed [OF ready0 demo_decisions(1)])
  fix t k
  have "w_files wA = w_files w0" "w_links wA = w_links w0" by (simp_all add: wA_def)
  then show "fst (execute tb_os (FsRead ''/repo/a'') (wA\<lparr>w_clock := t, w_fresh := k\<rparr>)) = Ok (ReadOutput ''hello'')"
    by (simp add: execute_def tb_os_def io_bind_def io_map_err_def io_lift_def w_target_def w0_def wA_def)
qed

lemma demo_refused:
  "fst (step tb tb_os (FsRead ''/repo/link'') (o0 Enforced, wA))
    = Ok \<lparr>so_call = FsRead ''/repo/link'', so_decision = Denied ''read path is outside capability scope''\<rparr>"
  "fst (step tb tb_os (NetworkCall h p s) (o0 Enforced, wA))
    = Ok \<lparr>so_call = NetworkCall h p s, so_decision = Denied ''network policy denies all egress''\<rparr>"
  by (rule tb_step_denied [OF ready0 demo_decisions(2)], rule tb_step_denied [OF ready0 demo_decisions(3)])

end
