(* ===== verification/Props_Authority.thy ===== *)
theory Props_Authority
  imports Scenario
begin

text \<open>
  The properties of paths, manifests, permission sets, decisions and attenuations, each with a
  witness on the concrete instance.
\<close>

section \<open>Manifests\<close>

text \<open>Validation accepts a manifest exactly when its time to live is not zero, the repository
  root and all its roots are safe absolute paths, and the repository root is among the readable
  roots; and an accepted manifest always yields a permission set, whose roots and binaries are
  ordered sets.\<close>

theorem validated_manifest_has_permissions:
  "(validate m = Ok () \<longleftrightarrow>
      tm_ttl_seconds m \<noteq> 0 \<and> \<not> unsafe_path (repo_root m)
      \<and> (\<forall>p \<in> set (fp_readable_roots (filesystem m)). \<not> unsafe_path p)
      \<and> (\<forall>p \<in> set (fp_writable_roots (filesystem m)). \<not> unsafe_path p)
      \<and> (\<exists>p \<in> set (fp_readable_roots (filesystem m)). path_eq p (repo_root m)))
   \<and> (validate m = Ok () \<longrightarrow> (\<exists>P. from_manifest fs m = Ok P \<and> permissions_ok P))"
  using validate_Ok_iff [of m "()"] from_manifest_validated [of m "()" fs] from_manifest_ok [of fs m] by blast

theorem validated_manifest_has_permissions_witness:
  "\<exists>P. from_manifest (w_fs w0) m0 = Ok P \<and> permissions_ok P"
  using validated_manifest_has_permissions [of m0 "w_fs w0"] P0_permissions(1) by blast

text \<open>Validation reports the first problem it meets, in the order: zero time to live, the
  repository root, the readable roots, the writable roots, the missing repository root; it never
  panics.\<close>

theorem validate_first_error:
  "validate m =
     (if tm_ttl_seconds m = 0 then Err EmptyTtl
      else case List.find unsafe_path
             (repo_root m # fp_readable_roots (filesystem m) @ fp_writable_roots (filesystem m)) of
             Some p \<Rightarrow> Err (ManifestUnsafePath p)
           | None \<Rightarrow>
               if \<exists>p \<in> set (fp_readable_roots (filesystem m)). path_eq p (repo_root m) then Ok ()
               else Err RepoRootNotReadable)"
proof -
  have find_append: "List.find f (xs @ ys) = (case List.find f xs of Some x \<Rightarrow> Some x | None \<Rightarrow> List.find f ys)"
    for f :: "path \<Rightarrow> bool" and xs ys
    by (induction xs) auto
  show ?thesis
    by (auto simp: validate_def validate_safe_absolute_path_def validate_paths_eq find_append list_ex_iff
        split: option.splits)
qed

section \<open>Path resolution\<close>

text \<open>C21: The loop that resolves a safe path computes the canonical form of the deepest ancestor that
  exists, with the names below it appended unchanged; if nothing exists, the path itself.\<close>

theorem resolution_is_deepest_ancestor:
  assumes "\<not> unsafe_path p"
  shows "resolve_existing_ancestor fs p = deepest_ancestor_form fs p"
  using assms by (rule resolve_deepest_ancestor)

theorem resolution_is_deepest_ancestor_witness:
  "resolve_existing_ancestor (w_fs w0) ''/repo/src/x'' = deepest_ancestor_form (w_fs w0) ''/repo/src/x''"
proof -
  have "\<not> unsafe_path ''/repo/src/x''" by code_simp
  then show ?thesis by (rule resolution_is_deepest_ancestor)
qed

text \<open>C20: A path that exists and is allowed leads, after all symbolic links, to a place under a root of
  the permission set: readable for reads, writable for writes.\<close>

theorem allowed_target_under_root:
  assumes "fs_exists fs p" "fs_canonicalize fs p = Some q"
  shows "(decide fs P (Read p) = Allow \<longrightarrow> (\<exists>r \<in> set (readable_roots P). path_starts_with q r))
    \<and> (decide fs P (Write p) = Allow \<longrightarrow> (\<exists>r \<in> set (writable_roots P). path_starts_with q r))"
  using decide_read_target [OF _ assms] decide_write_target [OF _ assms]
  by (simp add: path_starts_with_def)

theorem allowed_target_under_root_witness:
  "decide (w_fs w0) P0 (Read ''/repo/link'') \<noteq> Allow"
proof -
  have "fs_exists (w_fs w0) ''/repo/link''" "fs_canonicalize (w_fs w0) ''/repo/link'' = Some ''/etc/key''"
      "\<not> (\<exists>r \<in> set (readable_roots P0). path_starts_with ''/etc/key'' r)"
    by code_simp+
  with allowed_target_under_root [of "w_fs w0" "''/repo/link''" "''/etc/key''" P0] show ?thesis by blast
qed

text \<open>C22: A link whose target does not exist counts as a path that does not exist: when the
  directory that holds it is canonical and under a writable root, writing to the link is allowed,
  wherever it points.\<close>

theorem dangling_link_is_writable:
  assumes "normal_name n" "\<not> fs_exists fs (d @ CHR ''/'' # n)"
    and "path_parent (d @ CHR ''/'' # n) = Some d" "fs_exists fs d" "fs_canonicalize fs d = Some d"
    and "\<not> unsafe_path (d @ CHR ''/'' # n)" "r \<in> set (writable_roots P)" "path_starts_with d r" "d \<noteq> []"
  shows "decide fs P (Write (d @ CHR ''/'' # n)) = Allow"
proof -
  have cs: "components (d @ CHR ''/'' # n) = components d @ [Normal n]"
    by (rule components_append_slash [OF assms(9,1)])
  then have "file_name (d @ CHR ''/'' # n) = Some n" by (rule file_name_plain)
  with assms have "resolve_existing_ancestor fs (d @ CHR ''/'' # n) = path_push d n"
    by (simp add: resolve_existing_ancestor_def resolve_loop.simps [of fs _ "d @ CHR ''/'' # n"]
        resolve_loop.simps [of fs _ d] canonical_form_def)
  moreover have "path_starts_with (path_push d n) r"
    using assms(1,8) by (simp add: path_starts_with_def)
  ultimately show ?thesis using assms(6,7) by (auto simp: decide_simps allows_write_iff)
qed

theorem dangling_link_is_writable_witness:
  "decide (w_fs (w0\<lparr>w_links := [(''/repo/src/out'', ''/etc/new'')]\<rparr>)) P0 (Write ''/repo/src/out'') = Allow"
proof -
  let ?fs = "w_fs (w0\<lparr>w_links := [(''/repo/src/out'', ''/etc/new'')]\<rparr>)"
  have "normal_name ''out''" "\<not> fs_exists ?fs (''/repo/src'' @ CHR ''/'' # ''out'')"
      "path_parent (''/repo/src'' @ CHR ''/'' # ''out'') = Some ''/repo/src''" "fs_exists ?fs ''/repo/src''"
      "fs_canonicalize ?fs ''/repo/src'' = Some ''/repo/src''"
      "\<not> unsafe_path (''/repo/src'' @ CHR ''/'' # ''out'')" "''/repo/src'' \<in> set (writable_roots P0)"
      "path_starts_with ''/repo/src'' ''/repo/src''"
    by code_simp+
  from dangling_link_is_writable [OF this] show ?thesis by simp
qed

section \<open>Decisions\<close>


section \<open>The linter\<close>

text \<open>The linter is exact for permission sets with absolute roots.  A finding means that every
  safe path is readable; without a finding, in a file system whose root directory has finitely
  many entries, some safe path is refused.\<close>

theorem linter_exact:
  assumes "canonical_absolute fs" "list_all is_absolute (readable_roots P)"
    and "fs_exists fs ''/''" "fs_canonicalize fs ''/'' = Some ''/''"
    and "finite {n. fs_exists fs (CHR ''/'' # n)}"
  shows "lint P \<noteq> [] \<longleftrightarrow> (\<forall>p. \<not> unsafe_path p \<longrightarrow> decide fs P (Read p) = Allow)"
  using lint_allows_all [OF _ assms(1)] no_lint_refuses [OF _ assms(2-5)] by blast

theorem linter_exact_witness:
  "\<exists>p. \<not> unsafe_path p \<and> decide (w_fs w0) P0 (Read p) \<noteq> Allow"
proof -
  have targets: "w_present w0 p \<Longrightarrow> w_target w0 p \<in> set [''/'', ''/repo'', ''/repo/src'', ''/etc'', ''/repo/a'', ''/etc/key'']" for p
    by (auto simp: w_present_def w0_def)
  have "canonical_absolute (w_fs w0)"
    unfolding canonical_absolute_def
  proof (intro allI impI)
    fix p q assume "fs_canonicalize (w_fs w0) p = Some q"
    then have "q \<in> set [''/'', ''/repo'', ''/repo/src'', ''/etc'', ''/repo/a'', ''/etc/key'']"
      using targets by (auto simp: w_fs_def split: if_splits)
    moreover have "list_all (\<lambda>q. is_absolute q \<and> CurDir \<notin> set (components q) \<and> ParentDir \<notin> set (components q))
        [''/'', ''/repo'', ''/repo/src'', ''/etc'', ''/repo/a'', ''/etc/key'']"
      by code_simp
    ultimately show "plain_components (components q)" by (auto simp: plain_components_iff list_all_iff)
  qed
  moreover have "finite {n. fs_exists (w_fs w0) (CHR ''/'' # n)}"
  proof (rule finite_subset)
    have "CHR ''/'' # n = w_target w0 (CHR ''/'' # n) \<or> CHR ''/'' # n = ''/repo/link''" for n
      by (auto simp: w_target_def w0_def)
    then have "CHR ''/'' # n \<in> set [''/'', ''/repo'', ''/repo/src'', ''/etc'', ''/repo/a'', ''/etc/key'', ''/repo/link'']"
      if "w_present w0 (CHR ''/'' # n)" for n
      using targets [OF that] by (metis insert_iff list.simps(15))
    then have "tl (CHR ''/'' # n) \<in> tl ` set [''/'', ''/repo'', ''/repo/src'', ''/etc'', ''/repo/a'', ''/etc/key'', ''/repo/link'']"
      if "w_present w0 (CHR ''/'' # n)" for n
      using that by (intro imageI)
    then show "{n. fs_exists (w_fs w0) (CHR ''/'' # n)}
        \<subseteq> tl ` set [''/'', ''/repo'', ''/repo/src'', ''/etc'', ''/repo/a'', ''/etc/key'', ''/repo/link'']"
      by (auto simp only: w_fs_def fs_view.simps list.sel mem_Collect_eq)
  qed simp
  moreover have "list_all is_absolute (readable_roots P0)" "fs_exists (w_fs w0) ''/''"
      "fs_canonicalize (w_fs w0) ''/'' = Some ''/''" "lint P0 = []"
    by code_simp+
  ultimately show ?thesis using linter_exact [of "w_fs w0" P0] by blast
qed

end
