(* ===== verification/Props_Token.thy ===== *)
theory Props_Token
  imports Scenario
begin

text \<open>
  The properties of attenuation, of tokens and of their verification, each with a witness on the
  concrete instance.
\<close>

section \<open>Attenuation\<close>

text \<open>C9: Attenuating a root or a child narrows it: the child's permissions are those the request
  resolves to, they lie within the parent's, the child expires at the requested time and not after
  the parent, its task and root key are the parent's, and its history is the parent's plus one
  caveat that mirrors the child.\<close>

theorem attenuation_narrows:
  "(root_attenuate c fs k x r now = Ok ch \<longrightarrow>
      child_permissions ch = requested_permissions fs r \<and> narrower (child_permissions ch) (root_permissions x)
      \<and> checked_expires_at c now (ar_ttl_seconds r) = Ok (child_expires_at ch)
      \<and> child_expires_at ch \<le> root_expires_at x \<and> child_task_id ch = root_task_id x
      \<and> child_root_public_key ch = root_root_public_key x
      \<and> child_caveats ch = [\<lparr>cv_permissions = child_permissions ch, cv_expires_at = child_expires_at ch,
          cv_request_binding = ar_request_binding r\<rparr>])
   \<and> (child_attenuate c fs k y r now = Ok ch \<longrightarrow>
      child_permissions ch = requested_permissions fs r \<and> narrower (child_permissions ch) (child_permissions y)
      \<and> checked_expires_at c now (ar_ttl_seconds r) = Ok (child_expires_at ch)
      \<and> child_expires_at ch \<le> child_expires_at y \<and> child_task_id ch = child_task_id y
      \<and> child_root_public_key ch = child_root_public_key y
      \<and> child_caveats ch = child_caveats y @ [\<lparr>cv_permissions = child_permissions ch,
          cv_expires_at = child_expires_at ch, cv_request_binding = ar_request_binding r\<rparr>])"
  using root_att.attenuate_Ok [of c fs k x r now ch] root_att.attenuate_narrows [of c fs k x r now ch]
    child_att.attenuate_Ok [of c fs k y r now ch] child_att.attenuate_narrows [of c fs k y r now ch]
  by simp

theorem attenuation_narrows_witness:
  "narrower (child_permissions ch0) (root_permissions root0)
   \<and> narrower (child_permissions gc0) (child_permissions ch0)"
  using attenuation_narrows [of tb "w_fs w0" "[]" root0 "r0 (Some b0)" 2000000000 ch0 ch0]
    attenuation_narrows [of tb "w_fs w0" "[]" root0 "r0 None" 2000000000 gc0 ch0]
    attenuated0 reattenuated0 by blast

text \<open>A request that asks for anything outside its parent yields no child: reads, writes and
  binaries are checked in this order, each with its own error, before the time to live.\<close>

theorem attenuation_refuses_widening:
  assumes "\<not> request_within fs r (root_permissions x)"
  shows "root_attenuate c fs k x r now = Err
    (if \<not> contains_all_roots fs (root_permissions x) (ar_readable_roots r) False then ReadScopeWidened
     else if \<not> contains_all_roots fs (root_permissions x) (ar_writable_roots r) True then WriteScopeWidened
     else ExecScopeWidened)"
  using assms root_att.attenuate_refuses_read [of fs x r c k now]
    root_att.attenuate_refuses_write [of fs x r c k now] root_att.attenuate_refuses_exec [of fs x r c k now]
  by (auto simp: request_within_def)

theorem attenuation_refuses_widening_witness:
  "root_attenuate tb (w_fs w0) [] root0 ((r0 None)\<lparr>ar_readable_roots := [''/repo/link'']\<rparr>) 0 = Err ReadScopeWidened"
proof -
  have "\<not> contains_all_roots (w_fs w0) P0 [''/repo/link''] False" by code_simp
  then have "\<not> contains_all_roots (w_fs w0) (root_permissions root0)
      (ar_readable_roots ((r0 None)\<lparr>ar_readable_roots := [''/repo/link'']\<rparr>)) False"
    by (simp add: root0_def)
  then show ?thesis
    using attenuation_refuses_widening
      [of "w_fs w0" "(r0 None)\<lparr>ar_readable_roots := [''/repo/link'']\<rparr>" root0 tb "[]" 0]
    by (simp add: request_within_def)
qed

text \<open>C19: The expiry of a time to live, on every \<open>u64\<close>: a value beyond the range of \<open>i64\<close> is the
  overflow error, one that chrono's \<open>Duration::seconds\<close> does not take is a panic, and otherwise the
  sum is returned when it is representable, the overflow error when it is not.\<close>

theorem expiry_on_every_ttl:
  assumes "chrono_laws c lo hi"
  shows "checked_expires_at c now ttl =
    (let s = int (unat ttl) in
     if 2 ^ 63 \<le> s then Err TtlOverflow
     else if max_delta_seconds < s then Panic
     else if lo \<le> now + s * 1000000000 \<and> now + s * 1000000000 \<le> hi
       then Ok (now + s * 1000000000)
     else Err TtlOverflow)"
  using assms by (rule checked_expires_at_cases)

theorem expiry_on_every_ttl_witness:
  "checked_expires_at tb 0 9223372036854775807 = Panic"
  using expiry_on_every_ttl [OF tb_chrono_laws, of 0 9223372036854775807]
  by (simp add: Let_def max_delta_seconds_def)

text \<open>C10: However often a root is attenuated, and however the file system changes in between, a
  descendant is allowed nothing the root is not allowed in the same file system, and expires no
  later.\<close>

theorem descendants_within_root:
  assumes "descends c root ch"
  shows "(decide fs (child_permissions ch) req = Allow \<longrightarrow> decide fs (root_permissions root) req = Allow)
    \<and> child_expires_at ch \<le> root_expires_at root"
  using descends_within [OF assms] pdp.permits_mono by blast

theorem descendants_within_root_witness:
  "decide (w_fs w0) (child_permissions gc0) (Read ''/etc/key'') \<noteq> Allow"
proof -
  have "decide (w_fs w0) P0 (Read ''/etc/key'') \<noteq> Allow" by code_simp
  then show ?thesis
    using descendants_within_root [OF descends0(2), of "w_fs w0" "Read ''/etc/key''"] by (simp add: root0_def)
qed

section \<open>Tokens\<close>

text \<open>The encodings inside a token are inverted by its decoder: Datalog string escaping by the
  literal syntax, the hexadecimal form of a hash, and the network policy.\<close>

theorem token_text_round_trips:
  "literal_value (escape s) = Some s
   \<and> (length h = 32 \<longrightarrow> decode_hex32 (encode_hex h) = Some h)
   \<and> (decode_hex32 x = Some h \<longrightarrow> length h = 32)
   \<and> parse_network (network_to_str n) = Ok n"
  using escape_codec.dec_enc [of s] hash_codec.dec_enc [of h] decode_hex32_length [of x h]
  by (cases n) (simp add: parse_network_def)

theorem token_text_round_trips_witness:
  "decode_hex32 (encode_hex (replicate 32 171)) = Some (replicate 32 171)"
  using token_text_round_trips [of "[]" "replicate 32 171"] by simp

text \<open>C18: The token of a freshly minted root decodes, under the root's key, to the task, the
  permissions and the expiry that were minted, and to no request binding.\<close>

theorem minted_token_decodes:
  assumes "biscuit_laws c facts root_of" "uuid_laws c" "mint c fs kp nk m now = Ok root"
    and "public_key_from_bytes c (root_root_public_key root) = Ok pk"
    and "token_answers c (root_token root)" "encodable c (root_caveat root)"
  shows "\<exists>d. decode_state c (root_token root) pk = Ok d \<and> ds_task_id d = tm_task_id m
    \<and> permissions_eq (ds_permissions d) (root_permissions root)
    \<and> ds_expires_at d = root_expires_at root \<and> ds_request_binding d = None"
proof -
  obtain b where b: "biscuit_to_vec c b = Ok (root_token root)"
      "facts b = token_facts c (root_task_id root) ([] @ [root_caveat root])" "pk = root_of b"
    using mint_holds [OF assms(1-3)] assms(4) by (auto simp: token_holds_def)
  then have opened: "biscuit_from c (root_token root) pk = Ok b"
    by (simp add: biscuit_laws_from(1) [OF assms(1)])
  with assms(5) have "biscuit_answers c b" by (auto simp: token_answers_def)
  from decode_state_chain [OF assms(1,2) opened this b(2) assms(6)] assms(3)
  show ?thesis by (auto simp: mint_Ok_iff root_caveat_def)
qed

theorem minted_token_decodes_witness:
  "\<exists>d. decode_state tb (root_token root0) [1] = Ok d \<and> permissions_eq (ds_permissions d) P0"
proof -
  have "encodable tb (root_caveat root0)"
    using P1_encodable by (simp add: tb_encodable root_caveat_def root0_def) (simp add: P0_def)
  from minted_token_decodes [OF tb_biscuit_laws tb_uuid_laws minted0 _ tb_answers(2) this, of "[1]"]
  show ?thesis by (auto simp: root0_def)
qed

section \<open>Verification\<close>

text \<open>An honest capability verifies, to the state of its latest caveat, exactly when the binding
  its struct reports is that of its latest caveat; otherwise it is rejected as tampered with.\<close>

theorem honest_capability_verifies:
  assumes "honest c facts root_of ch"
  shows "if binding_current ch
         then \<exists>v. verify_and_decode c ch = Ok v \<and> vs_task_id v = child_task_id ch
           \<and> permissions_eq (vs_permissions v) (child_permissions ch)
           \<and> vs_expires_at v = child_expires_at ch \<and> vs_request_binding v = child_request_binding ch
         else verify_and_decode c ch = Err TokenStateMismatch"
  using assms by (rule honest_verify)

theorem honest_capability_verifies_witness:
  "\<exists>v. verify_and_decode tb ch0 = Ok v \<and> vs_request_binding v = Some b0"
  using honest_capability_verifies [OF honest0(1)] by (auto simp: bindings0)

text \<open>C16: Re-attenuating a request-bound child without a binding gives a capability that was never
  tampered with and that no verification accepts: the enforcement point reports it as tampered.\<close>

theorem unbound_grandchild_is_rejected:
  assumes "honest c facts root_of ch'" "child_attenuate c fs k ch r now' = Ok ch'"
    and "child_request_binding ch \<noteq> None" "ar_request_binding r = None"
  shows "verify c ch' now ab = Err StateTampered"
proof -
  from assms(2-4) child_attenuate_validated(3) [OF assms(2)]
  have "\<not> binding_current ch'"
    by (auto simp: binding_current_def child_request_binding_chain)
  with honest_verify [OF assms(1)] have "verify_and_decode c ch' = Err TokenStateMismatch" by simp
  from verify_of_error [OF this] show ?thesis by (simp add: verification_error_of_def)
qed

theorem unbound_grandchild_is_rejected_witness:
  "verify tb gc0 0 (Some b0) = Err StateTampered"
proof (rule unbound_grandchild_is_rejected [OF honest0(2) reattenuated0])
  show "child_request_binding ch0 \<noteq> None" by (simp add: bindings0)
  show "ar_request_binding (r0 None) = None" by (simp add: r0_def)
qed

text \<open>C11: A struct around an honest token is accepted exactly when its permissions, expiry and
  binding mirror the last caveat of the token; a struct changed in any of them after signing is
  rejected, and what is accepted carries the token's task.\<close>

theorem tampered_struct_is_rejected:
  assumes "biscuit_laws c facts root_of" "uuid_laws c"
    and "token_holds c facts root_of (child_token ch) (child_root_public_key ch) u (cvs @ [s])"
    and "token_answers c (child_token ch)" "encodable c s"
  shows "if mirrors ch s then \<exists>v. verify_and_decode c ch = Ok v \<and> state_of u s v
         else verify_and_decode c ch = Err TokenStateMismatch"
  using assms by (rule verify_token_holds)

theorem tampered_struct_is_rejected_witness:
  "verify_and_decode tb (ch0\<lparr>child_permissions := P0\<rparr>) = Err TokenStateMismatch"
proof -
  have holds: "token_holds tb (\<lambda>b. set (tb_facts b)) tb_root (child_token ch0) (child_root_public_key ch0) 7
      ([root_caveat root0] @ [s0 (Some b0)])"
    using descends_holds [OF tb_biscuit_laws tb_uuid_laws minted0 descends0(1)]
    by (simp add: ch0_def child_of_def)
  moreover have "\<not> mirrors (ch0\<lparr>child_permissions := P0\<rparr>) (s0 (Some b0))"
    by (simp add: mirrors_def s0_def permissions_eq_def P0_def P1_def)
  moreover from holds have "token_holds tb (\<lambda>b. set (tb_facts b)) tb_root
      (child_token (ch0\<lparr>child_permissions := P0\<rparr>)) (child_root_public_key (ch0\<lparr>child_permissions := P0\<rparr>)) 7
      ([root_caveat root0] @ [s0 (Some b0)])"
    by simp
  ultimately show ?thesis
    using tampered_struct_is_rejected [OF tb_biscuit_laws tb_uuid_laws _ tb_answers(2) s0_encodable(2),
        of "ch0\<lparr>child_permissions := P0\<rparr>" 7 "[root_caveat root0]"]
    by simp
qed

text \<open>A token is accepted under the root key it was signed with and under no other.\<close>

theorem wrong_root_key_is_rejected:
  assumes "biscuit_laws c facts root_of"
    and "token_holds c facts root_of (child_token ch) key u cvs"
    and "public_key_from_bytes c (child_root_public_key ch) \<noteq> public_key_from_bytes c key"
  shows "verify c ch now ab \<noteq> Ok v"
  using verify_wrong_key [OF assms] by (simp add: verify_Ok_iff)

theorem wrong_root_key_is_rejected_witness:
  "\<nexists>v. verify tb (ch0\<lparr>child_root_public_key := [2]\<rparr>) 0 (Some b0) = Ok v"
proof -
  have "token_holds tb (\<lambda>b. set (tb_facts b)) tb_root (child_token (ch0\<lparr>child_root_public_key := [2]\<rparr>)) [1] 7
      (root_caveat root0 # child_caveats ch0)"
    using descends_holds [OF tb_biscuit_laws tb_uuid_laws minted0 descends0(1)]
    by (simp add: ch0_def child_of_def root0_def)
  from wrong_root_key_is_rejected [OF tb_biscuit_laws this] show ?thesis by simp
qed

text \<open>C17: Appending a block to a token needs no secret.  Whoever holds the token of a capability can
  append a block with any permissions, any expiry and no binding, wrap it in a struct that mirrors
  it, and the verifier reports that block as the authority of the token, however wide it is.\<close>

theorem appended_block_is_believed:
  assumes "biscuit_laws c facts root_of" "uuid_laws c"
    and "token_holds c facts root_of tok key u cvs" "public_key_from_bytes c key = Ok pk"
    and "append_block c nk tok pk (int (length cvs)) (cv_permissions s) (cv_expires_at s) (cv_request_binding s)
          = Ok tok'"
    and "token_answers c tok'" "encodable c s"
  shows "\<exists>v. verify_and_decode c
      \<lparr>child_task_id = w, child_permissions = cv_permissions s, child_expires_at = cv_expires_at s,
       child_caveats = [s], child_token = tok', child_root_public_key = key\<rparr> = Ok v
    \<and> vs_task_id v = u \<and> permissions_eq (vs_permissions v) (cv_permissions s)
    \<and> vs_expires_at v = cv_expires_at s \<and> vs_request_binding v = cv_request_binding s"
  using verify_appended [OF assms] by (simp add: state_of_def)

theorem appended_block_is_believed_witness:
  "\<exists>tok' v. append_block tb [] (child_token ch0) [1] 2 (P0\<lparr>readable_roots := [''/'']\<rparr>) 90000000000 None = Ok tok'
    \<and> verify_and_decode tb
      \<lparr>child_task_id = 0, child_permissions = P0\<lparr>readable_roots := [''/'']\<rparr>, child_expires_at = 90000000000,
       child_caveats = [\<lparr>cv_permissions = P0\<lparr>readable_roots := [''/'']\<rparr>, cv_expires_at = 90000000000,
         cv_request_binding = None\<rparr>], child_token = tok', child_root_public_key = [1]\<rparr> = Ok v
    \<and> vs_expires_at v = 90000000000 \<and> \<not> narrower (P0\<lparr>readable_roots := [''/'']\<rparr>) (child_permissions ch0)"
proof -
  let ?P = "P0\<lparr>readable_roots := [''/'']\<rparr>"
  let ?s = "\<lparr>cv_permissions = ?P, cv_expires_at = 90000000000, cv_request_binding = None\<rparr>"
  have holds: "token_holds tb (\<lambda>b. set (tb_facts b)) tb_root (child_token ch0) [1] 7 (root_caveat root0 # child_caveats ch0)"
    using descends_holds [OF tb_biscuit_laws tb_uuid_laws minted0 descends0(1)]
    by (simp add: ch0_def child_of_def root0_def)
  have "tb_root (child_token ch0) = [1]" "length (root_caveat root0 # child_caveats ch0) = 2"
    by (simp_all add: ch0_def child_of_def root0_def)
  with tb_append [of "[]" "child_token ch0" 2 ?P 90000000000 None] obtain tok' where
    tok': "append_block tb [] (child_token ch0) [1] 2 ?P 90000000000 None = Ok tok'" by simp
  have "permissions_ok ?P" "utf8_valid ''/''" using P1_encodable(4) by (simp_all add: permissions_ok_def btree_ok_def) code_simp
  with P1_encodable have enc: "encodable tb ?s" by (auto simp: tb_encodable P0_def)
  have "\<not> narrower ?P P1" by code_simp
  with appended_block_is_believed [OF tb_biscuit_laws tb_uuid_laws holds, of "[1]" "[]" ?s tok' 0]
    tok' enc tb_answers(2) \<open>length _ = 2\<close>
  show ?thesis by (auto simp: bindings0)
qed

end
