(* ===== verification/Props_Tools.thy ===== *)
theory Props_Tools
  imports Scenario
begin

text \<open>
  The properties of the tools and of the audit log, each with a witness on the concrete instance.
\<close>

section \<open>Authorization\<close>

lemma inj_on_pair: "f x \<noteq> f y \<Longrightarrow> inj_on f {x, y}"
  by (auto simp: inj_on_def)

lemma read0_allowed:
  "authorize_only tb tb_os ch0 (Read ''/repo/src'') (Some 9) w0 = (Ok (), w0\<lparr>w_clock := 1001000000\<rparr>)"
proof -
  have "decide (w_fs w0) P1 (Read ''/repo/src'') = Allow" by code_simp
  moreover have "w_fs (w0\<lparr>w_clock := t\<rparr>) = w_fs w0" for t by (rule w_fs_cong) simp_all
  moreover have "actual_binding_for tb (Read ''/repo/src'') (Some 9) = Ok (Some b0)"
    by (simp add: actual_binding_for_def bound0)
  moreover have "os_now tb_os w0 = (1000000000, w0\<lparr>w_clock := 1001000000\<rparr>)" by (simp add: w0_def)
  ultimately show ?thesis
    by (simp only: honest_authorize [OF honest0(1)] bindings0) simp
qed

text \<open>C6: The verdict on an honest capability, on every branch and in this order: a binding that
  its latest block does not carry is tampering, then the expiry, then the binding of the actual
  call, then the decision over the capability's permissions in the current file system; the only
  effect is one reading of the clock.\<close>

theorem authorization_verdict:
  assumes "honest c facts root_of ch" "actual_binding_for c req n_opt = Ok ab" "os_now os w = (t, w1)"
  shows "authorize_only c os ch req n_opt w =
    (if \<not> binding_current ch then Err (Verification StateTampered)
     else if child_expires_at ch \<le> t then Err (Verification Expired)
     else if child_request_binding ch \<noteq> None \<and> ab \<noteq> child_request_binding ch
       then Err (Verification RequestBindingMismatch)
     else (case decide (os_fs os w1) (child_permissions ch) req of
             Allow \<Rightarrow> Ok () | Deny reason \<Rightarrow> Err (DeniedError reason)), w1)"
  using assms by (rule honest_authorize)

theorem authorization_verdict_witness:
  "fst (authorize_only tb tb_os ch0 (Read ''/repo/src'') None w0) = Err (Verification RequestBindingMismatch)
   \<and> fst (authorize_only tb tb_os ch0 (Read ''/repo/src'') (Some 9) (w0\<lparr>w_clock := 32000000000\<rparr>))
       = Err (Verification Expired)
   \<and> fst (authorize_only tb tb_os gc0 (Read ''/repo/src'') (Some 9) w0) = Err (Verification StateTampered)"
proof -
  have "actual_binding_for tb (Read ''/repo/src'') None = Ok None"
      "actual_binding_for tb (Read ''/repo/src'') (Some 9) = Ok (Some b0)"
    by (simp_all add: actual_binding_for_def bound0)
  note bound = this
  have clock: "w_clock w0 = 1000000000" by (simp add: w0_def)
  note v = authorization_verdict [OF honest0(1) bound(1) tb_os_sel(1), of w0]
    authorization_verdict [OF honest0(1) bound(2) tb_os_sel(1), of "w0\<lparr>w_clock := 32000000000\<rparr>"]
    authorization_verdict [OF honest0(2) bound(2) tb_os_sel(1), of w0]
  show ?thesis by (simp add: v bindings0 clock)
qed

text \<open>C7: Whatever a capability's history, authorization is sound: an accepted request is allowed by
  the permissions the struct shows, at a time before the expiry it shows, and a bound capability
  accepts only a call whose name, arguments and nonce give exactly its binding.  Network requests
  are never accepted.\<close>

theorem authorization_is_sound:
  assumes "authorize_only c os ch req n_opt w = (Ok u, w')"
  shows "(\<exists>now. os_now os w = (now, w') \<and> now < child_expires_at ch)
    \<and> decide (os_fs os w') (child_permissions ch) req = Allow
    \<and> (\<forall>b. child_request_binding ch = Some b \<longrightarrow> (\<exists>n. n_opt = Some n \<and> request_binding_for c req n = Ok b))
    \<and> req \<noteq> Network"
  using authorize_only_sound [OF assms] authorize_only_network [of c os ch n_opt w u w'] assms by auto

theorem authorization_is_sound_witness:
  "decide (os_fs tb_os (w0\<lparr>w_clock := 1001000000\<rparr>)) (child_permissions ch0) (Read ''/repo/src'') = Allow
   \<and> request_binding_for tb (Read ''/repo/src'') 9 = Ok b0"
  using authorization_is_sound [OF read0_allowed] by (auto simp: bindings0)

text \<open>C8: A capability bound to one request accepts no other request and no other nonce, unless the
  two hash inputs collide under blake3.\<close>

theorem bound_capability_single_request:
  assumes "json_laws c" "uuid_laws c" "child_request_binding ch = Some b" "request_binding_for c req n = Ok b"
    and "authorize_only c os ch req' (Some n') w = (Ok u, w')"
    and "json_to_vec c (request_json req) = Ok bs" "json_to_vec c (request_json req') = Ok bs'"
    and "inj_on (blake3 c) {hash_input c (request_tool_name req) bs n, hash_input c (request_tool_name req') bs' n'}"
  shows "req' = req \<and> n' = n"
proof -
  from authorize_only_sound [OF assms(5)] assms(3) have "request_binding_for c req' n' = Ok b" by auto
  from binding_identifies [OF assms(4) this assms(1,2,6-8)] show ?thesis by simp
qed

theorem bound_capability_single_request_witness:
  "fst (authorize_only tb tb_os ch0 (Exec ''/bin/true'') (Some 9) w0) \<noteq> Ok ()"
proof
  assume "fst (authorize_only tb tb_os ch0 (Exec ''/bin/true'') (Some 9) w0) = Ok ()"
  then obtain w' where a: "authorize_only tb tb_os ch0 (Exec ''/bin/true'') (Some 9) w0 = (Ok (), w')"
    by (metis prod.collapse)
  let ?vec = "\<lambda>r. as_bytes (enc_json (request_json r))"
  let ?in = "\<lambda>r. hash_input tb (request_tool_name r) (?vec r) 9"
  have vec: "json_to_vec tb (request_json r) = Ok (?vec r)" for r by simp
  have "hd (tb_hash (?in (Read ''/repo/src''))) = char_byte (CHR ''f'')"
      "hd (tb_hash (?in (Exec ''/bin/true''))) = char_byte (CHR ''e'')"
    by (simp_all add: tb_hash_def hash_input_def as_bytes_def)
  moreover have "char_byte (CHR ''f'') \<noteq> char_byte (CHR ''e'')" by (simp add: char_byte_inject)
  ultimately have "tb_hash (?in (Read ''/repo/src'')) \<noteq> tb_hash (?in (Exec ''/bin/true''))" by metis
  then have "inj_on (blake3 tb) {?in (Read ''/repo/src''), ?in (Exec ''/bin/true'')}"
    by (intro inj_on_pair) (simp only: tb_sel not_False_eq_True)
  from bound_capability_single_request [OF tb_json_laws tb_uuid_laws bindings0(3) bound0 a vec vec this]
  show False by simp
qed

section \<open>Using a capability again\<close>

text \<open>Nothing remembers that a capability was used.  A capability that was accepted once is
  accepted again for the same request with the same nonce, any number of times, at every reading of
  the clock before its expiry, as long as the file system has not changed.\<close>

theorem capability_is_reusable:
  assumes "authorize_only c os ch req n_opt w = (Ok u, w1)"
    and "os_now os w2 = (t, w3)" "t < child_expires_at ch" "os_fs os w3 = os_fs os w1"
  shows "authorize_only c os ch req n_opt w2 = (Ok (), w3)"
  using assms by (rule authorize_again)

theorem capability_is_reusable_witness:
  "\<exists>w. authorize_only tb tb_os ch0 (Read ''/repo/src'') (Some 9) (w0\<lparr>w_clock := 1001000000\<rparr>) = (Ok (), w)"
proof -
  have "w_fs (w0\<lparr>w_clock := 1002000000\<rparr>) = w_fs (w0\<lparr>w_clock := 1001000000\<rparr>)" by (rule w_fs_cong) simp_all
  then show ?thesis
    using capability_is_reusable [OF read0_allowed, of "w0\<lparr>w_clock := 1001000000\<rparr>" 1001000000
        "w0\<lparr>w_clock := 1002000000\<rparr>"]
    by (simp add: bindings0)
qed

section \<open>Dispatch\<close>

text \<open>The side effect happens only behind a successful authorization.  When authorization fails,
  \<open>dispatch\<close> returns its error and the world is that of the authorization, which at most read the
  clock; when it succeeds, \<open>dispatch\<close> is \<open>execute\<close> in the world authorization left, and every
  error is then an I/O error.\<close>

theorem dispatch_is_guarded_execution:
  assumes "authorize_only c os ch (to_request call) n_opt w = (v, w1)"
  shows "(w1 = w \<or> (\<exists>now. os_now os w = (now, w1)))
    \<and> dispatch c os ch call n_opt w =
        (case v of Ok u \<Rightarrow> execute os call w1 | Err e \<Rightarrow> (Err e, w1) | Panic \<Rightarrow> (Panic, w1))
    \<and> (\<forall>e w2. is_ok v \<longrightarrow> dispatch c os ch call n_opt w = (Err e, w2) \<longrightarrow> (\<exists>s. e = Io s))"
  using authorize_only_world [OF assms] assms execute_Err [of os call w1]
  by (cases v) (auto simp: dispatch_def io_bind_def)

theorem dispatch_is_guarded_execution_witness:
  "dispatch tb tb_os ch0 (FsRead ''/repo/src'') None w0
     = (Err (Verification RequestBindingMismatch), w0\<lparr>w_clock := 1001000000\<rparr>)"
proof -
  have "actual_binding_for tb (Read ''/repo/src'') None = Ok None" by (simp add: actual_binding_for_def)
  moreover have "os_now tb_os w0 = (1000000000, w0\<lparr>w_clock := 1001000000\<rparr>)" by (simp add: w0_def)
  moreover have "to_request (FsRead ''/repo/src'') = Read ''/repo/src''" by code_simp
  ultimately have "authorize_only tb tb_os ch0 (to_request (FsRead ''/repo/src'')) None w0
      = (Err (Verification RequestBindingMismatch), w0\<lparr>w_clock := 1001000000\<rparr>)"
    by (simp only: honest_authorize [OF honest0(1)] bindings0) simp
  from dispatch_is_guarded_execution [OF this] show ?thesis by simp
qed

end
