(* ===== verification/Props_Audit.thy ===== *)
theory Props_Audit
  imports Scenario
begin

text \<open>
  The properties of the audit log, each with a witness on the concrete instance.
\<close>

section \<open>Entries for the witnesses\<close>

definition entry_of :: "uuid \<Rightarrow> bytes \<Rightarrow> audit_entry" where
  "entry_of i prev = \<lparr>ae_id = i, ae_timestamp = 0, ae_event = RootMinted 7, ae_previous_hash = prev,
     ae_entry_hash = hash_entry_fields tb i 0 (RootMinted 7) prev\<rparr>"

definition zeros :: bytes where
  "zeros = replicate 32 0"

lemma entry_of_good: "entry_good tb (entry_of i prev)"
  by (simp add: entry_good_def entry_of_def)

lemma entry_of_sized: "length prev = 32 \<Longrightarrow> entry_sized (entry_of i prev)"
  by (simp add: entry_sized_def entry_of_def)

lemma entry_of_chain:
  "verify_chain tb [entry_of i prev] = Ok ()"
  "verify_chain tb [entry_of i prev, entry_of j q] = (if q = ae_entry_hash (entry_of i prev) then Ok () else Err (BrokenChain 1))"
  by (simp_all add: verify_chain_def entry_of_def)

text \<open>The stand-in for the hash keeps the first sixteen bytes, which are those of the identifier.\<close>

lemma tb_hash_prefix: "length a = 16 \<Longrightarrow> take 16 (tb_hash (a @ b)) = a"
  by (simp add: tb_hash_def)

lemma entry_of_hash:
  "take 16 (tb_hash (entry_input tb (entry_of i prev))) = uuid_as_bytes tb i"
  "tb_hash (entry_input tb (entry_of i prev)) = ae_entry_hash (entry_of i prev)"
  unfolding entry_input_def hash_entry_input_def entry_of_def
  by (simp_all only: audit_entry.simps hash_entry_fields_def hash_entry_input_def tb_sel
      tb_hash_prefix uuid_lawsD(4) [OF tb_uuid_laws])

section \<open>The chain\<close>

text \<open>C25: Two logs of the same length that both verify and end in the same hash are the same log,
  unless blake3 collides on their entries: no entry can be changed, replaced or reordered without
  changing the last hash.\<close>

theorem audit_log_determined:
  assumes "stamp_laws c" "verify_chain c es = Ok ()" "verify_chain c fs = Ok ()"
    and "list_all entry_sized es" "list_all entry_sized fs" "length es = length fs" "es \<noteq> []"
    and "ae_entry_hash (last es) = ae_entry_hash (last fs)"
    and "inj_on (blake3 c) (entry_input c ` (set es \<union> set fs))"
  shows "es = fs"
proof (rule audit.valid_unique [OF assms(9)])
  show "list_all (entry_wf c) es" "list_all (entry_wf c) fs"
    using assms(1,4,5) by (simp_all add: list_all_iff entry_wf_def)
qed (use assms in \<open>simp_all add: verify_chain_valid\<close>)

theorem audit_log_determined_witness:
  "ae_entry_hash (entry_of 3 zeros) \<noteq> ae_entry_hash (entry_of 4 zeros)"
proof
  let ?e = "entry_of 3 zeros" and ?f = "entry_of 4 zeros"
  assume same: "ae_entry_hash ?e = ae_entry_hash ?f"
  have "take 16 (tb_hash (entry_input tb ?e)) \<noteq> take 16 (tb_hash (entry_input tb ?f))"
    unfolding entry_of_hash(1) using uuid_lawsD(5) [OF tb_uuid_laws] by (auto dest: injD)
  then have "blake3 tb (entry_input tb ?e) \<noteq> blake3 tb (entry_input tb ?f)" by (metis tb_sel(10))
  then have inj: "inj_on (blake3 tb) (entry_input tb ` (set [?e] \<union> set [?f]))" by (auto simp: inj_on_def)
  have sized: "list_all entry_sized [?e]" "list_all entry_sized [?f]"
    by (simp_all add: entry_of_sized zeros_def)
  have "[?e] = [?f]"
    by (rule audit_log_determined [OF tb_stamp_laws entry_of_chain(1) entry_of_chain(1) sized _ _ _ inj])
      (simp_all add: same)
  then show False by (simp add: entry_of_def)
qed



text \<open>Verification does not fix where a log begins or ends: every contiguous part of a log that
  verifies does so too, so entries removed from the beginning or the end are not noticed.\<close>

theorem every_slice_verifies:
  assumes "verify_chain c es = Ok ()"
  shows "verify_chain c (take n (drop k es)) = Ok ()"
  using assms by (rule verify_chain_slice)

theorem every_slice_verifies_witness:
  "verify_chain tb [entry_of 4 (ae_entry_hash (entry_of 3 zeros))] = Ok ()"
proof -
  have "verify_chain tb [entry_of 3 zeros, entry_of 4 (ae_entry_hash (entry_of 3 zeros))] = Ok ()"
    by (simp add: entry_of_chain)
  from every_slice_verifies [OF this, of 1 1] show ?thesis by simp
qed

end
