(* ===== verification/Availability.thy ===== *)
theory Availability
  imports Agent_Facts Honest_Use
begin

text \<open>
  The other half of enforcement: what the policy allows does go through.  On a root whose paths are
  still canonical, with a clock that has not run past the child's five seconds and a biscuit crate
  that answers, a step executes every call that the root allows.
\<close>

section \<open>Hypotheses\<close>

text \<open>The biscuit crate neither fails nor hits a limit on what it is given.\<close>

definition biscuit_available :: "('kp, 'pk, 'b, 'tok) crates \<Rightarrow> bool" where
  "biscuit_available c \<longleftrightarrow>
     (\<forall>nk b F. is_ok (biscuit_append c nk b F)) \<and> (\<forall>b. is_ok (biscuit_to_vec c b))
   \<and> (\<forall>tok. token_answers c tok)"

text \<open>The roots of a permission set still resolve to themselves.\<close>

definition stable_roots :: "fs_view \<Rightarrow> permission_set \<Rightarrow> bool" where
  "stable_roots fs P \<longleftrightarrow>
     (\<forall>r \<in> set (readable_roots P) \<union> set (writable_roots P).
        \<not> unsafe_path r \<and> resolve_existing_ancestor fs r = r)"

section \<open>The attenuation of a step\<close>

lemma root_in_scope: "\<not> unsafe_path r \<Longrightarrow> resolve_existing_ancestor fs r = r \<Longrightarrow> r \<in> set roots \<Longrightarrow> path_in_scope fs roots r"
  by (auto simp: path_in_scope_iff is_under_any_root_def list_ex_iff intro: path_starts_with_refl)

lemma child_request_stable:
  assumes "stable_roots fs P"
  shows "request_within fs (child_request P b) P"
    and "permissions_ok P \<Longrightarrow> requested_permissions fs (child_request P b) = P"
proof -
  show "request_within fs (child_request P b) P"
    using assms root_in_scope
    by (auto simp: request_within_def child_request_def contains_all_roots_iff contains_all_exec_iff stable_roots_def)
  have "map (resolve_existing_ancestor fs) (readable_roots P) = readable_roots P"
      "map (resolve_existing_ancestor fs) (writable_roots P) = writable_roots P"
    using assms by (auto simp: stable_roots_def intro: map_idI)
  then show "permissions_ok P \<Longrightarrow> requested_permissions fs (child_request P b) = P"
    by (simp add: requested_permissions_def child_request_def permissions_ok_def btree_collect_fixed)
qed

text \<open>With the crate available, a manifest that validates is minted, and an attenuation that validates succeeds.\<close>

lemma mint_available:
  assumes laws: "biscuit_laws c facts root_of" "uuid_laws c" and avail: "biscuit_available c"
    and build: "\<And>F. is_ok (biscuit_build c kp nk F)"
    and valid: "validate m = Ok ()" "checked_expires_at c now (tm_ttl_seconds m) = Ok e" "from_manifest fs m = Ok P"
  shows "\<exists>root. mint c fs kp nk m now = Ok root \<and> root_permissions root = P \<and> root_expires_at root = e
    \<and> root_task_id root = tm_task_id m"
proof -
  have "\<exists>tok. build_root_token c nk (tm_task_id m) P e kp = Ok tok"
    using build [unfolded is_ok_iff] avail
    by (simp add: build_root_token_def parse_task_fact [OF laws] parse_state_facts [OF laws]
        biscuit_available_def is_ok_iff) (metis res_bind.simps(1) res_map_err.simps(1))
  with valid show ?thesis by (auto simp: mint_Ok_iff)
qed

lemma attenuate_available:
  assumes laws: "biscuit_laws c facts root_of" "uuid_laws c" and avail: "biscuit_available c"
    and minted: "mint c fs0 kp nk m t0 = Ok root"
    and valid: "validate_attenuation c fs (root_permissions root) (root_expires_at root) r now = Ok ()"
  shows "\<exists>ch. root_attenuate c fs k root r now = Ok ch"
proof -
  obtain b where b: "biscuit_to_vec c b = Ok (root_token root)"
      "public_key_from_bytes c (root_root_public_key root) = Ok (root_of b)"
    using mint_holds [OF laws minted] by (auto simp: token_holds_def)
  from attenuated_state_validated [OF valid] obtain e where
    e: "attenuated_state c fs r now = Ok (e, requested_permissions fs r)" by blast
  let ?F = "block_facts c 1 (requested_permissions fs r) e (ar_request_binding r)"
  obtain b' where b': "biscuit_append c k b ?F = Ok b'"
    using avail by (meson biscuit_available_def is_ok_iff)
  obtain tok where "biscuit_to_vec c b' = Ok tok"
    using avail by (meson biscuit_available_def is_ok_iff)
  moreover have "biscuit_from c (root_token root) (root_of b) = Ok b"
    by (simp add: biscuit_laws_from(1) [OF laws(1) b(1)])
  ultimately have "append_block c k (root_token root) (root_of b) 1 (requested_permissions fs r) e (ar_request_binding r) = Ok tok"
    by (simp add: append_block_def parse_state_facts [OF laws] b')
  with valid e b(2) show ?thesis by (simp add: root_attenuate_def parse_public_key_def)
qed

section \<open>The step\<close>

text \<open>The readings of the clock and the draws of an enforced step, in order.\<close>

definition step_draws ::
    "('w, 'kp) os \<Rightarrow> 'w \<Rightarrow> datetime \<Rightarrow> uuid \<Rightarrow> 'w \<Rightarrow> datetime \<Rightarrow> 'w \<Rightarrow> bool" where
  "step_draws os w now n w2 t w6 \<longleftrightarrow>
     (\<exists>w1 k w3 s w4 i w5. os_now os w = (now, w1) \<and> os_uuid os w1 = (n, w2) \<and> os_keypair os w2 = (k, w3)
        \<and> os_now os w3 = (s, w4) \<and> os_uuid os w4 = (i, w5) \<and> os_now os w5 = (t, w6))"

lemma record_world:
  "os_now os w = (s, w1) \<Longrightarrow> os_uuid os w1 = (i, w2) \<Longrightarrow> \<exists>self'. record_event c os ev (self, w) = (Ok (), self', w2)"
  by (simp add: record_event_def chain_entry_eq)

lemma dispatch_step_executes:
  assumes "authorize_only c os child (to_request call) (Some n) w = (Ok (), w1)" "execute os call w1 = (r, w2)"
  shows "fst (dispatch_step c os call child n (self, w)) =
    (case r of
       Ok res \<Rightarrow> Ok \<lparr>so_call = call, so_decision = Allowed res\<rparr>
     | Err e \<Rightarrow> Ok \<lparr>so_call = call, so_decision = Errored (case e of Io s \<Rightarrow> s | _ \<Rightarrow> [])\<rparr>
     | Panic \<Rightarrow> Panic)"
proof -
  have d: "dispatch c os child call (Some n) w = (r, w2)"
    by (simp only: dispatch_authorized [OF assms(1)] assms(2))
  show ?thesis
  proof (cases r)
    case (Err e)
    from execute_Err [of os call w1 e w2] assms(2) Err obtain s where "e = Io s" by auto
    with Err d show ?thesis by (simp add: dispatch_step_def record_then io_lift_def)
  qed (simp_all add: dispatch_step_def d record_then io_lift_def)
qed

text \<open>
  An enforced step on an honestly minted root gets as far as the decision: the child is minted, it
  verifies, and what authorization returns is what the policy says of the root.
\<close>

lemma step_child:
  assumes laws: "biscuit_laws c facts root_of" "uuid_laws c" "chrono_laws c lo hi" and avail: "biscuit_available c"
    and minted: "mint c fs0 kp nk m t0 = Ok root"
    and times: "lo \<le> now" "now + 5000000000 \<le> hi" "now + 5000000000 \<le> root_expires_at root"
    and stable: "stable_roots fs (root_permissions root)" and perms: "permissions_ok (root_permissions root)"
  obtains ch where "root_attenuate c fs k root (child_request (root_permissions root) b) now = Ok ch"
    "child_permissions ch = root_permissions root" "child_expires_at ch = now + 5000000000"
    "child_caveats ch =
      [\<lparr>cv_permissions = root_permissions root, cv_expires_at = now + 5000000000, cv_request_binding = Some b\<rparr>]"
proof -
  let ?req = "child_request (root_permissions root) b"
  have ttl: "ar_ttl_seconds ?req = 5" by (simp add: child_request_def CHILD_TTL_SECONDS_def)
  then have e: "checked_expires_at c now (ar_ttl_seconds ?req) = Ok (now + 5000000000)"
    using times by (simp add: checked_expires_at_cases [OF laws(3)] Let_def max_delta_seconds_def)
  with child_request_stable(1) [OF stable] times(3)
  have valid: "validate_attenuation c fs (root_permissions root) (root_expires_at root) ?req now = Ok ()"
    by (auto simp: validate_attenuation_Ok_iff)
  from attenuate_available [OF laws(1,2) avail minted valid, of k] obtain ch where
    ch: "root_attenuate c fs k root ?req now = Ok ch" by blast
  from root_att.attenuate_Ok [OF ch] e child_request_stable(2) [OF stable perms] ch that show thesis
    by (simp add: child_request_def)
qed

lemma step_authorizes:
  assumes laws: "biscuit_laws c facts root_of" "uuid_laws c" "chrono_laws c lo hi" and avail: "biscuit_available c"
    and minted: "mint c fs0 kp nk m t0 = Ok (o_root self)"
    and child: "encodable c \<lparr>cv_permissions = root_permissions (o_root self), cv_expires_at = now + 5000000000,
        cv_request_binding = Some b\<rparr>"
    and binding: "request_binding_for c (to_request call) n = Ok b"
    and worlds: "step_draws os w now n w2 t w6"
    and times: "lo \<le> now" "now + 5000000000 \<le> hi" "now + 5000000000 \<le> root_expires_at (o_root self)"
        "t < now + 5000000000"
    and stable: "stable_roots (os_fs os w2) (root_permissions (o_root self))"
  obtains ch self1 w5 where "step_enforced c os call (self, w) = dispatch_step c os call ch n (self1, w5)"
    "logged c [CapabilityAttenuated (o_task_id self)] self self1"
    "authorize_only c os ch (to_request call) (Some n) w5 =
      (case decide (os_fs os w6) (root_permissions (o_root self)) (to_request call) of
         Allow \<Rightarrow> Ok () | Deny reason \<Rightarrow> Err (DeniedError reason), w6)"
proof -
  let ?root = "o_root self" and ?P = "root_permissions (o_root self)"
  obtain w1 k w3 s w4 i w5 where d: "os_now os w = (now, w1)" "os_uuid os w1 = (n, w2)" "os_keypair os w2 = (k, w3)"
      "os_now os w3 = (s, w4)" "os_uuid os w4 = (i, w5)" "os_now os w5 = (t, w6)"
    using worlds by (auto simp: step_draws_def)
  have perms: "permissions_ok ?P" using child by (simp add: encodable_def)
  obtain ch where ch: "root_attenuate c (os_fs os w2) k ?root (child_request ?P b) now = Ok ch"
      "child_permissions ch = ?P" "child_expires_at ch = now + 5000000000"
      "child_caveats ch = [\<lparr>cv_permissions = ?P, cv_expires_at = now + 5000000000, cv_request_binding = Some b\<rparr>]"
    by (rule step_child [OF laws avail minted times(1,2,3) stable perms])
  then have bindings: "binding_current ch" "child_request_binding ch = Some b"
    by (simp_all add: binding_current_def child_request_binding_def List.map_filter_def)
  have "\<exists>fs kp nk m now root. mint c fs kp nk m now = Ok root \<and> descends c root ch"
    using minted descends.first [OF ch(1)] by blast
  then have "honest c facts root_of ch"
    using laws avail child by (simp add: honest_def biscuit_available_def ch(4))
  moreover have "actual_binding_for c (to_request call) (Some n) = Ok (Some b)"
    by (simp add: actual_binding_for_def binding)
  ultimately have auth: "authorize_only c os ch (to_request call) (Some n) w5 =
      (case decide (os_fs os w6) ?P (to_request call) of
         Allow \<Rightarrow> Ok () | Deny reason \<Rightarrow> Err (DeniedError reason), w6)"
    using times(4) by (simp add: honest_authorize d(6) bindings ch)
  obtain self1 where rec: "record_event c os (CapabilityAttenuated (o_task_id self)) (self, w3) = (Ok (), self1, w5)"
    using record_world [OF d(4,5)] by blast
  have "step_enforced c os call (self, w) = dispatch_step c os call ch n (self1, w5)"
    by (simp add: step_enforced_def d binding ch(1) record_then rec)
  with auth record_event_spec [OF rec] that show thesis by blast
qed

text \<open>What the root allows is executed.\<close>

lemma step_executes:
  assumes "biscuit_laws c facts root_of" "uuid_laws c" "chrono_laws c lo hi" "biscuit_available c"
    and "mint c fs0 kp nk m t0 = Ok (o_root self)"
    and "encodable c \<lparr>cv_permissions = root_permissions (o_root self), cv_expires_at = now + 5000000000,
        cv_request_binding = Some b\<rparr>"
    and "request_binding_for c (to_request call) n = Ok b" "step_draws os w now n w2 t w6"
    and "lo \<le> now" "now + 5000000000 \<le> hi" "now + 5000000000 \<le> root_expires_at (o_root self)"
        "t < now + 5000000000"
    and "stable_roots (os_fs os w2) (root_permissions (o_root self))"
    and "decide (os_fs os w6) (root_permissions (o_root self)) (to_request call) = Allow"
    and "execute os call w6 = (r, w7)"
  shows "fst (step_enforced c os call (self, w)) =
    (case r of
       Ok res \<Rightarrow> Ok \<lparr>so_call = call, so_decision = Allowed res\<rparr>
     | Err e \<Rightarrow> Ok \<lparr>so_call = call, so_decision = Errored (case e of Io s \<Rightarrow> s | _ \<Rightarrow> [])\<rparr>
     | Panic \<Rightarrow> Panic)"
proof -
  obtain ch self1 w5 where "step_enforced c os call (self, w) = dispatch_step c os call ch n (self1, w5)"
      "authorize_only c os ch (to_request call) (Some n) w5 =
        (case decide (os_fs os w6) (root_permissions (o_root self)) (to_request call) of
           Allow \<Rightarrow> Ok () | Deny reason \<Rightarrow> Err (DeniedError reason), w6)"
    by (rule step_authorizes [OF assms(1-13)])
  with dispatch_step_executes [OF _ assms(15)] assms(14) show ?thesis by simp
qed

end
