(* ===== verification/Props_Agent.thy ===== *)
theory Props_Agent
  imports Scenario Availability
begin

text \<open>
  The properties of the orchestrator: its steps, and its runs over any principal, each with a
  witness on the concrete instance.
\<close>

section \<open>Steps\<close>

lemma demo_read_step:
  obtains self w where "step_enforced tb tb_os (FsRead ''/repo/a'') (o0 Enforced, wA)
    = (Ok \<lparr>so_call = FsRead ''/repo/a'', so_decision = Allowed (ReadOutput ''hello'')\<rparr>, self, w)"
  using demo_read
  by (cases "step tb tb_os (FsRead ''/repo/a'') (o0 Enforced, wA)" rule: prod_cases3) (simp add: step_def)

lemma demo_refused_step:
  obtains self w where "step_enforced tb tb_os (NetworkCall h p s) (o0 Enforced, wA)
    = (Ok \<lparr>so_call = NetworkCall h p s, so_decision = Denied ''network policy denies all egress''\<rparr>, self, w)"
  using demo_refused(2) [of h p s]
  by (cases "step tb tb_os (NetworkCall h p s) (o0 Enforced, wA)" rule: prod_cases3) (simp add: step_def)

text \<open>C4: An enforced step tells the truth about what it did.  Denied means that nothing was executed:
  the world saw readings of the clock and draws of randomness only.  Allowed and errored mean that
  the call was executed exactly once, with that result, after the policy allowed it on the root's
  permissions and before the root's expiry.  The log gains the attenuation, unless the step was
  denied before it, and one entry for the outcome.\<close>

theorem enforced_step_is_truthful:
  assumes "step_enforced c os call (self, w) = (Ok out, self', w')"
  shows "so_call out = call
    \<and> (case so_decision out of
         Denied reason \<Rightarrow> draws os w w'
       | Allowed res \<Rightarrow>
           carried_out os (root_permissions (o_root self)) (root_expires_at (o_root self)) call w (Ok res) w'
       | Errored e \<Rightarrow>
           carried_out os (root_permissions (o_root self)) (root_expires_at (o_root self)) call w (Err (Io e)) w')
    \<and> (logged c [CapabilityAttenuated (o_task_id self), outcome_event call (so_decision out)] self self'
       \<or> (\<exists>reason. so_decision out = Denied reason \<and> logged c [ToolDenied (call_tool_name call) reason] self self'))"
  using step_enforced_spec [OF assms]
  by (auto simp: root_explained_def explained_def outcome_event_def split: step_decision.splits)

theorem enforced_step_is_truthful_witness:
  "\<exists>self w w'. carried_out tb_os P0 61000000000 (FsRead ''/repo/a'') wA (Ok (ReadOutput ''hello'')) w
    \<and> logged tb [CapabilityAttenuated 7, ToolAllowed ''fs_read''] (o0 Enforced) self
    \<and> draws tb_os wA w'"
proof -
  obtain self w where s: "step_enforced tb tb_os (FsRead ''/repo/a'') (o0 Enforced, wA)
      = (Ok \<lparr>so_call = FsRead ''/repo/a'', so_decision = Allowed (ReadOutput ''hello'')\<rparr>, self, w)"
    by (rule demo_read_step)
  obtain self' w' where d: "step_enforced tb tb_os (NetworkCall ''evil'' 80 ''secret'') (o0 Enforced, wA)
      = (Ok \<lparr>so_call = NetworkCall ''evil'' 80 ''secret'',
             so_decision = Denied ''network policy denies all egress''\<rparr>, self', w')"
    by (rule demo_refused_step)
  have root0: "root_permissions root0 = P0" "root_expires_at root0 = 61000000000"
    by (simp_all add: root0_def)
  from enforced_step_is_truthful [OF s] enforced_step_is_truthful [OF d] show ?thesis
    by (auto simp: root0 outcome_event_def)
qed



text \<open>The bypassed baseline executes every call as it is: no check, no capability, one execution
  with its result, and one log entry.\<close>

theorem bypassed_step_is_ambient:
  assumes "step_bypassed c os call (self, w) = (Ok out, self', w')"
  shows "so_call out = call
    \<and> (\<exists>r w1. execute os call w = (r, w1) \<and> draws os w1 w'
        \<and> (case r of
             Ok res \<Rightarrow> so_decision out = Allowed res \<and> logged c [ToolAllowed (call_tool_name call)] self self'
           | Err e \<Rightarrow> so_decision out = Errored (show_tool_error e)
               \<and> logged c [ToolDenied (call_tool_name call) (''execution error: '' @ show_tool_error e)] self self'
           | Panic \<Rightarrow> False))"
  using assms by (rule step_bypassed_spec)

theorem bypassed_step_is_ambient_witness:
  "\<exists>out self w. step_bypassed tb tb_os (NetworkCall ''evil'' 80 ''secret'') (o0 Bypassed, wA) = (Ok out, self, w)
    \<and> so_decision out = Allowed (NetworkOutput 6)"
proof -
  have e: "fst (execute tb_os (NetworkCall ''evil'' 80 ''secret'') wA) = Ok (NetworkOutput 6)"
    by (simp add: execute_def tb_os_def io_bind_def io_map_err_def io_lift_def)
  then obtain w1 where e: "execute tb_os (NetworkCall ''evil'' 80 ''secret'') wA = (Ok (NetworkOutput 6), w1)"
    by (metis prod.collapse)
  obtain self w where "snd (record_event tb tb_os (ToolAllowed ''network'') (o0 Bypassed, w1)) = (self, w)"
    by fastforce
  with e have s: "step_bypassed tb tb_os (NetworkCall ''evil'' 80 ''secret'') (o0 Bypassed, wA)
      = (Ok \<lparr>so_call = NetworkCall ''evil'' 80 ''secret'', so_decision = Allowed (NetworkOutput 6)\<rparr>, self, w)"
    by (simp add: step_bypassed_def record_then io_lift_def)
  from bypassed_step_is_ambient [OF s] s show ?thesis by auto
qed

text \<open>The two modes differ only in the check: what an enforced step returns for a call it allowed
  is what the bypassed step returns for it in a world reached by draws alone.\<close>

theorem enforcement_only_refuses:
  assumes "step_enforced c os call (self, w) = (Ok out, self', w')" "so_decision out = Allowed res"
  shows "\<exists>w1. draws os w w1 \<and>
    (\<exists>out' self'' w''. step_bypassed c os call (self, w1) = (Ok out', self'', w'') \<and> so_decision out' = Allowed res)"
  using assms by (rule enforced_output_is_ambient)

theorem enforcement_only_refuses_witness:
  "\<exists>w1 out' self'' w''. step_bypassed tb tb_os (FsRead ''/repo/a'') (o0 Enforced, w1) = (Ok out', self'', w'')
     \<and> so_decision out' = Allowed (ReadOutput ''hello'')"
proof -
  obtain self w where s: "step_enforced tb tb_os (FsRead ''/repo/a'') (o0 Enforced, wA)
      = (Ok \<lparr>so_call = FsRead ''/repo/a'', so_decision = Allowed (ReadOutput ''hello'')\<rparr>, self, w)"
    by (rule demo_read_step)
  from enforcement_only_refuses [OF s] show ?thesis by auto
qed

section \<open>Runs\<close>

lemma run0:
  obtains r st where "run_principal tb tb_os pr n \<lparr>rs_principal = p, rs_self = o0 mode, rs_world = wA,
    rs_outcomes = []\<rparr> = (r, st)"
  by fastforce



text \<open>C30: Under enforcement the operations that connect to the network and send are never used:
  replacing them by any others changes no run of any principal.\<close>

theorem runs_ignore_the_network:
  assumes "o_mode (rs_self st) = Enforced"
  shows "run_principal c (os\<lparr>os_tcp_connect := f, os_tcp_write_all := g\<rparr>) pr n st = run_principal c os pr n st"
  using assms by (rule run_principal_network_ops)

theorem runs_ignore_the_network_witness:
  "run_principal tb (tb_os\<lparr>os_tcp_connect := \<lambda>w h p. (Panic, w), os_tcp_write_all := \<lambda>w i s. (Panic, w)\<rparr>) scripted 2
      \<lparr>rs_principal = scripted_new [NetworkCall ''evil'' 80 ''secret''], rs_self = o0 Enforced, rs_world = wA,
       rs_outcomes = []\<rparr>
   = run_principal tb tb_os scripted 2
      \<lparr>rs_principal = scripted_new [NetworkCall ''evil'' 80 ''secret''], rs_self = o0 Enforced, rs_world = wA,
       rs_outcomes = []\<rparr>"
  by (rule runs_ignore_the_network) simp

text \<open>C24: The audit log of an orchestrator verifies at every moment of its life, in both modes: after
  its creation, and after any run of any principal, even one that panics.  It begins with the
  minting of the root, and runs only append to it.\<close>

theorem log_verifies_for_life:
  assumes "new_orchestrator c os m mode w = (Ok self, w1)"
    and "run_principal c os pr n \<lparr>rs_principal = p, rs_self = self, rs_world = w1, rs_outcomes = []\<rparr> = (r, st)"
  shows "verify_chain c (o_audit_log self) = Ok () \<and> verify_chain c (o_audit_log (rs_self st)) = Ok ()
    \<and> o_previous_hash (rs_self st) = ae_entry_hash (last (o_audit_log (rs_self st)))
    \<and> (\<exists>e es. o_audit_log (rs_self st) = o_audit_log self @ es \<and> o_audit_log self = [e]
         \<and> ae_event e = RootMinted (tm_task_id m))"
proof -
  from new_orchestrator_spec [OF assms(1)] have
    new: "map ae_event (o_audit_log self) = [RootMinted (tm_task_id m)]" "orch_ok c self"
    by blast+
  from history.run_principal_rel [OF assms(2)] obtain evs where "logged c evs self (rs_self st)" by auto
  with new show ?thesis by (auto simp: logged_def orch_ok_def)
qed

theorem log_verifies_for_life_witness:
  "\<exists>r st. run_principal tb tb_os scripted 3 \<lparr>rs_principal = scripted_new [FsRead ''/repo/a'', NetworkCall ''evil'' 80 ''x''],
      rs_self = o0 Bypassed, rs_world = wA, rs_outcomes = []\<rparr> = (r, st)
    \<and> verify_chain tb (o_audit_log (rs_self st)) = Ok ()"
proof -
  obtain r st where run: "run_principal tb tb_os scripted 3
      \<lparr>rs_principal = scripted_new [FsRead ''/repo/a'', NetworkCall ''evil'' 80 ''x''],
       rs_self = o0 Bypassed, rs_world = wA, rs_outcomes = []\<rparr> = (r, st)"
    by (rule run0)
  with log_verifies_for_life [OF started0 run] show ?thesis by blast
qed

text \<open>C26: A run under enforcement that returns has answered for everything it did: there is one outcome
  per call, in order, and the events added to the log are, outcome by outcome, the attenuation and
  the result of that call, where only a denied call may lack the attenuation.\<close>

theorem run_is_accounted_for:
  assumes "run_principal c os pr n st = (Ok u, st')" "o_mode (rs_self st) = Enforced"
  shows "\<exists>outs evss. rs_outcomes st' = rs_outcomes st @ outs
    \<and> list_all2 (outcome_events (o_task_id (rs_self st))) outs evss
    \<and> logged c (concat evss) (rs_self st) (rs_self st')"
  using run_principal_accounted [OF assms] by (auto simp: accounted_def)

theorem run_is_accounted_for_witness:
  "\<exists>st outs evss. run_principal tb tb_os scripted 2
      \<lparr>rs_principal = \<lparr>sp_pending = [FsRead ''/repo/a''], sp_next_id = 0\<rparr>, rs_self = o0 Enforced, rs_world = wA,
       rs_outcomes = []\<rparr> = (Ok (), st)
    \<and> rs_outcomes st = outs \<and> length outs = 1 \<and> list_all2 (outcome_events 7) outs evss
    \<and> logged tb (concat evss) (o0 Enforced) (rs_self st)"
proof -
  let ?out = "\<lparr>so_call = FsRead ''/repo/a'', so_decision = Allowed (ReadOutput ''hello'')\<rparr>"
  obtain self w where "step tb tb_os (FsRead ''/repo/a'') (o0 Enforced, wA) = (Ok ?out, self, w)"
    using demo_read by (cases "step tb tb_os (FsRead ''/repo/a'') (o0 Enforced, wA)" rule: prod_cases3) simp
  from scripted_turn [OF this, of 1 "[]" 0 "[]"]
  have run: "run_principal tb tb_os scripted 2
      \<lparr>rs_principal = \<lparr>sp_pending = [FsRead ''/repo/a''], sp_next_id = 0\<rparr>, rs_self = o0 Enforced, rs_world = wA,
       rs_outcomes = []\<rparr>
    = (Ok (), \<lparr>rs_principal = \<lparr>sp_pending = [], sp_next_id = 1\<rparr>, rs_self = self, rs_world = w, rs_outcomes = [?out]\<rparr>)"
    by (simp add: scripted_next_tool_calls_def numeral_2_eq_2)
  from run_is_accounted_for [OF run] show ?thesis using run by (simp del: run_principal.simps)
qed

text \<open>C28: A scripted run is the fold of its steps: the loop over the scripted principal performs each
  call once, in the given order, and stops.  The \<open>expect\<close> on its result is never reached: the run
  panics only if a step does, and otherwise returns one outcome per call.\<close>

theorem scripted_run_is_fold:
  "run c os calls s = step_all c os calls s
   \<and> (fst (run c os calls s) = Panic
      \<or> (\<exists>outs. fst (run c os calls s) = Ok outs \<and> length outs = length calls))"
proof -
  obtain r s' where "step_all c os calls s = (r, s')" by (rule prod.exhaust)
  then show ?thesis
    using step_all_calls [of c os calls s _ s'] step_all_never_Err [of c os calls s _ s']
    by (cases r) (auto simp: run_step_all)
qed

text \<open>C29: The loop over a scripted principal ends by itself: with more turns than calls are pending, the
  number of turns makes no difference, and no error is returned.\<close>

theorem scripted_loop_terminates:
  assumes "length (sp_pending (rs_principal st)) < n" "length (sp_pending (rs_principal st)) < m"
  shows "run_principal c os scripted n st = run_principal c os scripted m st
    \<and> (\<forall>e st'. run_principal c os scripted n st \<noteq> (Err e, st'))"
  using scripted.enough_turns [OF assms] scripted.run_principal_never_Err by blast

theorem scripted_loop_terminates_witness:
  "run_principal tb tb_os scripted 2 \<lparr>rs_principal = scripted_new [FsRead ''/repo/a''], rs_self = o0 Enforced,
      rs_world = wA, rs_outcomes = []\<rparr>
   = run_principal tb tb_os scripted 1000 \<lparr>rs_principal = scripted_new [FsRead ''/repo/a''], rs_self = o0 Enforced,
      rs_world = wA, rs_outcomes = []\<rparr>"
  using scripted_loop_terminates
    [of "\<lparr>rs_principal = scripted_new [FsRead ''/repo/a''], rs_self = o0 Enforced, rs_world = wA, rs_outcomes = []\<rparr>"
      2 1000 tb tb_os]
  by (simp add: scripted_new_def del: run_principal.simps)

section \<open>Feedback\<close>

text \<open>Feedback to the model is bounded: a text of more than 4000 characters is replaced by its first
  4000 characters, cut between characters, and a notice with its length in bytes.\<close>

theorem long_feedback_is_cut:
  assumes "MAX_FEEDBACK_CHARS < chars_count s"
  shows "\<exists>head rest. s = head @ rest \<and> chars_count head = MAX_FEEDBACK_CHARS
    \<and> decision_feedback (Allowed (ReadOutput s))
      = head @ newline @ ''... (truncated; '' @ show_nat (length s) @ '' bytes total)''"
  using truncate_long [OF assms] by (simp add: decision_feedback_def)

theorem long_feedback_is_cut_witness:
  "\<exists>head. chars_count head = 4000 \<and> length (replicate 4001 (CHR ''a'')) = Suc 4000
    \<and> decision_feedback (Allowed (ReadOutput (replicate 4001 (CHR ''a''))))
      = head @ newline @ ''... (truncated; 4001 bytes total)''"
proof -
  have "chars_count (replicate k (CHR ''a'')) = k" for k
    by (simp add: chars_count_def utf8_cont_def)
  moreover have "show_nat 4001 = ''4001''" by code_simp
  ultimately show ?thesis
    using long_feedback_is_cut [of "replicate 4001 (CHR ''a'')"] by (auto simp: MAX_FEEDBACK_CHARS_def)
qed

end
