(* ===== verification/Props_Live.thy ===== *)
theory Props_Live
  imports Scenario Live_Facts Cli_Facts
begin

text \<open>
  The properties of the live principal and of the command line, each with a witness on the concrete
  instance and a small endpoint: a counter of requests and a queue of answers.
\<close>

section \<open>An endpoint for the witnesses\<close>

text \<open>The body of an answer.\<close>

definition json_of_answer :: "assistant_message \<Rightarrow> json" where
  "json_of_answer m =
     JObject [(''choices'', JArray [JObject [(''message'', JObject
       ([(''tool_calls'', JArray (map json_of_raw_tool_call (am_tool_calls m)))]
         @ json_field ''content'' JString (am_content m)))]])]"

definition answer :: "assistant_message \<Rightarrow> http_response" where
  "answer m = \<lparr>hr_status = 200, hr_text = Ok [], hr_json = Ok (json_of_answer m)\<rparr>"

definition h0 :: "(nat \<times> assistant_message list) http" where
  "h0 = \<lparr>http_build = Ok (),
     http_send = (\<lambda>url hs body (k, ms).
       case ms of [] \<Rightarrow> (Err ''connection refused'', Suc k, []) | m # rest \<Rightarrow> (Ok (answer m), Suc k, rest)),
     http_show_status = (\<lambda>_. ''status''), http_decode_error = ''error decoding response body''\<rparr>"

text \<open>A model that first calls a tool that does not exist, then has nothing more to do.\<close>

definition garbled :: assistant_message where
  "garbled = \<lparr>am_tool_calls = [\<lparr>rt_type = ''function'', rt_id = ''call-1'',
     rt_function = \<lparr>rf_name = ''rm_rf'', rf_arguments = []\<rparr>\<rparr>], am_content = None\<rparr>"

definition finished :: assistant_message where
  "finished = \<lparr>am_tool_calls = [], am_content = Some ''done''\<rparr>"

definition client0 :: open_ai_principal_client where
  "client0 = open_ai_new ''http://localhost'' ''model'' None (build_demo_initial_messages ''task'')"

definition live0 :: "(open_ai_principal_client \<times> nat \<times> assistant_message list, tb_biscuit, world) run_state" where
  "live0 = \<lparr>rs_principal = (client0, 0, [garbled, finished]), rs_self = o0 Enforced, rs_world = wA, rs_outcomes = []\<rparr>"

lemma read_answer: "read_chat_response (json_of_answer m) = Some \<lparr>cp_choices = [\<lparr>cc_message = m\<rparr>]\<rparr>"
proof -
  have "read_assistant_message (JObject ((''tool_calls'', JArray (map json_of_raw_tool_call (am_tool_calls m)))
      # json_field ''content'' JString (am_content m))) = Some m"
    by (cases "am_content m")
      (simp_all add: read_assistant_message_def struct_fields_def read_default_def read_option_def read_vec_raw_tool_calls
        json_field_def json_as_str_def)
  then show ?thesis
    by (simp add: json_of_answer_def read_chat_response_def read_chat_choice_def struct_fields_def read_field_def
        read_vec_def json_as_array_def)
qed

lemma post0:
  "post_chat h0 b m k ms (i, a # as) = (Ok a, Suc i, as)"
  "post_chat h0 b m k ms (i, []) = (Err ''connection refused'', Suc i, [])"
  by (simp_all add: post_chat_def h0_def answer_def io_bind_def io_lift_def is_success_def response_json_def
      read_answer ok_or_simps)

lemma classify0:
  "classify_assistant tb garbled self = (RetryAfterUnparseable,
     add_tool_result ''call-1'' (unparseable_text (hd (am_tool_calls garbled)))
       (push_message \<lparr>cm_role = ''assistant'', cm_content = None, cm_tool_calls = Some (am_tool_calls garbled),
          cm_tool_call_id = None\<rparr> self))"
  "classify_assistant tb finished self = (Done,
     push_message \<lparr>cm_role = ''assistant'', cm_content = Some ''done'', cm_tool_calls = None,
       cm_tool_call_id = None\<rparr> self)"
proof -
  have "parse_raw_tool_call tb \<lparr>rf_name = ''rm_rf'', rf_arguments = []\<rparr> = None"
    by (simp add: parse_raw_tool_call_def split: res.split)
  then show "classify_assistant tb garbled self = (RetryAfterUnparseable,
     add_tool_result ''call-1'' (unparseable_text (hd (am_tool_calls garbled)))
       (push_message \<lparr>cm_role = ''assistant'', cm_content = None, cm_tool_calls = Some (am_tool_calls garbled),
          cm_tool_call_id = None\<rparr> self))"
    by (simp add: classify_assistant_def ingest_assistant_def garbled_def)
  show "classify_assistant tb finished self = (Done,
     push_message \<lparr>cm_role = ''assistant'', cm_content = Some ''done'', cm_tool_calls = None,
       cm_tool_call_id = None\<rparr> self)"
    by (simp add: classify_assistant_def ingest_assistant_def finished_def)
qed

lemma live_next0:
  obtains self where "pr_next_tool_calls (open_ai_principal tb h0) (rs_principal live0) = (Ok [], self, 2, [])"
    "length (oc_messages self) = 5"
proof
  let ?push = "push_message \<lparr>cm_role = ''assistant'', cm_content = None,
    cm_tool_calls = Some (am_tool_calls garbled), cm_tool_call_id = None\<rparr> client0"
  let ?self = "push_message \<lparr>cm_role = ''assistant'', cm_content = Some ''done'', cm_tool_calls = None,
    cm_tool_call_id = None\<rparr> (add_tool_result ''call-1'' (unparseable_text (hd (am_tool_calls garbled))) ?push)"
  show "pr_next_tool_calls (open_ai_principal tb h0) (rs_principal live0) = (Ok [], ?self, 2, [])"
    by (simp add: open_ai_principal_def live0_def post0 classify0 MAX_UNPARSEABLE_RETRIES_def numeral_3_eq_3
        numeral_2_eq_2)
  show "length (oc_messages ?self) = 5"
    by (simp add: add_tool_result_def push_message_def client0_def open_ai_new_def build_demo_initial_messages_def)
qed

lemma live_run0:
  obtains st where "run_principal tb tb_os (open_ai_principal tb h0) 16 live0 = (Ok (), st)"
    "length (oc_messages (fst (rs_principal st))) = 5" "snd (rs_principal st) = (2, [])"
proof -
  obtain self where nx: "pr_next_tool_calls (open_ai_principal tb h0) (rs_principal live0) = (Ok [], self, 2, [])"
      "length (oc_messages self) = 5"
    by (rule live_next0)
  have "run_principal tb tb_os (open_ai_principal tb h0) (Suc 15) live0
      = (Ok (), live0\<lparr>rs_principal := (self, 2, [])\<rparr>)"
    by (simp only: run_principal.simps(2) nx(1)) simp
  moreover have "Suc 15 = 16" by simp
  ultimately show thesis using nx(2) by (intro that) (simp_all only:, simp_all)
qed

section \<open>The conversation\<close>

text \<open>C31: The conversation with a live model never leaves a tool call unanswered.  When a run ends, by
  itself, at the turn limit or with an error of the endpoint, every call the model asked for has
  been answered: executed calls with their result or denial, unparseable ones with an error.\<close>

theorem conversation_stays_closed:
  assumes "run_principal c os (open_ai_principal c h) n st = (r, st')" "r \<noteq> Panic"
    and "open_ids (oc_messages (fst (rs_principal st))) = {#}"
  shows "open_ids (oc_messages (fst (rs_principal st'))) = {#}"
  using live.run_principal_pending [OF assms(1,2)] assms(3) by (simp add: split_def)

theorem conversation_stays_closed_witness:
  "\<exists>st. run_principal tb tb_os (open_ai_principal tb h0) 16 live0 = (Ok (), st)
    \<and> length (oc_messages (fst (rs_principal st))) = 5 \<and> open_ids (oc_messages (fst (rs_principal st))) = {#}"
proof -
  obtain st where run: "run_principal tb tb_os (open_ai_principal tb h0) 16 live0 = (Ok (), st)"
      "length (oc_messages (fst (rs_principal st))) = 5"
    by (rule live_run0)
  have "open_ids (oc_messages (fst (rs_principal live0))) = {#}"
    by (simp add: live0_def client0_def open_ai_new_def build_demo_initial_messages_def open_ids_def asked_def
        answered_def)
  from conversation_stays_closed [OF run(1) _ this] run show ?thesis by auto
qed

text \<open>C32: A live run sends at most three requests per turn: a turn in which every call is unparseable is
  repeated with the errors in the conversation, and the third ends the run.  \<open>f\<close> is any measure of
  the endpoint that one request raises by at most one.\<close>

theorem requests_are_bounded:
  assumes "\<And>url hs body r q r'. http_send h url hs body r = (q, r') \<Longrightarrow> f r' \<le> Suc (f r)"
    and "run_principal c os (open_ai_principal c h) DEFAULT_MAX_TURNS st = (q, st')"
  shows "f (snd (rs_principal st')) \<le> f (snd (rs_principal st)) + 48"
  using run_principal_count [of h f, OF assms]
  by (simp add: DEFAULT_MAX_TURNS_def MAX_UNPARSEABLE_RETRIES_def)

theorem requests_are_bounded_witness:
  "\<exists>q st'. run_principal tb tb_os (open_ai_principal tb h0) DEFAULT_MAX_TURNS
      (live0\<lparr>rs_principal := (client0, 0, replicate 100 garbled)\<rparr>) = (q, st')
    \<and> fst (snd (rs_principal st')) \<le> 48"
proof -
  obtain q st' where run: "run_principal tb tb_os (open_ai_principal tb h0) DEFAULT_MAX_TURNS
      (live0\<lparr>rs_principal := (client0, 0, replicate 100 garbled)\<rparr>) = (q, st')"
    by (rule prod.exhaust)
  have "fst r' \<le> Suc (fst r)" if "http_send h0 url hs body r = (q, r')" for url hs body r q r'
    using that by (auto simp: h0_def split: list.splits prod.splits)
  from requests_are_bounded [of h0 fst, OF this run] run show ?thesis by auto
qed

section \<open>Tool calls\<close>



section \<open>The command line\<close>



end
