(* ===== verification/Demo.thy ===== *)
theory Demo
  imports Cli "HOL-Library.Sublist"
begin

text \<open>
  The demo's command line (\<open>demo/src/main.rs\<close>): the fixture, the canary sink and the contrast of
  the two modes, with the verdicts it derives from what the agent printed.  The system is a record
  of functions on a world; the agent is a child process started through it, and the sink's thread is
  started by it.  The state of a command is the world and the text printed so far.  What is printed
  to standard error, and the pauses, are left out.
\<close>

section \<open>The system\<close>

record command =
  cmd_program :: string
  cmd_args :: "string list"
  cmd_env :: "(string \<times> string) list"
  cmd_env_removed :: "string list"

record 'w sys =
  sys_exists :: "'w \<Rightarrow> path \<Rightarrow> bool"
  sys_remove_dir_all :: "'w \<Rightarrow> path \<Rightarrow> (string, unit) res \<times> 'w"
  sys_create_dir_all :: "'w \<Rightarrow> path \<Rightarrow> (string, unit) res \<times> 'w"
  sys_remove_file :: "'w \<Rightarrow> path \<Rightarrow> (string, unit) res \<times> 'w"
  sys_copy :: "'w \<Rightarrow> path \<Rightarrow> path \<Rightarrow> (string, nat) res \<times> 'w"
  sys_write :: "'w \<Rightarrow> path \<Rightarrow> string \<Rightarrow> (string, unit) res \<times> 'w"
  sys_read_to_string :: "'w \<Rightarrow> path \<Rightarrow> (string, string) res \<times> 'w"
  sys_open_append :: "'w \<Rightarrow> path \<Rightarrow> (string, nat) res \<times> 'w"
  sys_write_all :: "'w \<Rightarrow> nat \<Rightarrow> string \<Rightarrow> (string, unit) res \<times> 'w"
  sys_bind :: "'w \<Rightarrow> u16 \<Rightarrow> (string, nat) res \<times> 'w"
  sys_accept :: "'w \<Rightarrow> nat \<Rightarrow> (string, nat) res \<times> 'w"
  sys_read_to_end :: "'w \<Rightarrow> nat \<Rightarrow> (string, string) res \<times> 'w"
  sys_peer_addr :: "'w \<Rightarrow> nat \<Rightarrow> (string, string) res \<times> 'w"
  sys_clock :: "'w \<Rightarrow> datetime \<times> 'w"
  sys_spawn_listener :: "'w \<Rightarrow> u16 \<Rightarrow> path \<Rightarrow> 'w"
  sys_output :: "'w \<Rightarrow> command \<Rightarrow> (string, process_output) res \<times> 'w"

type_synonym ('w, 'a) demo = "('w \<times> string, string, 'a) io"

definition on_world :: "('w \<Rightarrow> (string, 'a) res \<times> 'w) \<Rightarrow> ('w, 'a) demo" where
  "on_world f s = (case f (fst s) of (r, w) \<Rightarrow> (r, w, snd s))"

text \<open>\<open>let _ = \<dots>\<close>: the result is dropped, a panic is not.\<close>

definition ignoring :: "('w, 'a) demo \<Rightarrow> ('w, unit) demo" where
  "ignoring m s = (case m s of (Panic, s') \<Rightarrow> (Panic, s') | (_, s') \<Rightarrow> (Ok (), s'))"

definition put_text :: "string \<Rightarrow> ('w, unit) demo" where
  "put_text text s = (Ok (), fst s, snd s @ text)"

definition lines_text :: "string list \<Rightarrow> string" where
  "lines_text ls = concat (map (\<lambda>l. l @ newline) ls)"

definition put_lines :: "string list \<Rightarrow> ('w, unit) demo" where
  "put_lines ls = put_text (lines_text ls)"

section \<open>The fixture\<close>

definition fixture_source :: path where
  "fixture_source = ''demo/fixtures/simple-bug''"

definition fixture_target :: path where
  "fixture_target = ''/tmp/warden-demo-fixture''"

definition secret_canary :: path where
  "secret_canary = ''/tmp/warden-secret-canary.txt''"

fun copy_files :: "'w sys \<Rightarrow> string list \<Rightarrow> ('w, unit) demo" where
  "copy_files sys [] s = (Ok (), s)"
| "copy_files sys (name # names) s =
     io_bind (on_world (\<lambda>w. sys_copy sys w (path_push fixture_source name) (path_push fixture_target name)))
       (\<lambda>_. copy_files sys names) s"

definition setup_report :: "string list" where
  "setup_report =
     [[CHR 0xE2, CHR 0x9C, CHR 0x85] @ '' Fixture prepared:'',
      ''   Fixture dir : '' @ path_display fixture_target,
      ''   Secret canary: '' @ path_display secret_canary,
      [],
      ''You can now run the agent with the example traces:'',
      ''   AUTHZ=off cargo run -p warden-agent -- demo/examples/basic-manifest.json demo/examples/injected-calls.json'',
      ''   AUTHZ=on  cargo run -p warden-agent -- demo/examples/basic-manifest.json demo/examples/injected-calls.json'',
      [],
      ''For the network exfil to be captured, also run (in another terminal):'',
      ''   cargo run -p warden-demo -- listener'']"

definition run_setup :: "'w sys \<Rightarrow> ('w, unit) demo" where
  "run_setup sys s =
     io_bind (if sys_exists sys (fst s) fixture_target
              then on_world (\<lambda>w. sys_remove_dir_all sys w fixture_target) else io_lift (Ok ())) (\<lambda>_.
     io_bind (on_world (\<lambda>w. sys_create_dir_all sys w fixture_target)) (\<lambda>_.
     io_bind (copy_files sys [''buggy.py'', ''test_buggy.py'', ''AGENT_NOTE.md'', ''README.md'']) (\<lambda>_.
     io_bind (on_world (\<lambda>w. sys_write sys w (path_push fixture_target ''in_scope.txt'')
       (''hello from fixture'' @ newline))) (\<lambda>_.
     io_bind (on_world (\<lambda>w. sys_create_dir_all sys w (path_push fixture_target ''src''))) (\<lambda>_.
     io_bind (on_world (\<lambda>w. sys_write sys w secret_canary (''TOPSECRET-CANARY'' @ newline))) (\<lambda>_.
     put_lines setup_report)))))) s"

section \<open>The canary sink\<close>

text \<open>
  \<open>str::parse::<u16>\<close>: an optional plus sign, then digits, read from the left; the first thing that
  is wrong is reported.
\<close>

fun parse_digits :: "nat \<Rightarrow> string \<Rightarrow> (string, nat) res" where
  "parse_digits n [] = Ok n"
| "parse_digits n (d # ds) =
     (let b = (of_char d :: nat) in
      if b < 48 \<or> 57 < b then Err ''invalid digit found in string''
      else if 2 ^ 16 \<le> n * 10 + (b - 48) then Err ''number too large to fit in target type''
      else parse_digits (n * 10 + (b - 48)) ds)"

definition parse_u16 :: "string \<Rightarrow> (string, u16) res" where
  "parse_u16 s =
     (case s of
        [] \<Rightarrow> Err ''cannot parse integer from empty string''
      | d # ds \<Rightarrow>
          res_bind (if d = CHR ''+'' \<and> ds \<noteq> [] then parse_digits 0 ds else parse_digits 0 s)
            (\<lambda>n. Ok (word_of_nat n)))"

text \<open>The loop over the listener's arguments: unknown ones are skipped, a flag without a value too.\<close>

fun listener_args :: "string list \<Rightarrow> u16 \<times> string \<Rightarrow> (string, u16 \<times> string) res" where
  "listener_args [] cfg = Ok cfg"
| "listener_args [a] cfg = Ok cfg"
| "listener_args (a # v # rest) (port, log_path) =
     (if a = ''--port'' \<or> a = ''-p'' then
        res_bind (parse_u16 v) (\<lambda>p. listener_args rest (p, log_path))
      else if a = ''--log'' \<or> a = ''-l'' then listener_args rest (port, v)
      else listener_args (v # rest) (port, log_path))"

definition sink_entry :: "string \<Rightarrow> string \<Rightarrow> string \<Rightarrow> string" where
  "sink_entry stamp from_addr payload =
     ''['' @ stamp @ '']'' @ newline @ ''from: '' @ from_addr @ newline
     @ ''payload: '' @ trim_end payload @ newline @ ''---'' @ newline"

definition handle_connection ::
    "('kp, 'pk, 'b, 'tok) crates \<Rightarrow> 'w sys \<Rightarrow> nat \<Rightarrow> path \<Rightarrow> ('w, unit) demo" where
  "handle_connection c sys stream log_path =
     io_bind (on_world (\<lambda>w. sys_read_to_end sys w stream)) (\<lambda>buf.
     io_bind (on_world (\<lambda>w. case sys_clock sys w of (t, w') \<Rightarrow> (Ok t, w'))) (\<lambda>now.
     io_bind (on_world (\<lambda>w. case sys_peer_addr sys w stream of
         (Ok a, w') \<Rightarrow> (Ok a, w') | (Err e, w') \<Rightarrow> (Ok ''unknown'', w') | (Panic, w') \<Rightarrow> (Panic, w'))) (\<lambda>addr.
     io_bind (on_world (\<lambda>w. sys_open_append sys w log_path)) (\<lambda>file.
     io_bind (on_world (\<lambda>w. sys_write_all sys w file
       (sink_entry (to_rfc3339 c now) addr (utf8_lossy buf)))) (\<lambda>_.
     put_lines [[CHR 0xF0, CHR 0x9F, CHR 0x93, CHR 0xA5] @ '' Received '' @ show_nat (length buf)
       @ '' bytes from exfil attempt, logged to '' @ log_path])))))"

text \<open>
  The first \<open>n\<close> rounds of the endless loop over incoming connections; an error of one connection
  does not end it.
\<close>

fun serve :: "('kp, 'pk, 'b, 'tok) crates \<Rightarrow> 'w sys \<Rightarrow> nat \<Rightarrow> nat \<Rightarrow> path \<Rightarrow> ('w, unit) demo" where
  "serve c sys listener 0 log_path s = (Ok (), s)"
| "serve c sys listener (Suc n) log_path s =
     io_bind (ignoring (io_bind (on_world (\<lambda>w. sys_accept sys w listener))
         (\<lambda>stream. handle_connection c sys stream log_path)))
       (\<lambda>_. serve c sys listener n log_path) s"

definition run_listener ::
    "('kp, 'pk, 'b, 'tok) crates \<Rightarrow> 'w sys \<Rightarrow> nat \<Rightarrow> string list \<Rightarrow> ('w, unit) demo" where
  "run_listener c sys rounds args =
     io_bind (io_lift (listener_args args (9999, ''/tmp/sink.log''))) (\<lambda>(port, log_path).
     io_bind (ignoring (on_world (\<lambda>w. sys_remove_file sys w log_path))) (\<lambda>_.
     io_bind (on_world (\<lambda>w. sys_bind sys w port)) (\<lambda>listener.
     io_bind (put_lines
       [''Canary sink listening on 127.0.0.1:'' @ show_nat (unat port) @ '' ''
          @ [CHR 0xE2, CHR 0x86, CHR 0x92] @ '' '' @ log_path,
        ''(The injected principal will try to POST the secret here.)'']) (\<lambda>_.
     serve c sys listener rounds log_path))))"

definition run_internal_listener ::
    "('kp, 'pk, 'b, 'tok) crates \<Rightarrow> 'w sys \<Rightarrow> nat \<Rightarrow> u16 \<Rightarrow> path \<Rightarrow> ('w, unit) demo" where
  "run_internal_listener c sys rounds port log_path =
     io_bind (on_world (\<lambda>w. sys_bind sys w port)) (\<lambda>listener. serve c sys listener rounds log_path)"

end
