(* ===== verification/Demo_Facts.thy ===== *)
theory Demo_Facts
  imports Contrast Cli_Facts
begin

text \<open>
  What the verdicts of the contrast say of the runs they are derived from: a run of the agent with
  enforcement off never looks like a denial, and what enforcement did is never missed.
\<close>

section \<open>Searching printed lines\<close>

lemma sublist_delim:
  assumes "d \<notin> set pat" "pat \<noteq> []"
  shows "sublist pat (a @ d # b) \<longleftrightarrow> sublist pat a \<or> sublist pat b"
proof
  assume "sublist pat (a @ d # b)"
  then obtain ps ss where eq: "a @ d # b = ps @ pat @ ss" by (auto simp: sublist_def)
  show "sublist pat a \<or> sublist pat b"
  proof (cases "length (ps @ pat) \<le> length a")
    case True
    then have "prefix (ps @ pat) a"
      using eq by (metis append_assoc prefixI prefix_length_prefix)
    then show ?thesis by (auto simp: prefix_def sublist_def)
  next
    case False
    have "length a < length ps"
    proof (rule ccontr)
      assume "\<not> length a < length ps"
      with False have "length a - length ps < length pat" "length ps \<le> length a" by auto
      then have "(ps @ pat @ ss) ! length a \<in> set pat" by (simp add: nth_append)
      with assms(1) show False by (simp flip: eq)
    qed
    with arg_cong [OF eq, of "drop (Suc (length a))"] have "b = drop (Suc (length a)) ps @ pat @ ss"
      by simp
    then show ?thesis by (auto simp: sublist_def)
  qed
next
  assume "sublist pat a \<or> sublist pat b"
  then show "sublist pat (a @ d # b)"
    by (metis append_Cons append_Nil sublist_appendI sublist_order.order.trans sublist_append_leftI sublist_append_rightI)
qed

lemma contains_lines:
  assumes "CHR 0x0A \<notin> set pat" "pat \<noteq> []"
  shows "contains (lines_text ls) pat \<longleftrightarrow> (\<exists>l \<in> set ls. contains l pat)"
proof (induction ls)
  case Nil
  with assms show ?case by (simp add: lines_text_def contains_def)
next
  case (Cons l ls)
  have "lines_text (l # ls) = l @ CHR 0x0A # lines_text ls" by (simp add: lines_text_def newline_def)
  with Cons sublist_delim [OF assms] show ?case by (simp add: contains_def)
qed

section \<open>Lines without a denial or an attenuation\<close>

definition quiet :: "string \<Rightarrow> bool" where
  "quiet l \<longleftrightarrow> \<not> contains l ''[DENY'' \<and> \<not> contains l ''ATTENUATED''"

text \<open>What is asked of the texts that come from outside: error messages of the system, identifiers.\<close>

definition plain_errors :: "('w, 'kp) os \<Rightarrow> bool" where
  "plain_errors os \<longleftrightarrow>
     (\<forall>call w e w'. execute os call w = (Err (Io e), w') \<longrightarrow> CHR ''['' \<notin> set e \<and> \<not> contains e ''ATTENUATED'')"

definition uuid_text :: "('kp, 'pk, 'b, 'tok) crates \<Rightarrow> bool" where
  "uuid_text c \<longleftrightarrow> (\<forall>u. set (uuid_to_string c u) \<subseteq> set ''0123456789abcdef-'')"

lemma contains_chars: "contains l pat \<Longrightarrow> x \<in> set pat \<Longrightarrow> x \<in> set l"
  unfolding contains_def using set_mono_sublist by blast

lemma not_DENY: "CHR ''['' \<notin> set l \<Longrightarrow> \<not> contains l ''[DENY''"
  by (auto dest: contains_chars [where x = "CHR ''[''"])

lemma not_ATTENUATED: "CHR ''U'' \<notin> set l \<Longrightarrow> \<not> contains l ''ATTENUATED''"
  by (auto dest: contains_chars [where x = "CHR ''U''"])

lemma quiet_chars: "CHR ''['' \<notin> set l \<Longrightarrow> CHR ''U'' \<notin> set l \<Longrightarrow> quiet l"
  by (simp add: quiet_def not_DENY not_ATTENUATED)

lemma show_nat_chars: "x \<in> set (show_nat n) \<Longrightarrow> (of_char x :: nat) < 58"
proof (induction n rule: show_nat.induct)
  case (1 n)
  have "(of_char (digit_char k) :: nat) < 58" if "k < 10" for k
    using that by (simp add: digit_char_def)
  with 1 show ?case by (subst (asm) show_nat.simps) (auto split: if_splits)
qed

lemma number_chars [simp]:
  "CHR ''['' \<notin> set (show_nat n)" "CHR ''U'' \<notin> set (show_nat n)"
  "CHR ''['' \<notin> set (show_int i)" "CHR ''U'' \<notin> set (show_int i)"
proof -
  have nat: "CHR ''['' \<notin> set (show_nat k)" "CHR ''U'' \<notin> set (show_nat k)" for k
    using show_nat_chars [of "CHR ''[''" k] show_nat_chars [of "CHR ''U''" k] by auto
  then show "CHR ''['' \<notin> set (show_nat n)" "CHR ''U'' \<notin> set (show_nat n)"
    "CHR ''['' \<notin> set (show_int i)" "CHR ''U'' \<notin> set (show_int i)"
    by (simp_all add: show_int_def)
qed

lemma tool_name_chars [simp]:
  "CHR ''['' \<notin> set (call_tool_name call)" "CHR ''U'' \<notin> set (call_tool_name call)"
  by (cases call; simp)+

lemma describe_output_chars [simp]:
  "CHR ''['' \<notin> set (describe_output out)" "CHR ''U'' \<notin> set (describe_output out)"
  by (cases out; auto simp: describe_output_def debug_status_def split: option.splits)+

lemma uuid_text_chars [simp]:
  assumes "uuid_text c"
  shows "CHR ''['' \<notin> set (uuid_to_string c u)" "CHR ''U'' \<notin> set (uuid_to_string c u)"
  using assms unfolding uuid_text_def by (auto dest!: spec [of _ u])

text \<open>A line that opens with a bracket, and one that ends in a text from outside.\<close>

lemma bracket_quiet:
  assumes "CHR ''['' \<notin> set l" "\<not> prefix ''DENY'' l" "\<not> contains l ''ATTENUATED''"
  shows "quiet (CHR ''['' # l)"
proof -
  have "\<not> contains (CHR ''['' # l) ''[DENY''"
    using assms(2) not_DENY [OF assms(1)] by (simp add: contains_def sublist_Cons_right)
  moreover have "\<not> contains (CHR ''['' # l) ''ATTENUATED''"
    using assms(3) by (simp add: contains_def sublist_Cons_right)
  ultimately show ?thesis by (simp add: quiet_def)
qed

lemma not_ATTENUATED_append:
  assumes "CHR ''U'' \<notin> set a" "\<not> contains b ''ATTENUATED''"
  shows "\<not> contains (a @ CHR '' '' # b) ''ATTENUATED''"
  using assms not_ATTENUATED [OF assms(1)] by (simp add: contains_def sublist_delim)

section \<open>The baseline\<close>

text \<open>What a step with enforcement off decides and logs.\<close>

definition baseline_outcome :: "step_outcome \<Rightarrow> bool" where
  "baseline_outcome out \<longleftrightarrow>
     (case so_decision out of
        Allowed res \<Rightarrow> True
      | Denied reason \<Rightarrow> False
      | Errored e \<Rightarrow> \<exists>s. e = show_tool_error (Io s) \<and> CHR ''['' \<notin> set s \<and> \<not> contains s ''ATTENUATED'')"

definition baseline_event :: "audit_event \<Rightarrow> bool" where
  "baseline_event ev \<longleftrightarrow>
     (case ev of
        ToolAllowed name \<Rightarrow> CHR ''['' \<notin> set name \<and> CHR ''U'' \<notin> set name
      | ToolDenied name reason \<Rightarrow> CHR ''['' \<notin> set name \<and> CHR ''U'' \<notin> set name
          \<and> (\<exists>s. reason = ''execution error: '' @ show_tool_error (Io s) \<and> CHR ''['' \<notin> set s
               \<and> \<not> contains s ''ATTENUATED'')
      | RootMinted u \<Rightarrow> True
      | CapabilityAttenuated u \<Rightarrow> False)"

lemma baseline_outcome_quiet: "baseline_outcome out \<Longrightarrow> quiet (print_outcome out)"
proof (cases "so_decision out")
  case (Allowed res)
  let ?l = "''ALLOW] '' @ pad8 (call_tool_name (so_call out)) @ '' '' @ describe_output res"
  have "print_outcome out = CHR ''['' # ?l" by (simp add: print_outcome_def Allowed)
  moreover have "quiet (CHR ''['' # ?l)"
    by (rule bracket_quiet) (simp_all add: pad8_def not_ATTENUATED)
  ultimately show ?thesis by simp
next
  case (Errored e)
  assume "baseline_outcome out"
  then obtain s where s: "e = ''tool execution io error: '' @ s" "CHR ''['' \<notin> set s" "\<not> contains s ''ATTENUATED''"
    by (auto simp: baseline_outcome_def Errored)
  let ?a = "''ERROR] '' @ pad8 (call_tool_name (so_call out)) @ '' tool execution io error:''"
  have "print_outcome out = CHR ''['' # (?a @ CHR '' '' # s)" by (simp add: print_outcome_def Errored s(1))
  moreover have "quiet (CHR ''['' # (?a @ CHR '' '' # s))"
    using s(2,3) by (intro bracket_quiet not_ATTENUATED_append) (simp_all add: pad8_def)
  ultimately show ?thesis by simp
qed (simp add: baseline_outcome_def)

lemma baseline_event_quiet: "uuid_text c \<Longrightarrow> baseline_event ev \<Longrightarrow> quiet (show_event c ev)"
proof (cases ev)
  case (ToolDenied name reason)
  assume "baseline_event ev"
  then obtain s where s: "CHR ''['' \<notin> set name" "CHR ''U'' \<notin> set name"
      "reason = ''execution error: tool execution io error: '' @ s"
      "CHR ''['' \<notin> set s" "\<not> contains s ''ATTENUATED''"
    by (auto simp: baseline_event_def ToolDenied)
  let ?a = "''DENIED        '' @ name @ ''  '' @ [CHR 0xE2, CHR 0x80, CHR 0x94] @ '' execution error: tool execution io error:''"
  have "show_event c ev = ?a @ CHR '' '' # s" by (simp add: ToolDenied s(3))
  moreover have "quiet (?a @ CHR '' '' # s)"
    unfolding quiet_def using s by (intro conjI not_ATTENUATED_append not_DENY) simp_all
  ultimately show ?thesis by simp
qed (auto simp: baseline_event_def intro!: quiet_chars)

lemma step_bypassed_baseline:
  assumes "step_bypassed c os call (self, w) = (Ok out, self', w')" "plain_errors os"
  shows "baseline_outcome out \<and> (\<exists>ev. logged c [ev] self self' \<and> baseline_event ev
    \<and> ((\<exists>e. so_decision out = Errored e) \<longrightarrow> (\<exists>n r. ev = ToolDenied n r)))"
proof -
  obtain r w1 where r: "execute os call w = (r, w1)"
      "case r of
         Ok res \<Rightarrow> so_decision out = Allowed res \<and> logged c [ToolAllowed (call_tool_name call)] self self'
       | Err e \<Rightarrow> so_decision out = Errored (show_tool_error e)
           \<and> logged c [ToolDenied (call_tool_name call) (''execution error: '' @ show_tool_error e)] self self'
       | Panic \<Rightarrow> False"
    using step_bypassed_spec [OF assms(1)] by blast
  show ?thesis
  proof (cases r)
    case (Ok res)
    with r(2) show ?thesis by (auto simp: baseline_outcome_def baseline_event_def)
  next
    case (Err e)
    from execute_Err [of os call w e w1] r(1) Err obtain s where s: "e = Io s" by auto
    with r(1) Err assms(2) have "CHR ''['' \<notin> set s \<and> \<not> contains s ''ATTENUATED''"
      unfolding plain_errors_def by blast
    with r(2) Err s show ?thesis by (auto simp: baseline_outcome_def baseline_event_def)
  qed (use r in simp)
qed

lemma step_all_baseline:
  "step_all c os calls (self, w) = (Ok outs, self', w') \<Longrightarrow> o_mode self = Bypassed \<Longrightarrow> plain_errors os \<Longrightarrow>
    (\<forall>out \<in> set outs. baseline_outcome out)
    \<and> (\<exists>evs. logged c evs self self' \<and> (\<forall>ev \<in> set evs. baseline_event ev)
         \<and> ((\<exists>out \<in> set outs. \<exists>e. so_decision out = Errored e) \<longrightarrow> (\<exists>n r. ToolDenied n r \<in> set evs)))"
proof (induction calls arbitrary: self w outs)
  case Nil
  then show ?case by (auto intro: exI [of _ "[]"])
next
  case (Cons call calls)
  from Cons.prems(1) obtain out self1 w1 outs1 where s: "step c os call (self, w) = (Ok out, self1, w1)"
      "step_all c os calls (self1, w1) = (Ok outs1, self', w')" "outs = out # outs1"
    by (auto simp: res_split_rules)
  from s(1) Cons.prems(2) have "step_bypassed c os call (self, w) = (Ok out, self1, w1)" by (simp add: step_def)
  from step_bypassed_baseline [OF this Cons.prems(3)] obtain ev where
    ev: "baseline_outcome out" "logged c [ev] self self1" "baseline_event ev"
      "(\<exists>e. so_decision out = Errored e) \<longrightarrow> (\<exists>n r. ev = ToolDenied n r)" by blast
  from Cons.IH [OF s(2)] logged_same [OF ev(2)] Cons.prems(2,3) obtain evs where
    evs: "\<forall>out \<in> set outs1. baseline_outcome out" "logged c evs self1 self'" "\<forall>ev \<in> set evs. baseline_event ev"
      "(\<exists>out \<in> set outs1. \<exists>e. so_decision out = Errored e) \<longrightarrow> (\<exists>n r. ToolDenied n r \<in> set evs)"
    by auto
  have logs: "logged c (ev # evs) self self'" using logged_trans [OF ev(2) evs(2)] by simp
  have events: "\<forall>x \<in> set (ev # evs). baseline_event x" using ev(3) evs(3) by simp
  have outcomes: "\<forall>x \<in> set outs. baseline_outcome x" using ev(1) evs(1) s(3) by simp
  have errors: "(\<exists>out \<in> set outs. \<exists>e. so_decision out = Errored e) \<longrightarrow> (\<exists>n r. ToolDenied n r \<in> set (ev # evs))"
    using ev(4) evs(4) s(3) by (metis list.set_intros set_ConsD)
  show ?case using logs events outcomes errors by blast
qed

lemma audit_header_quiet:
  "quiet (newline @ ''--- audit log ('' @ show_nat n @ '' entries) ---'')"
  by (rule quiet_chars) (simp_all add: newline_def)

lemma baseline_report_quiet:
  assumes "uuid_text c" "\<forall>out \<in> set outs. baseline_outcome out"
    and "\<forall>e \<in> set (o_audit_log self). baseline_event (ae_event e)"
  shows "\<forall>l \<in> set (report c outs self). quiet l"
  using assms audit_header_quiet [of "length (o_audit_log self)"]
  by (auto simp: report_def audit_report_def baseline_outcome_quiet baseline_event_quiet)

text \<open>The lines of the whole program, on a calls file.\<close>

lemma agent_main_scripted:
  assumes "agent_main c os h parse_manifest parse_calls env args r w = (Returned, printed, w')" "length args \<ge> 3"
  obtains m self w1 w2 calls w3 outs self' where
    "new_orchestrator c os m (mode_of_env env) w1 = (Ok self, w2)"
    "run c os calls (self, w3) = (Ok outs, self', w')"
    "printed = (''AUTHZ = '' @ show_mode (o_mode self) @ newline) # report c outs self'"
proof -
  obtain q w1 where l: "load os parse_manifest (args ! 1) ''reading manifest'' ''parsing manifest json'' w = (q, w1)"
    by fastforce
  from assms have args: "args \<noteq> []" "\<not> length args < 2" by auto
  with assms l obtain m where m: "q = Ok m" by (cases q) (auto simp: agent_main_def)
  obtain n w2 where n: "new_orchestrator c os m (mode_of_env env) w1 = (n, w2)" by fastforce
  with assms l args m obtain self where self: "n = Ok self" by (cases n) (auto simp: agent_main_def)
  obtain k w3 where k: "load os parse_calls (args ! 2) ''reading calls'' ''parsing calls json'' w2 = (k, w3)"
    by fastforce
  from assms l args m n self obtain printed' where
    feed: "run_feed c os h parse_calls env args m r self w2 = (Returned, printed', w')"
      and printed: "printed = (''AUTHZ = '' @ show_mode (o_mode self) @ newline) # printed'"
    by (auto simp: agent_main_def split: prod.splits)
  from feed assms(2) k obtain calls where calls: "k = Ok calls"
      and scripted: "run_scripted_feed c os calls self w3 = (Returned, printed', w')"
    by (cases k) (auto simp: run_feed_def)
  obtain o1 self' w4 where run: "run c os calls (self, w3) = (o1, self', w4)" by (cases rule: prod_cases3)
  with scripted obtain outs where "o1 = Ok outs" "w4 = w'" "printed' = report c outs self'"
    by (cases o1) (auto simp: run_scripted_feed_def)
  with that n self run printed show thesis by blast
qed

lemma error_line:
  assumes "l \<in> set (report c outs self)" "prefix ''[ERROR]'' l"
  shows "\<exists>out \<in> set outs. \<exists>e. so_decision out = Errored e"
proof -
  have "\<not> prefix ''[ERROR]'' (show_event c ev)" for ev by (cases ev) simp_all
  with assms obtain out where "out \<in> set outs" "prefix ''[ERROR]'' (print_outcome out)"
    by (auto simp: report_def audit_report_def newline_def)
  then show ?thesis by (cases "so_decision out") (auto simp: print_outcome_def)
qed

lemma baseline_main:
  assumes main: "agent_main c os h parse_manifest parse_calls env args r w = (Returned, printed, w')"
    and "length args \<ge> 3" and mode: "mode_of_env env = Bypassed" and plain: "plain_errors os" and ids: "uuid_text c"
  shows "(\<forall>l \<in> set printed. quiet l)
    \<and> (\<forall>l \<in> set printed. prefix ''[ERROR]'' l \<longrightarrow> (\<exists>n reason. show_event c (ToolDenied n reason) \<in> set printed))"
proof (rule agent_main_scripted [OF main assms(2)])
  fix m self w1 w2 calls w3 outs self'
  assume new: "new_orchestrator c os m (mode_of_env env) w1 = (Ok self, w2)"
    and run: "run c os calls (self, w3) = (Ok outs, self', w')"
    and printed: "printed = (''AUTHZ = '' @ show_mode (o_mode self) @ newline) # report c outs self'"
  from new_orchestrator_spec [OF new] mode have self: "o_mode self = Bypassed"
      "map ae_event (o_audit_log self) = [RootMinted (tm_task_id m)]" by auto
  from step_all_baseline [of c os calls self w3 outs self' w'] run self(1) plain obtain evs where
    evs: "\<forall>out \<in> set outs. baseline_outcome out" "logged c evs self self'" "\<forall>ev \<in> set evs. baseline_event ev"
      "(\<exists>out \<in> set outs. \<exists>e. so_decision out = Errored e) \<longrightarrow> (\<exists>n r. ToolDenied n r \<in> set evs)"
    by (auto simp: run_step_all)
  have log: "set (map ae_event (o_audit_log self')) = set (RootMinted (tm_task_id m) # evs)"
    using evs(2) self(2) by (auto simp: logged_def)
  then have "\<forall>e \<in> set (o_audit_log self'). ae_event e = RootMinted (tm_task_id m) \<or> ae_event e \<in> set evs" by auto
  then have "\<forall>e \<in> set (o_audit_log self'). baseline_event (ae_event e)"
    using evs(3) by (auto simp: baseline_event_def)
  from baseline_report_quiet [OF ids evs(1) this] have "\<forall>l \<in> set (report c outs self'). quiet l" .
  moreover have "quiet (''AUTHZ = '' @ show_mode Bypassed @ newline)" by code_simp
  ultimately have quiet: "\<forall>l \<in> set printed. quiet l" using printed self(1) by auto
  have "show_event c ev \<in> set printed" if "ev \<in> set evs" for ev
  proof -
    have "ev \<in> ae_event ` set (o_audit_log self')" using that log by auto
    then show ?thesis by (auto simp: printed report_def audit_report_def)
  qed
  moreover have "\<exists>out \<in> set outs. \<exists>e. so_decision out = Errored e" if "l \<in> set printed" "prefix ''[ERROR]'' l" for l
    using error_line [of l c outs self'] that by (auto simp: printed)
  ultimately show ?thesis using quiet evs(4) by blast
qed

section \<open>Enforcement\<close>

text \<open>Whatever enforcement did is printed: each outcome's line, and each event of the log.\<close>

lemma report_lines:
  "out \<in> set outs \<Longrightarrow> print_outcome out \<in> set (report c outs self)"
  "e \<in> set (o_audit_log self) \<Longrightarrow> show_event c (ae_event e) \<in> set (report c outs self)"
  by (auto simp: report_def audit_report_def)

lemma run_accounted:
  assumes "run c os calls (self, w) = (Ok outs, self', w')" "o_mode self = Enforced"
  shows "\<exists>evss. list_all2 (outcome_events (o_task_id self)) outs evss \<and> logged c (concat evss) self self'"
proof -
  let ?st = "\<lparr>rs_principal = scripted_new calls, rs_self = self, rs_world = w, rs_outcomes = []\<rparr>"
  obtain q st where q: "run_principal c os scripted (turn_budget (scripted_new calls)) ?st = (q, st)" by fastforce
  with assms(1) have "q = Ok ()" "rs_outcomes st = outs" "rs_self st = self'"
    by (cases q; auto simp: run_def Let_def)+
  with run_principal_accounted [of c os scripted _ ?st "()" st] q assms(2) show ?thesis
    by (auto simp: accounted_def)
qed

lemma executed_is_attenuated:
  assumes "run c os calls (self, w) = (Ok outs, self', w')" "o_mode self = Enforced"
    and "out \<in> set outs" "\<nexists>reason. so_decision out = Denied reason"
  shows "\<exists>e \<in> set (o_audit_log self'). ae_event e = CapabilityAttenuated (o_task_id self)"
proof -
  obtain evss where e: "list_all2 (outcome_events (o_task_id self)) outs evss" "logged c (concat evss) self self'"
    using run_accounted [OF assms(1,2)] by blast
  from assms(3) obtain i where i: "i < length outs" "out = outs ! i" by (auto simp: in_set_conv_nth)
  with e(1) have "outcome_events (o_task_id self) out (evss ! i)" "i < length evss"
    by (auto simp: list_all2_conv_all_nth)
  then have "CapabilityAttenuated (o_task_id self) \<in> set (evss ! i)" "evss ! i \<in> set evss"
    using assms(4) nth_mem [of i evss] by (auto simp only: outcome_events_def list.set insert_iff)
  then have "CapabilityAttenuated (o_task_id self) \<in> set (concat evss)" by auto
  moreover obtain es where "o_audit_log self' = o_audit_log self @ es" "map ae_event es = concat evss"
    using e(2) by (auto simp: logged_def)
  ultimately have "CapabilityAttenuated (o_task_id self) \<in> ae_event ` set es" by (metis list.set_map)
  with \<open>o_audit_log self' = _\<close> show ?thesis by auto
qed

lemma reason_printed:
  assumes "so_decision out = Denied reason" "contains reason pat"
  shows "contains (print_outcome out) pat"
proof -
  have "sublist pat (''['' @ ''DENY '' @ ''] '' @ pad8 (call_tool_name (so_call out)) @ '' '' @ reason)"
    using assms(2) unfolding contains_def
    by (meson sublist_append_leftI sublist_order.order.trans)
  then show ?thesis by (simp add: contains_def print_outcome_def assms(1))
qed

section \<open>Refusals the verdicts do not look for\<close>

definition verdict_reasons :: "string list" where
  "verdict_reasons =
     [''read path is outside capability scope'', ''binary is outside capability exec allowlist'',
      ''network policy denies all egress'']"

definition unseen :: "string \<Rightarrow> bool" where
  "unseen l \<longleftrightarrow> (\<forall>pat \<in> set verdict_reasons. \<not> contains l pat)"

lemma unseen_chars: "CHR ''p'' \<notin> set l \<Longrightarrow> unseen l"
  by (auto simp: unseen_def verdict_reasons_def dest!: contains_chars [where x = "CHR ''p''"])

lemma unseen_number_chars [simp]:
  "CHR ''p'' \<notin> set (show_nat n)" "CHR ''p'' \<notin> set (show_int i)" "CHR ''p'' \<notin> set (call_tool_name call)"
  "CHR ''p'' \<notin> set (describe_output out)"
proof -
  show num: "CHR ''p'' \<notin> set (show_nat n)" "CHR ''p'' \<notin> set (show_int i)" for n i
    using show_nat_chars [of "CHR ''p''"] by (auto simp: show_int_def)
  show "CHR ''p'' \<notin> set (call_tool_name call)" by (cases call) simp_all
  show "CHR ''p'' \<notin> set (describe_output out)"
    by (cases out) (auto simp: describe_output_def debug_status_def num split: option.splits)
qed

lemma unseen_write_lines:
  "unseen (''[DENY ] '' @ pad8 (call_tool_name call) @ '' '' @ ''write path is outside capability scope'')"
  "unseen (''DENIED        '' @ call_tool_name call @ ''  '' @ [CHR 0xE2, CHR 0x80, CHR 0x94] @ '' ''
     @ ''write path is outside capability scope'')"
  by (cases call; simp only: call_tool_name.simps; code_simp)+

definition write_only_refusals :: "step_outcome \<Rightarrow> bool" where
  "write_only_refusals out \<longleftrightarrow>
     (\<exists>res. so_decision out = Allowed res) \<or> so_decision out = Denied ''write path is outside capability scope''"

lemma unseen_outcome: "write_only_refusals out \<Longrightarrow> unseen (print_outcome out)"
proof (cases "so_decision out")
  case (Allowed res)
  then show ?thesis by (simp add: print_outcome_def unseen_chars pad8_def)
qed (use unseen_write_lines(1) in \<open>auto simp: write_only_refusals_def print_outcome_def\<close>)

lemma unseen_event:
  assumes "uuid_text c" "outcome_events u out evs" "write_only_refusals out" "ev \<in> set evs"
  shows "unseen (show_event c ev)"
proof -
  have ids: "CHR ''p'' \<notin> set (uuid_to_string c u)"
    using assms(1) unfolding uuid_text_def by (auto dest!: spec [of _ u])
  from assms(2,4) consider "ev = CapabilityAttenuated u" | "ev = outcome_event (so_call out) (so_decision out)"
    by (auto simp: outcome_events_def)
  then show ?thesis
  proof cases
    case 2
    with assms(3) unseen_write_lines show ?thesis
      by (auto simp: write_only_refusals_def outcome_event_def unseen_chars)
  qed (simp add: unseen_chars ids)
qed

lemma unseen_report:
  assumes "run c os calls (self, w) = (Ok outs, self', w')" "o_mode self = Enforced" "uuid_text c"
    and "map ae_event (o_audit_log self) = [RootMinted u]"
    and "\<forall>out \<in> set outs. write_only_refusals out"
  shows "\<forall>l \<in> set (report c outs self'). unseen l"
proof -
  obtain evss where e: "list_all2 (outcome_events (o_task_id self)) outs evss" "logged c (concat evss) self self'"
    using run_accounted [OF assms(1,2)] by blast
  have minted: "unseen (show_event c (RootMinted u))"
    using assms(3) unfolding uuid_text_def by (auto intro!: unseen_chars dest!: spec [of _ u])
  have event: "unseen (show_event c ev)" if "ev \<in> set (concat evss)" for ev
  proof -
    from that obtain evs where "evs \<in> set evss" "ev \<in> set evs" by auto
    then obtain i where i: "i < length evss" "ev \<in> set (evss ! i)" by (metis in_set_conv_nth)
    with e(1) have "outcome_events (o_task_id self) (outs ! i) (evss ! i)" "outs ! i \<in> set outs"
      by (auto simp: list_all2_conv_all_nth)
    with i(2) assms(3,5) show ?thesis by (meson unseen_event)
  qed
  have "map ae_event (o_audit_log self') = RootMinted u # concat evss"
    using e(2) assms(4) unfolding logged_def by (elim exE conjE) simp
  from arg_cong [OF this, of set]
  have log: "\<forall>x \<in> ae_event ` set (o_audit_log self'). unseen (show_event c x)"
    using minted event by simp
  have "unseen (newline @ ''--- audit log ('' @ show_nat n @ '' entries) ---'')" for n
    by (rule unseen_chars) (simp add: newline_def)
  with log assms(5) show ?thesis by (auto simp: report_def audit_report_def unseen_outcome)
qed

end
