(* ===== verification/Serde_Attack.thy ===== *)
theory Serde_Attack
  imports Contrast Availability
begin

text \<open>
  The runnable demonstration \<open>pep/examples/serde_boundary_attack.rs\<close>: a child capability is
  serialized, its plaintext permissions are widened, and it is read back; its signature still
  verifies, and the enforcement point rejects it.  The proof runs the example on every system that
  keeps the documented laws.
\<close>

section \<open>The example\<close>

definition attack_manifest :: task_manifest where
  "attack_manifest =
     \<lparr>tm_task_id = 0, repo_root = ''/repo'', tm_ttl_seconds = 60,
      filesystem = \<lparr>fp_readable_roots = [''/repo''], fp_writable_roots = [''/repo/src'']\<rparr>,
      tm_exec = \<lparr>allowed_binaries = [''python'']\<rparr>, tm_network = DenyAll\<rparr>"

definition attack_request :: attenuation_request where
  "attack_request =
     \<lparr>ar_readable_roots = [''/repo/pkg''], ar_writable_roots = [], ar_exec_binaries = [],
      ar_network = DenyAll, ar_ttl_seconds = 30, ar_request_binding = None\<rparr>"

text \<open>
  The struct as JSON with three fields of its permissions replaced, read back: every other field
  comes back as it was.
\<close>

definition tampered_child :: "'tok child_capability \<Rightarrow> 'tok child_capability" where
  "tampered_child child =
     child\<lparr>child_permissions := (child_permissions child)
       \<lparr>readable_roots := [''/repo''], writable_roots := [''/repo/src''], exec_binaries := [''python'']\<rparr>\<rparr>"

definition arrow :: string where
  "arrow = [CHR 0xE2, CHR 0x86, CHR 0x92]"

definition cross :: string where
  "cross = [CHR 0xE2, CHR 0x9C, CHR 0x97]"

definition bullet :: string where
  "bullet = [CHR 0xE2, CHR 0x80, CHR 0xA2]"

definition opening_lines :: "string list" where
  "opening_lines =
     banner (''  STEP 1 '' @ em_dash @ '' Legitimate attenuation                            '')
     @ [''  Root authority:  read /repo, write /repo/src, exec {python}'',
        ''  Child attenuated: read /repo/pkg ONLY (no write, no exec)'',
        []]"

definition tampering_lines :: "string list" where
  "tampering_lines =
     banner (''  STEP 2 '' @ em_dash @ '' Attacker widens the plaintext struct              '')
     @ [''  Token bytes:      UNTOUCHED (the signed blob is intact)'',
        ''  Struct widened:   read /repo, write /repo/src, exec {python}'',
        ''  '' @ arrow @ '' The struct now claims MORE authority than the token grants.'',
        []]"

definition signature_lines :: "(capability_error, unit) res \<Rightarrow> string list" where
  "signature_lines r =
     banner (''  STEP 3 '' @ em_dash @ '' OLD check: verify_signature() only                 '')
     @ (case r of
          Ok u \<Rightarrow>
            [''  '' @ tick @ '' Signature VERIFIES '' @ em_dash @ '' the token bytes are authentic.'',
             [],
             ''  '' @ [CHR 0xE2, CHR 0x9A, CHR 0xA0, CHR 0xEF, CHR 0xB8, CHR 0x8F]
               @ ''  But the struct field was widened! A downstream PDP reading'',
             ''     capability.permissions() would see widened authority and'',
             ''     authorize read/write/exec that was never granted.'',
             [],
             ''     '' @ arrow @ '' THE SIGNATURE VERIFIED, THE AUTHORITY WIDENED ANYWAY.'']
        | Err e \<Rightarrow> [''  '' @ cross @ '' Signature check failed: '' @ show_capability_error e]
        | Panic \<Rightarrow> [])
     @ [[]]"

definition verdict_lines ::
    "((verification_error, verified_capability) res \<Rightarrow> string) \<Rightarrow> (verification_error, verified_capability) res
      \<Rightarrow> string list" where
  "verdict_lines debug r =
     banner (''  STEP 4 '' @ em_dash @ '' FIXED check: verify() via the PEP                  '')
     @ (if r = Err StateTampered then
          [''  '' @ cross @ '' REJECTED '' @ em_dash @ '' VerificationError::StateTampered'',
           [],
           ''  The PEP decoded the authoritative state FROM the signed token'',
           ''  and found it disagrees with the plaintext struct. The widening'',
           ''  was caught '' @ em_dash @ '' even though the signature itself is valid.'']
        else [''  Unexpected result: '' @ debug r])
     @ [[]]"

definition show_bool :: "bool \<Rightarrow> string" where
  "show_bool b = (if b then ''true'' else ''false'')"

definition honest_lines :: "bool \<Rightarrow> bool \<Rightarrow> bool \<Rightarrow> string list" where
  "honest_lines reads_file reads_other writes =
     banner (''  STEP 5 '' @ em_dash @ '' Honest capability (no tampering)                   '')
     @ [''  '' @ tick @ '' verify() passes '' @ em_dash @ '' struct agrees with token.'',
        ''  '' @ tick @ '' PDP sees the token-derived (authoritative) state:'',
        ''     allows_read('' @ quoted ''/repo/pkg/file'' @ '')  = '' @ show_bool reads_file,
        ''     allows_read('' @ quoted ''/repo/other'' @ '')     = '' @ show_bool reads_other,
        ''     allows_write('' @ quoted ''/repo/src/x'' @ '')    = '' @ show_bool writes,
        []]"

definition summary_lines :: "string list" where
  "summary_lines =
     banner ''  SUMMARY                                                     ''
     @ [''  '' @ bullet @ '' The signature covers the TOKEN, not the struct next to it.'',
        ''  '' @ bullet @ '' verify_signature() alone cannot catch struct tampering.'',
        ''  '' @ bullet @ '' verify() recovers authority from the signed token and'',
        ''    cross-checks the struct '' @ em_dash @ '' catching the divergence.'',
        [],
        ''  Lesson: decide from what you signed, not from what'' @ [CHR 0x27] @ ''s convenient.'']"

text \<open>\<open>unwrap\<close>: an error is a panic.\<close>

definition unwrapped :: "('e, 'a) res \<Rightarrow> (string, 'a) res" where
  "unwrapped r = (case r of Ok x \<Rightarrow> Ok x | _ \<Rightarrow> Panic)"

definition mint_in ::
    "('kp, 'pk, 'b, 'tok) crates \<Rightarrow> ('w, 'kp) os \<Rightarrow> datetime \<Rightarrow> ('w, 'tok root_capability) demo" where
  "mint_in c os now = on_world (\<lambda>w.
     case os_keypair os w of (keypair, w1) \<Rightarrow>
     case os_keypair os w1 of (next_key, w2) \<Rightarrow>
       (unwrapped (mint c (os_fs os w) keypair next_key attack_manifest now), w2))"

definition attenuate_in ::
    "('kp, 'pk, 'b, 'tok) crates \<Rightarrow> ('w, 'kp) os \<Rightarrow> 'tok root_capability \<Rightarrow> datetime
      \<Rightarrow> ('w, 'tok child_capability) demo" where
  "attenuate_in c os root now = on_world (\<lambda>w.
     case os_keypair os w of (next_key, w1) \<Rightarrow>
       (unwrapped (root_attenuate c (os_fs os w) next_key root attack_request now), w1))"

text \<open>A check that panics ends the program before its lines.\<close>

definition put_check :: "('e, 'a) res \<Rightarrow> (('e, 'a) res \<Rightarrow> string list) \<Rightarrow> ('w, unit) demo" where
  "put_check r ls = (case r of Panic \<Rightarrow> io_lift Panic | _ \<Rightarrow> put_lines (ls r))"

definition attack_main ::
    "('kp, 'pk, 'b, 'tok) crates \<Rightarrow> ('w, 'kp) os
      \<Rightarrow> ((verification_error, verified_capability) res \<Rightarrow> string) \<Rightarrow> ('w, unit) demo" where
  "attack_main c os debug =
     io_bind (on_world (io_draw (os_now os))) (\<lambda>now.
     io_bind (mint_in c os now) (\<lambda>root.
     io_bind (attenuate_in c os root now) (\<lambda>child.
     io_bind (put_lines opening_lines) (\<lambda>_.
     io_bind (put_lines tampering_lines) (\<lambda>_.
     io_bind (put_check (child_verify_signature c (tampered_child child)) signature_lines) (\<lambda>_.
     io_bind (put_check (verify c (tampered_child child) now None) (verdict_lines debug)) (\<lambda>_.
     io_bind (attenuate_in c os root now) (\<lambda>honest_child.
     io_bind (io_lift (unwrapped (verify c honest_child now None))) (\<lambda>verified.
     io_bind (\<lambda>s. put_lines (honest_lines
        (allows_read (os_fs os (fst s)) (vc_permissions verified) ''/repo/pkg/file'')
        (allows_read (os_fs os (fst s)) (vc_permissions verified) ''/repo/other'')
        (allows_write (os_fs os (fst s)) (vc_permissions verified) ''/repo/src/x'')) s) (\<lambda>_.
     put_lines summary_lines))))))))))"

section \<open>Its capabilities\<close>

text \<open>The paths of the example are not symbolic links, nor below one.\<close>

definition attack_paths_plain :: "fs_view \<Rightarrow> bool" where
  "attack_paths_plain fs \<longleftrightarrow>
     (\<forall>p \<in> {''/repo'', ''/repo/src'', ''/repo/pkg'', ''/repo/pkg/file'', ''/repo/other'', ''/repo/src/x''}.
        resolve_existing_ancestor fs p = p)"

definition attack_permissions :: permission_set where
  "attack_permissions =
     \<lparr>readable_roots = [''/repo''], writable_roots = [''/repo/src''], exec_binaries = [''python''], network = DenyAll\<rparr>"

definition package_permissions :: permission_set where
  "package_permissions = \<lparr>readable_roots = [''/repo/pkg''], writable_roots = [], exec_binaries = [], network = DenyAll\<rparr>"

lemma attack_paths:
  "\<not> unsafe_path ''/repo''" "\<not> unsafe_path ''/repo/src''" "\<not> unsafe_path ''/repo/pkg''"
  "\<not> unsafe_path ''/repo/pkg/file''" "\<not> unsafe_path ''/repo/other''" "\<not> unsafe_path ''/repo/src/x''"
  "btree_collect components [''/repo''] = [''/repo'']"
  "btree_collect components [''/repo/src''] = [''/repo/src'']"
  "btree_collect components [''/repo/pkg''] = [''/repo/pkg'']"
  "btree_collect components [] = []"
  "path_starts_with ''/repo/pkg'' ''/repo''" "path_starts_with ''/repo/pkg/file'' ''/repo/pkg''"
  "\<not> path_starts_with ''/repo/other'' ''/repo/pkg''"
  by code_simp+

lemma attack_minted:
  assumes laws: "biscuit_laws c facts root_of" "uuid_laws c" "chrono_laws c lo hi" and avail: "biscuit_available c"
    and build: "\<And>F. is_ok (biscuit_build c kp nk F)" and plain: "attack_paths_plain fs"
    and times: "lo \<le> now" "now + 60000000000 \<le> hi"
  shows "\<exists>root. mint c fs kp nk attack_manifest now = Ok root \<and> root_permissions root = attack_permissions
    \<and> root_expires_at root = now + 60000000000"
proof -
  have "validate attack_manifest = Ok ()" by code_simp
  moreover have "btree_collect (\<lambda>s. s) [''python''] = [''python'']" by code_simp
  then have "from_manifest fs attack_manifest = Ok attack_permissions"
    using plain attack_paths
    by (simp add: from_manifest_def attack_manifest_def attack_permissions_def checked_paths_safe attack_paths_plain_def)
  moreover have "checked_expires_at c now (tm_ttl_seconds attack_manifest) = Ok (now + 60000000000)"
    using times by (simp add: attack_manifest_def checked_expires_at_cases [OF laws(3)] max_delta_seconds_def)
  ultimately show ?thesis
    using mint_available [OF laws(1,2) avail build, where m = attack_manifest] by blast
qed

lemma attack_attenuated:
  assumes laws: "biscuit_laws c facts root_of" "uuid_laws c" "chrono_laws c lo hi" and avail: "biscuit_available c"
    and minted: "mint c fs0 kp nk m t0 = Ok root"
    and root: "root_permissions root = attack_permissions" "root_expires_at root = now + 60000000000"
    and plain: "attack_paths_plain fs" and times: "lo \<le> now" "now + 60000000000 \<le> hi"
  shows "\<exists>ch. root_attenuate c fs k root attack_request now = Ok ch"
    and "root_attenuate c fs k root attack_request now = Ok ch \<Longrightarrow>
      child_permissions ch = package_permissions
      \<and> child_caveats ch = [\<lparr>cv_permissions = package_permissions, cv_expires_at = now + 30000000000,
           cv_request_binding = None\<rparr>]"
proof -
  have e: "checked_expires_at c now (ar_ttl_seconds attack_request) = Ok (now + 30000000000)"
    using times by (simp add: attack_request_def checked_expires_at_cases [OF laws(3)] max_delta_seconds_def)
  have p: "path_in_scope fs [''/repo''] ''/repo/pkg''"
    using plain attack_paths by (simp add: path_in_scope_iff attack_paths_plain_def is_under_any_root_def)
  then have "validate_attenuation c fs (root_permissions root) (root_expires_at root) attack_request now = Ok ()"
    using e root by (simp add: validate_attenuation_Ok_iff request_within_def contains_all_roots_iff
        contains_all_exec_iff) (simp add: attack_request_def attack_permissions_def)
  from attenuate_available [OF laws(1,2) avail minted this]
  show "\<exists>ch. root_attenuate c fs k root attack_request now = Ok ch" .
  assume ch: "root_attenuate c fs k root attack_request now = Ok ch"
  have "requested_permissions fs attack_request = package_permissions"
    using plain attack_paths
    by (simp add: requested_permissions_def attack_request_def package_permissions_def attack_paths_plain_def)
  with root_att.attenuate_Ok [OF ch] e show "child_permissions ch = package_permissions
      \<and> child_caveats ch = [\<lparr>cv_permissions = package_permissions, cv_expires_at = now + 30000000000,
           cv_request_binding = None\<rparr>]"
    by (auto simp: attack_request_def)
qed

text \<open>The honest child verifies; its widened copy has a good signature and is rejected.\<close>

lemma attack_verdicts:
  assumes laws: "biscuit_laws c facts root_of" "uuid_laws c" "chrono_laws c lo hi" and avail: "biscuit_available c"
    and minted: "mint c fs0 kp nk m t0 = Ok root" and child: "root_attenuate c fs k root attack_request now = Ok ch"
    and perms: "child_permissions ch = package_permissions"
      "child_caveats ch = [\<lparr>cv_permissions = package_permissions, cv_expires_at = now + 30000000000,
           cv_request_binding = None\<rparr>]"
    and times: "0 \<le> now" "now + 30000000000 < 253402300800 * 1000000000"
  shows "\<exists>v. verify c ch now None = Ok v \<and> permissions_eq (vc_permissions v) package_permissions"
    and "child_verify_signature c (tampered_child ch) = Ok ()"
    and "verify c (tampered_child ch) now None = Err StateTampered"
proof -
  let ?s = "\<lparr>cv_permissions = package_permissions, cv_expires_at = now + 30000000000, cv_request_binding = None\<rparr>"
  have desc: "descends c root ch" by (rule descends.first [OF child])
  have "permissions_ok package_permissions" "utf8_valid ''/repo/pkg''"
    by (simp_all add: permissions_ok_def package_permissions_def btree_ok_def) code_simp+
  then have enc: "encodable c ?s"
    using times by (simp add: encodable_def chrono_lawsD(3) [OF laws(3)]) (simp add: package_permissions_def)
  have answers: "token_answers c (child_token ch)" using avail by (simp add: biscuit_available_def)
  have honest: "honest c facts root_of ch"
    using laws minted desc answers enc unfolding honest_def perms(2) last.simps by (simp, blast)
  have binding: "binding_current ch" "child_request_binding ch = None"
    by (simp_all add: binding_current_def child_request_binding_def perms(2) List.map_filter_def)
  have expires: "child_expires_at ch = now + 30000000000" using descends_last [OF desc] perms(2) by auto
  from honest_verify [OF honest] binding obtain v where v: "verify_and_decode c ch = Ok v"
      "permissions_eq (vs_permissions v) package_permissions" "vs_expires_at v = now + 30000000000"
      "vs_request_binding v = None"
    by (auto simp: perms(1) expires)
  then show "\<exists>v. verify c ch now None = Ok v \<and> permissions_eq (vc_permissions v) package_permissions"
    by (simp add: verify_of_state vc_permissions_def)
  let ?t = "tampered_child ch"
  from descends_holds [OF laws(1,2) minted desc]
  have holds: "token_holds c facts root_of (child_token ?t) (child_root_public_key ?t) (child_task_id ch)
      ([root_caveat root] @ [?s])"
    by (simp add: tampered_child_def perms(2))
  then obtain b where b: "biscuit_to_vec c b = Ok (child_token ?t)"
      "public_key_from_bytes c (child_root_public_key ?t) = Ok (root_of b)"
    by (auto simp: token_holds_def)
  have "biscuit_from c (child_token ?t) (root_of b) = Ok b" by (simp add: biscuit_laws_from(1) [OF laws(1) b(1)])
  with b(2) show "child_verify_signature c ?t = Ok ()"
    by (simp add: child_verify_signature_def verify_signature_def parse_public_key_def)
  have "\<not> permissions_eq package_permissions (child_permissions ?t)"
    by (simp add: permissions_eq_def package_permissions_def tampered_child_def)
  then have "\<not> mirrors ?t ?s" by (simp add: mirrors_def)
  with verify_token_holds [OF laws(1,2) holds _ enc] answers
  have "verify_and_decode c ?t = Err TokenStateMismatch" by (simp add: tampered_child_def)
  then show "verify c ?t now None = Err StateTampered"
    by (simp add: verify_of_error verification_error_of_def)
qed

lemma attack_decisions:
  assumes "permissions_eq P package_permissions" "attack_paths_plain fs"
  shows "allows_read fs P ''/repo/pkg/file''" "\<not> allows_read fs P ''/repo/other''" "\<not> allows_write fs P ''/repo/src/x''"
  using assms(2) attack_paths
  by (simp_all add: permissions_eq_allows [OF assms(1)])
    (simp_all add: allows_read_def allows_write_def package_permissions_def path_in_scope_iff attack_paths_plain_def
      is_under_any_root_def)

section \<open>Its run\<close>

lemma attack_runs:
  assumes laws: "biscuit_laws c facts root_of" "uuid_laws c" "chrono_laws c lo hi" and avail: "biscuit_available c"
    and build: "\<And>kp nk F. is_ok (biscuit_build c kp nk F)"
    and clock: "os_now os w = (now, w1)"
    and plain: "\<And>v. draws os w1 v \<Longrightarrow> attack_paths_plain (os_fs os v)"
    and times: "0 \<le> now" "lo \<le> now" "now + 60000000000 \<le> hi" "now + 30000000000 < 253402300800 * 1000000000"
  shows "\<exists>w'. draws os w w' \<and> attack_main c os debug (w, text) = (Ok (), w', text @ lines_text
    (opening_lines @ tampering_lines @ signature_lines (Ok ()) @ verdict_lines debug (Err StateTampered)
     @ honest_lines True False False @ summary_lines))"
proof -
  obtain kp w2 where kp: "os_keypair os w1 = (kp, w2)" by fastforce
  obtain nk w3 where nk: "os_keypair os w2 = (nk, w3)" by fastforce
  obtain k w4 where k: "os_keypair os w3 = (k, w4)" by fastforce
  obtain k' w5 where k': "os_keypair os w4 = (k', w5)" by fastforce
  have draws: "draws os w1 w1" "draws os w1 w3" "draws os w1 w4" "draws os w1 w5"
    using kp nk k k' by (meson draws_one draws_trans rtranclp.rtrancl_refl)+
  obtain root where root: "mint c (os_fs os w1) kp nk attack_manifest now = Ok root"
      "root_permissions root = attack_permissions" "root_expires_at root = now + 60000000000"
    using attack_minted [OF laws avail build plain [OF draws(1)] times(2,3)] by blast
  note att = attack_attenuated [OF laws avail root _ times(2,3)]
  obtain ch where ch: "root_attenuate c (os_fs os w3) k root attack_request now = Ok ch"
    using att(1) plain draws(2) by blast
  obtain ch' where ch': "root_attenuate c (os_fs os w4) k' root attack_request now = Ok ch'"
    using att(1) plain draws(3) by blast
  note first = attack_verdicts(2,3) [OF laws avail root(1) ch _ _ times(1,4)]
  from att(2) [OF _ ch] plain draws(2) have sel: "child_permissions ch = package_permissions"
      "child_caveats ch = [\<lparr>cv_permissions = package_permissions, cv_expires_at = now + 30000000000,
           cv_request_binding = None\<rparr>]"
    by blast+
  from att(2) [OF _ ch'] plain draws(3) have "child_permissions ch' = package_permissions"
      "child_caveats ch' = [\<lparr>cv_permissions = package_permissions, cv_expires_at = now + 30000000000,
           cv_request_binding = None\<rparr>]"
    by blast+
  from attack_verdicts(1) [OF laws avail root(1) ch' this times(1,4)] obtain v where
    v: "verify c ch' now None = Ok v" "permissions_eq (vc_permissions v) package_permissions"
    by blast
  note decisions = attack_decisions [OF v(2) plain [OF draws(4)]]
  have lines_append: "lines_text (xs @ ys) = lines_text xs @ lines_text ys" for xs ys
    by (simp add: lines_text_def)
  have "attack_main c os debug (w, text) = (Ok (), w5, text @ lines_text
    (opening_lines @ tampering_lines @ signature_lines (Ok ()) @ verdict_lines debug (Err StateTampered)
     @ honest_lines True False False @ summary_lines))"
    using clock kp nk k k' root(1) ch ch' first [OF sel] v(1) decisions
    by (simp add: attack_main_def mint_in_def attenuate_in_def on_world_def io_bind_def io_draw_def io_lift_def
        unwrapped_def put_check_def put_lines_def put_text_def lines_append)
  moreover have "draws os w w5" using clock draws(4) by (meson draws_one draws_trans)
  ultimately show ?thesis by blast
qed

end
