(* ===== verification/Props_Demo.thy ===== *)
theory Props_Demo
  imports Props_Live Demo_Facts Serde_Attack
begin

text \<open>
  The properties of the demo's contrast: what its verdicts say of the runs they are derived from,
  and where they say something else than what happened.  Then that of the example program.
\<close>

section \<open>The instance\<close>

lemma tb_plain_errors: "plain_errors tb_os"
proof -
  have "CHR ''['' \<notin> set e \<and> \<not> contains e ''ATTENUATED''"
    if "execute tb_os call w = (Err (Io e), w')" for call w e w'
  proof -
    have "e = ''No such file or directory (os error 2)''"
      using that by (cases call)
        (auto simp: execute_def tb_os_def io_bind_def io_map_err_def io_lift_def split: option.splits)
    moreover have "\<not> contains ''No such file or directory (os error 2)'' ''ATTENUATED''"
      by (rule not_ATTENUATED) simp
    ultimately show ?thesis by simp
  qed
  then show ?thesis by (auto simp: plain_errors_def)
qed

lemma tb_uuid_text: "uuid_text tb"
proof -
  have "set (show_nat n) \<subseteq> set ''0123456789abcdef-''" for n
  proof (induction n rule: show_nat.induct)
    case (1 n)
    have d: "digit_char k \<in> set ''0123456789abcdef-''" if "k < 10" for k
    proof -
      from that have "k \<in> set [0..<10]" by simp
      moreover have "\<forall>k \<in> set [0..<10]. digit_char k \<in> set ''0123456789abcdef-''" by code_simp
      ultimately show ?thesis by blast
    qed
    from 1 d [of n] d [of "n mod 10"] show ?case
      by (subst show_nat.simps) (simp only: if_split set_append list.set Un_subset_iff insert_subset, simp)
  qed
  then show ?thesis by (simp add: uuid_text_def tb_def)
qed

section \<open>Two runs\<close>

lemma missing_step:
  obtains self w where "step tb tb_os (FsRead ''/repo/missing'') (o0 Bypassed, wA) =
    (Ok \<lparr>so_call = FsRead ''/repo/missing'',
       so_decision = Errored ''tool execution io error: No such file or directory (os error 2)''\<rparr>, self, w)"
proof -
  obtain self w where rec: "snd (record_event tb tb_os (ToolDenied ''fs_read''
      ''execution error: tool execution io error: No such file or directory (os error 2)'') (o0 Bypassed, wA)) = (self, w)"
    by fastforce
  have "execute tb_os (FsRead ''/repo/missing'') wA = (Err (Io ''No such file or directory (os error 2)''), wA)"
    by (simp add: execute_def tb_os_def io_bind_def io_map_err_def io_lift_def w_target_def w0_def wA_def)
  with rec show thesis by (intro that) (simp add: step_def step_bypassed_def record_then io_lift_def)
qed

lemma single_run:
  assumes "step c os call (self, w) = (Ok out, self', w')"
  shows "run c os [call] (self, w) = (Ok [out], self', w')"
  using assms by (simp add: run_step_all io_bind_def io_lift_def)

lemma refused_run:
  assumes "decide (w_fs w0) P0 (to_request call) = Deny reason"
  obtains self w where "run tb tb_os [call] (o0 Enforced, wA)
    = (Ok [\<lparr>so_call = call, so_decision = Denied reason\<rparr>], self, w)"
  using tb_step_denied [OF ready0 assms] single_run [of tb tb_os call "o0 Enforced" wA]
  by (cases "step tb tb_os call (o0 Enforced, wA)" rule: prod_cases3) auto

section \<open>The verdicts\<close>

text \<open>C35: The contrast judges the baseline rightly, as far as it looks.  A run of the agent on a calls
  file with enforcement off prints nothing that contains \<open>[DENY\<close> or \<open>ATTENUATED\<close>, so the summary
  always reads: no enforcement, zero ATTENUATED, zero DENIED.  The last is not so: if a call failed,
  the audit log that was printed has a DENIED line.\<close>

theorem contrast_judges_baseline:
  assumes "agent_main c os h parse_manifest parse_calls env args r w = (Returned, printed, w')"
    and "length args \<ge> 3" "mode_of_env env = Bypassed" "plain_errors os" "uuid_text c"
    and "v = verdict_of (lines_text printed) prot_stdout sink_content"
  shows "\<not> vuln_denied_anything v \<and> \<not> contains (lines_text printed) ''ATTENUATED''
    \<and> vuln_posture v = ''NO enforcement '' @ em_dash @ '' ambient authority, zero ATTENUATED, zero DENIED''
    \<and> ((\<exists>l \<in> set printed. prefix ''[ERROR]'' l) \<longrightarrow> contains (lines_text printed) ''DENIED'')"
proof -
  note base = baseline_main [OF assms(1-5)]
  then have quiet: "\<not> contains (lines_text printed) ''[DENY''" "\<not> contains (lines_text printed) ''ATTENUATED''"
    by (simp_all add: contains_lines quiet_def)
  have "contains (show_event c (ToolDenied n reason)) ''DENIED''" for n reason
    by (simp add: contains_def prefix_def prefix_imp_sublist)
  with base have "(\<exists>l \<in> set printed. prefix ''[ERROR]'' l) \<longrightarrow> contains (lines_text printed) ''DENIED''"
    by (auto simp: contains_lines)
  with quiet show ?thesis by (simp add: assms(6) verdict_of_def vuln_posture_def)
qed

theorem contrast_judges_baseline_witness:
  "\<exists>printed w'. agent_main tb tb_os h0 (\<lambda>_. Ok m0) (\<lambda>_. Ok [FsRead ''/repo/missing''])
      \<lparr>env_authz = Some ''off'', env_base_url = None, env_model = None, env_api_key = None\<rparr>
      [''warden-agent'', ''/repo/a'', ''/repo/a''] (0, []) w0 = (Returned, printed, w')
    \<and> \<not> vuln_denied_anything (verdict_of (lines_text printed) [] []) \<and> contains (lines_text printed) ''DENIED''"
proof -
  let ?env = "\<lparr>env_authz = Some ''off'', env_base_url = None, env_model = None, env_api_key = None\<rparr>"
  obtain self w where "step tb tb_os (FsRead ''/repo/missing'') (o0 Bypassed, wA) =
      (Ok \<lparr>so_call = FsRead ''/repo/missing'',
         so_decision = Errored ''tool execution io error: No such file or directory (os error 2)''\<rparr>, self, w)"
    by (rule missing_step)
  note run = single_run [OF this]
  have off: "mode_of_env ?env = Bypassed" by code_simp
  have files: "os_read_to_string tb_os v ''/repo/a'' = (Ok ''hello'', v)"
    if "w_files v = w_files w0" "w_links v = w_links w0" for v
    using that by (simp add: tb_os_def w_target_def w0_def)
  have main: "agent_main tb tb_os h0 (\<lambda>_. Ok m0) (\<lambda>_. Ok [FsRead ''/repo/missing'']) ?env
      [''warden-agent'', ''/repo/a'', ''/repo/a''] (0, []) w0
    = (Returned, (''AUTHZ = '' @ show_mode Bypassed @ newline) # report tb
        [\<lparr>so_call = FsRead ''/repo/missing'',
          so_decision = Errored ''tool execution io error: No such file or directory (os error 2)''\<rparr>] self, w)"
    using started0 [of Bypassed] files [of w0] files [of wA] run off
    by (simp add: agent_main_def load_def io_bind_def io_map_err_def io_lift_def run_feed_def
        run_scripted_feed_def wA_def)
  from contrast_judges_baseline [OF main _ off tb_plain_errors tb_uuid_text refl] main show ?thesis
    by (auto simp: report_def print_outcome_def)
qed

text \<open>The contrast does not miss enforcement.  If a protected run on a calls file reports any call
  that was not refused, its text has an ATTENUATED line; and a call refused for one of the three
  reasons the summary looks for sets the verdict of that reason.\<close>

theorem contrast_sees_enforcement:
  assumes "run c os calls (self, w) = (Ok outs, self', w')" "o_mode self = Enforced"
    and "v = verdict_of vuln_stdout (lines_text (report c outs self')) sink_content"
    and "out \<in> set outs"
  shows "case so_decision out of
      Denied reason \<Rightarrow>
        (reason = ''read path is outside capability scope'' \<longrightarrow> prot_scope_denial v)
        \<and> (reason = ''binary is outside capability exec allowlist'' \<longrightarrow> prot_exec_denial v)
        \<and> (reason = ''network policy denies all egress'' \<longrightarrow> prot_network_denial v)
    | _ \<Rightarrow> prot_attenuated v"
proof -
  let ?text = "lines_text (report c outs self')"
  have line: "contains ?text pat"
    if "contains l pat" "l \<in> set (report c outs self')" "CHR 0x0A \<notin> set pat" "pat \<noteq> []" for l pat
    using that by (auto simp: contains_lines)
  have attenuated: "prot_attenuated v" if undenied: "\<nexists>reason. so_decision out = Denied reason"
  proof -
    from executed_is_attenuated [OF assms(1,2,4) undenied] obtain e where
      "e \<in> set (o_audit_log self')" "ae_event e = CapabilityAttenuated (o_task_id self)" by blast
    then have "show_event c (CapabilityAttenuated (o_task_id self)) \<in> set (report c outs self')"
      using report_lines(2) by metis
    from line [OF _ this] show ?thesis
      by (simp add: assms(3) verdict_of_def contains_def prefix_def prefix_imp_sublist)
  qed
  have denied: "contains ?text reason"
    if "so_decision out = Denied reason" "CHR 0x0A \<notin> set reason" "reason \<noteq> []" for reason
    using line [OF reason_printed [OF that(1), of reason] report_lines(1) [OF assms(4)] that(2,3)]
    by (simp add: contains_def)
  show ?thesis
    using attenuated denied
    by (cases "so_decision out") (auto simp: assms(3) verdict_of_def)
qed

theorem contrast_sees_enforcement_witness:
  "\<exists>self w. run tb tb_os [NetworkCall ''evil'' 80 ''secret''] (o0 Enforced, wA)
      = (Ok [\<lparr>so_call = NetworkCall ''evil'' 80 ''secret'', so_decision = Denied ''network policy denies all egress''\<rparr>],
         self, w)
    \<and> prot_network_denial (verdict_of [] (lines_text (report tb
         [\<lparr>so_call = NetworkCall ''evil'' 80 ''secret'', so_decision = Denied ''network policy denies all egress''\<rparr>]
         self)) [])"
proof -
  obtain self w where run: "run tb tb_os [NetworkCall ''evil'' 80 ''secret''] (o0 Enforced, wA)
      = (Ok [\<lparr>so_call = NetworkCall ''evil'' 80 ''secret'', so_decision = Denied ''network policy denies all egress''\<rparr>],
         self, w)"
    by (rule refused_run [OF demo_decisions(3)])
  from contrast_sees_enforcement [OF run _ refl] run show ?thesis by auto
qed

text \<open>C36: The contrast overlooks refused writes.  A protected run that refuses writes outside the
  writable roots, and nothing else, is summed up as one in which the principal did not attempt an
  out-of-scope action.\<close>

theorem refused_writes_go_unseen:
  assumes "new_orchestrator c os m Enforced w0 = (Ok self, w)" "uuid_text c"
    and "run c os calls (self, w) = (Ok outs, self', w')"
    and "\<forall>out \<in> set outs. (\<exists>res. so_decision out = Allowed res)
           \<or> so_decision out = Denied ''write path is outside capability scope''"
    and "v = verdict_of vuln_stdout (lines_text (report c outs self')) sink_content"
  shows "\<not> prot_any_denial v
    \<and> denial_lines v = [''  (none this run '' @ em_dash @ '' the principal did not attempt an out-of-scope action)'']"
proof -
  from new_orchestrator_spec [OF assms(1)] have
    new: "map ae_event (o_audit_log self) = [RootMinted (tm_task_id m)]" "o_mode self = Enforced" by blast+
  have "\<forall>out \<in> set outs. write_only_refusals out" using assms(4) by (simp add: write_only_refusals_def)
  from unseen_report [OF assms(3) new(2) assms(2) new(1) this] show ?thesis
    by (simp add: assms(5) verdict_of_def prot_any_denial_def denial_lines_def contains_lines unseen_def
        verdict_reasons_def)
qed

theorem refused_writes_go_unseen_witness:
  "\<exists>self w. run tb tb_os [FsWrite ''/etc/key'' ''stolen''] (o0 Enforced, wA)
      = (Ok [\<lparr>so_call = FsWrite ''/etc/key'' ''stolen'', so_decision = Denied ''write path is outside capability scope''\<rparr>],
         self, w)
    \<and> \<not> prot_any_denial (verdict_of [] (lines_text (report tb
         [\<lparr>so_call = FsWrite ''/etc/key'' ''stolen'', so_decision = Denied ''write path is outside capability scope''\<rparr>]
         self)) [])"
proof -
  have "decide (w_fs w0) P0 (to_request (FsWrite ''/etc/key'' ''stolen''))
      = Deny ''write path is outside capability scope''"
    by code_simp
  then obtain self w where run: "run tb tb_os [FsWrite ''/etc/key'' ''stolen''] (o0 Enforced, wA)
      = (Ok [\<lparr>so_call = FsWrite ''/etc/key'' ''stolen'', so_decision = Denied ''write path is outside capability scope''\<rparr>],
         self, w)"
    by (rule refused_run)
  from refused_writes_go_unseen [OF started0 tb_uuid_text run _ refl] run show ?thesis by simp
qed

section \<open>The example\<close>


lemma tb_draws_fs: "draws tb_os w v \<Longrightarrow> w_fs v = w_fs w"
proof (induction rule: rtranclp_induct)
  case (step x y)
  from step(2) have "w_fs y = w_fs x" by (cases rule: draw.cases) (auto intro: w_fs_cong)
  with step(3) show ?case by simp
qed simp


end
