(* ===== verification/Monitor.thy ===== *)
theory Monitor
  imports Availability Run_Facts
begin

text \<open>
  The abstract specification of enforcement: a reference monitor with one permission set, which
  asks the policy about each call and executes what is allowed.  It has no tokens, no bindings and
  no log.  Under the conditions named here every run of the orchestrator is a run of the monitor:
  the machinery of capabilities refuses nothing else, and allows nothing else.
\<close>

section \<open>The monitor\<close>

inductive monitor_step ::
    "('w, 'kp) os \<Rightarrow> permission_set \<Rightarrow> tool_call \<Rightarrow> 'w \<Rightarrow> step_decision \<Rightarrow> 'w \<Rightarrow> bool"
  for os P call w where
  refuse: "draws os w v \<Longrightarrow> decide (os_fs os v) P (to_request call) = Deny reason \<Longrightarrow> draws os v w'
    \<Longrightarrow> monitor_step os P call w (Denied reason) w'"
| perform: "draws os w v \<Longrightarrow> decide (os_fs os v) P (to_request call) = Allow
    \<Longrightarrow> execute os call v = (Ok out, v') \<Longrightarrow> draws os v' w' \<Longrightarrow> monitor_step os P call w (Allowed out) w'"
| fail: "draws os w v \<Longrightarrow> decide (os_fs os v) P (to_request call) = Allow
    \<Longrightarrow> execute os call v = (Err (Io e), v') \<Longrightarrow> draws os v' w' \<Longrightarrow> monitor_step os P call w (Errored e) w'"

inductive_cases monitor_stepE: "monitor_step os P call w d w'"

inductive monitor ::
    "('w, 'kp) os \<Rightarrow> permission_set \<Rightarrow> tool_call list \<Rightarrow> 'w \<Rightarrow> step_decision list \<Rightarrow> 'w \<Rightarrow> bool"
  for os P where
  stop: "monitor os P [] w [] w"
| next_call: "monitor_step os P call w d v \<Longrightarrow> monitor os P calls v ds w' \<Longrightarrow> monitor os P (call # calls) w (d # ds) w'"

inductive_simps monitor_Nil [simp]: "monitor os P [] w ds w'"
inductive_simps monitor_Cons: "monitor os P (call # calls) w ds w'"

lemma monitor_length: "monitor os P calls w ds w' \<Longrightarrow> length ds = length calls"
  by (induction rule: monitor.induct) auto

text \<open>An answer is what the policy says in a world that draws lead to.\<close>

lemma monitor_step_answer:
  assumes "monitor_step os P call w d w'"
  shows "\<exists>v. draws os w v \<and>
    (case decide (os_fs os v) P (to_request call) of
       Deny reason \<Rightarrow> d = Denied reason
     | Allow \<Rightarrow> (case fst (execute os call v) of Ok out \<Rightarrow> d = Allowed out | Err e \<Rightarrow> \<exists>s. e = Io s \<and> d = Errored s
         | Panic \<Rightarrow> False))"
  using assms by (cases rule: monitor_step.cases) (auto intro!: exI conjI)

text \<open>What the orchestrator records of it: the attenuation of a child and the outcome, for each call.\<close>

definition run_log :: "uuid \<Rightarrow> step_outcome list \<Rightarrow> audit_event list" where
  "run_log task outs =
     concat (map (\<lambda>out. [CapabilityAttenuated task, outcome_event (so_call out) (so_decision out)]) outs)"

lemma run_log_simps [simp]:
  "run_log task [] = []"
  "run_log task (out # outs) = CapabilityAttenuated task # outcome_event (so_call out) (so_decision out) # run_log task outs"
  by (simp_all add: run_log_def)

lemma run_log_length: "length (run_log task outs) = 2 * length outs"
  by (induction outs) simp_all

section \<open>Conditions\<close>

text \<open>The crates keep their laws, answer, and hash to 32 bytes.\<close>

definition dependable ::
    "('kp, 'pk, 'b, 'tok) crates \<Rightarrow> ('b \<Rightarrow> fact set) \<Rightarrow> ('b \<Rightarrow> 'pk) \<Rightarrow> datetime \<Rightarrow> datetime \<Rightarrow> bool" where
  "dependable c facts root_of lo hi \<longleftrightarrow>
     biscuit_laws c facts root_of \<and> uuid_laws c \<and> chrono_laws c lo hi \<and> biscuit_available c
   \<and> (\<forall>bs. length (blake3 c bs) = 32) \<and> (\<forall>j. is_ok (json_to_vec c j))"

text \<open>The root was minted, and its paths are text.\<close>

definition well_minted :: "('kp, 'pk, 'b, 'tok) crates \<Rightarrow> 'tok root_capability \<Rightarrow> bool" where
  "well_minted c root \<longleftrightarrow>
     (\<exists>fs kp nk m now. mint c fs kp nk m now = Ok root)
   \<and> (\<forall>p \<in> set (readable_roots (root_permissions root)) \<union> set (writable_roots (root_permissions root)). utf8_valid p)"

text \<open>
  A step started in this world takes less than five seconds to its decision, ends before the root
  expires, and finds the roots still canonical.
\<close>

definition calm :: "('w, 'kp) os \<Rightarrow> datetime \<Rightarrow> datetime \<Rightarrow> 'tok root_capability \<Rightarrow> 'w \<Rightarrow> bool" where
  "calm os lo hi root w \<longleftrightarrow>
     (\<forall>now n w2 t w6. step_draws os w now n w2 t w6 \<longrightarrow>
        0 \<le> now \<and> lo \<le> now \<and> now + 5000000000 \<le> hi \<and> now + 5000000000 < 253402300800 * 1000000000
      \<and> now + 5000000000 \<le> root_expires_at root \<and> t < now + 5000000000
      \<and> stable_roots (os_fs os w2) (root_permissions root))
   \<and> (\<forall>v call. draws os w v \<longrightarrow> fst (execute os call v) \<noteq> Panic)"

text \<open>Every world a step of the run starts in is calm.\<close>

fun calm_run ::
    "('kp, 'pk, 'b, 'tok) crates \<Rightarrow> ('w, 'kp) os \<Rightarrow> datetime \<Rightarrow> datetime \<Rightarrow> tool_call list
      \<Rightarrow> 'tok orchestrator \<times> 'w \<Rightarrow> bool" where
  "calm_run c os lo hi [] s \<longleftrightarrow> True"
| "calm_run c os lo hi (call # calls) s \<longleftrightarrow>
     calm os lo hi (o_root (fst s)) (snd s) \<and>
     (\<forall>out s'. step c os call s = (Ok out, s') \<longrightarrow> calm_run c os lo hi calls s')"

lemma minted_permissions_ok: "mint c fs kp nk m now = Ok root \<Longrightarrow> permissions_ok (root_permissions root)"
  by (auto simp: mint_Ok_iff dest: from_manifest_ok)

lemma step_drawsE:
  obtains now n w2 t w6 where "step_draws os w now n w2 t w6" "draws os w w6"
proof -
  obtain now w1 where a: "os_now os w = (now, w1)" by fastforce
  obtain n w2 where b: "os_uuid os w1 = (n, w2)" by fastforce
  obtain k w3 where d: "os_keypair os w2 = (k, w3)" by fastforce
  obtain s w4 where e: "os_now os w3 = (s, w4)" by fastforce
  obtain i w5 where f: "os_uuid os w4 = (i, w5)" by fastforce
  obtain t w6 where g: "os_now os w5 = (t, w6)" by fastforce
  have "draws os w w6" using a b d e f g by (meson draws_one draws_trans)
  with that a b d e f g show thesis by (auto simp: step_draws_def)
qed

section \<open>The simulation\<close>

lemma dispatch_step_decided:
  assumes auth: "authorize_only c os ch (to_request call) (Some n) w5 =
      (case decide (os_fs os w6) P (to_request call) of
         Allow \<Rightarrow> Ok () | Deny reason \<Rightarrow> Err (DeniedError reason), w6)"
    and no_panic: "fst (execute os call w6) \<noteq> Panic" and from_start: "draws os w w6"
  shows "\<exists>out self' w'. dispatch_step c os call ch n (self, w5) = (Ok out, self', w') \<and> so_call out = call
    \<and> monitor_step os P call w (so_decision out) w' \<and> logged c [outcome_event call (so_decision out)] self self'"
proof (cases "decide (os_fs os w6) P (to_request call)")
  case (Deny reason)
  with auth have "dispatch c os ch call (Some n) w5 = (Err (DeniedError reason), w6)"
    by (simp add: dispatch_refused)
  then have d: "dispatch_step c os call ch n (self, w5) = deny c os call reason (self, w6)"
    by (simp add: dispatch_step_def)
  obtain r self' w' where r: "deny c os call reason (self, w6) = (r, self', w')" by (cases rule: prod_cases3)
  from deny_spec [OF r] Deny from_start d r show ?thesis
    by (auto simp: outcome_event_def intro: monitor_step.refuse)
next
  case Allow
  obtain q w7 where q: "execute os call w6 = (q, w7)" by fastforce
  have d: "dispatch c os ch call (Some n) w5 = (q, w7)"
    using auth Allow by (simp add: dispatch_authorized q)
  show ?thesis
  proof (cases q)
    case (Ok res)
    let ?r = "io_bind (record_lossy c os (ToolAllowed (call_tool_name call)))
      (\<lambda>_. io_lift (Ok \<lparr>so_call = call, so_decision = Allowed res\<rparr>)) (self, w7)"
    obtain r self' w' where r: "?r = (r, self', w')" by (cases rule: prod_cases3)
    from record_then_return [OF r] r d Ok q Allow from_start show ?thesis
      by (auto simp: dispatch_step_def outcome_event_def intro: monitor_step.perform)
  next
    case (Err e)
    with q execute_Err [of os call w6 e w7] obtain s where s: "e = Io s" by auto
    let ?r = "io_bind (record_lossy c os (ToolDenied (call_tool_name call) (''execution error: '' @ s)))
      (\<lambda>_. io_lift (Ok \<lparr>so_call = call, so_decision = Errored s\<rparr>)) (self, w7)"
    obtain r self' w' where r: "?r = (r, self', w')" by (cases rule: prod_cases3)
    from record_then_return [OF r] r d Err s q Allow from_start show ?thesis
      by (auto simp: dispatch_step_def outcome_event_def intro: monitor_step.fail)
  qed (use q no_panic in simp)
qed

lemma step_monitored:
  assumes dep: "dependable c facts root_of lo hi" and minted: "well_minted c (o_root self)"
    and calm: "calm os lo hi (o_root self) w" and mode: "o_mode self = Enforced"
  shows "\<exists>out self' w'. step c os call (self, w) = (Ok out, self', w') \<and> so_call out = call
    \<and> monitor_step os (root_permissions (o_root self)) call w (so_decision out) w'
    \<and> logged c (run_log (o_task_id self) [out]) self self'"
proof -
  note laws = dep [unfolded dependable_def]
  let ?P = "root_permissions (o_root self)"
  obtain fs0 kp nk m t0 where mint: "mint c fs0 kp nk m t0 = Ok (o_root self)"
    using minted by (auto simp: well_minted_def)
  obtain now n w2 t w6 where d: "step_draws os w now n w2 t w6" "draws os w w6"
    by (rule step_drawsE)
  with calm have times: "0 \<le> now" "lo \<le> now" "now + 5000000000 \<le> hi" "now + 5000000000 < 253402300800 * 1000000000"
      "now + 5000000000 \<le> root_expires_at (o_root self)" "t < now + 5000000000"
    and stable: "stable_roots (os_fs os w2) ?P" and no_panic: "fst (execute os call w6) \<noteq> Panic"
    unfolding calm_def by blast+
  obtain b where b: "request_binding_for c (to_request call) n = Ok b" "length (argument_hash b) = 32"
    using laws by (auto simp: request_binding_for_def is_ok_iff hash_tool_arguments_def dest!: spec [of _ "request_json (to_request call)"])
  have "parse_from_rfc3339 c (to_rfc3339 c (now + 5000000000)) = Some (now + 5000000000)"
    using times laws by (intro chrono_lawsD(3)) auto
  with b(2) minted minted_permissions_ok [OF mint]
  have enc: "encodable c \<lparr>cv_permissions = ?P, cv_expires_at = now + 5000000000, cv_request_binding = Some b\<rparr>"
    by (simp add: encodable_def well_minted_def)
  obtain ch self1 w5 where log: "logged c [CapabilityAttenuated (o_task_id self)] self self1"
      and s: "step_enforced c os call (self, w) = dispatch_step c os call ch n (self1, w5)"
      and auth: "authorize_only c os ch (to_request call) (Some n) w5 =
        (case decide (os_fs os w6) ?P (to_request call) of
           Allow \<Rightarrow> Ok () | Deny reason \<Rightarrow> Err (DeniedError reason), w6)"
    by (rule step_authorizes [OF _ _ _ _ mint enc b(1) d(1) times(2,3,5,6) stable]) (use laws in blast)+
  from dispatch_step_decided [OF auth no_panic d(2), of self1] obtain out self' w' where
    "dispatch_step c os call ch n (self1, w5) = (Ok out, self', w')" "so_call out = call"
      "monitor_step os ?P call w (so_decision out) w'" "logged c [outcome_event call (so_decision out)] self1 self'"
    by blast
  with logged_trans [OF log this(4)] s mode show ?thesis by (simp add: step_def)
qed

lemma step_all_monitored:
  assumes "dependable c facts root_of lo hi"
  shows "well_minted c (o_root self) \<Longrightarrow> o_mode self = Enforced \<Longrightarrow> calm_run c os lo hi calls (self, w) \<Longrightarrow>
    \<exists>outs self' w'. step_all c os calls (self, w) = (Ok outs, self', w') \<and> map so_call outs = calls
      \<and> monitor os (root_permissions (o_root self)) calls w (map so_decision outs) w'
      \<and> logged c (run_log (o_task_id self) outs) self self'"
proof (induction calls arbitrary: self w)
  case Nil
  then show ?case by simp
next
  case (Cons call calls)
  from Cons.prems(3) have "calm os lo hi (o_root self) w" by simp
  from step_monitored [OF assms Cons.prems(1) this Cons.prems(2)] obtain out self1 w1 where
    s: "step c os call (self, w) = (Ok out, self1, w1)" "so_call out = call"
      "monitor_step os (root_permissions (o_root self)) call w (so_decision out) w1"
      "logged c (run_log (o_task_id self) [out]) self self1"
    by blast
  from step_contained [OF s(1)] Cons.prems(2) have same: "o_mode self1 = Enforced" "o_root self1 = o_root self"
    by (simp_all add: contained_def)
  from Cons.prems(3) s(1) have "calm_run c os lo hi calls (self1, w1)" by simp
  with Cons.IH [of self1 w1] Cons.prems(1) same obtain outs self2 w2 where
    "step_all c os calls (self1, w1) = (Ok outs, self2, w2)" "map so_call outs = calls"
      "monitor os (root_permissions (o_root self)) calls w1 (map so_decision outs) w2"
      "logged c (run_log (o_task_id self1) outs) self1 self2"
    by auto
  with s logged_trans [OF s(4) this(4)] logged_same [OF s(4)] show ?case
    by (auto simp: io_bind_def io_lift_def intro!: monitor.next_call)
qed

lemma run_monitored:
  assumes "dependable c facts root_of lo hi" "well_minted c (o_root self)" "o_mode self = Enforced"
    and "calm_run c os lo hi calls (self, w)"
  shows "\<exists>outs self' w'. run c os calls (self, w) = (Ok outs, self', w') \<and> map so_call outs = calls
      \<and> monitor os (root_permissions (o_root self)) calls w (map so_decision outs) w'
      \<and> logged c (run_log (o_task_id self) outs) self self'"
  unfolding run_step_all by (rule step_all_monitored [OF assms])

text \<open>A sufficient condition: every world that the root's authority leads to is calm.\<close>

lemma calm_runI:
  assumes "o_mode self = Enforced"
    and "\<And>v. confined os (root_permissions (o_root self)) (root_expires_at (o_root self)) w v
      \<Longrightarrow> calm os lo hi (o_root self) v"
  shows "calm_run c os lo hi calls (self, w)"
  using assms
proof (induction calls arbitrary: self w)
  case (Cons call calls)
  have "calm_run c os lo hi calls (self', w')" if "step c os call (self, w) = (Ok out, self', w')" for out self' w'
  proof -
    from step_contained [OF that] Cons.prems(1) have same: "o_mode self' = Enforced" "o_root self' = o_root self"
        "confined os (root_permissions (o_root self)) (root_expires_at (o_root self)) w w'"
      by (simp_all add: contained_def)
    show ?thesis
      by (rule Cons.IH [OF same(1)]) (use Cons.prems(2) same(2,3) in \<open>auto intro: rtranclp_trans\<close>)
  qed
  with Cons.prems(2) show ?case by auto
qed simp

section \<open>Without enforcement\<close>

text \<open>Ambient authority: every call is executed, whatever it is.\<close>

inductive ambient ::
    "('w, 'kp) os \<Rightarrow> tool_call list \<Rightarrow> 'w \<Rightarrow> step_decision list \<Rightarrow> 'w \<Rightarrow> bool"
  for os where
  ambient_stop: "ambient os [] w [] w"
| ambient_done: "execute os call w = (Ok out, v) \<Longrightarrow> draws os v u \<Longrightarrow> ambient os calls u ds w'
    \<Longrightarrow> ambient os (call # calls) w (Allowed out # ds) w'"
| ambient_fail: "execute os call w = (Err e, v) \<Longrightarrow> draws os v u \<Longrightarrow> ambient os calls u ds w'
    \<Longrightarrow> ambient os (call # calls) w (Errored (show_tool_error e) # ds) w'"

inductive_simps ambient_Nil [simp]: "ambient os [] w ds w'"
inductive_simps ambient_Cons: "ambient os (call # calls) w ds w'"

lemma bypassed_step_ambient:
  assumes mode: "o_mode self = Bypassed" and exec: "execute os call w = (r, v)" "r \<noteq> Panic"
  shows "\<exists>out self' u. step c os call (self, w) = (Ok out, self', u) \<and> so_call out = call \<and> draws os v u
    \<and> so_decision out = (case r of Ok res \<Rightarrow> Allowed res | Err e \<Rightarrow> Errored (show_tool_error e))
    \<and> logged c [outcome_event call (so_decision out)] self self'"
proof -
  obtain q self' u where q: "step_bypassed c os call (self, w) = (q, self', u)" by (cases rule: prod_cases3)
  have "\<exists>out. q = Ok out"
  proof (cases r)
    case (Ok res)
    with q exec(1) show ?thesis by (auto simp: step_bypassed_def dest: record_then_return)
  next
    case (Err e)
    with q exec(1) show ?thesis by (auto simp: step_bypassed_def dest: record_then_return)
  qed (use exec(2) in simp)
  then obtain out where out: "q = Ok out" by blast
  from step_bypassed_spec [OF q [unfolded out]] exec mode q out show ?thesis
    by (cases r) (auto simp: step_def outcome_event_def)
qed

lemma step_all_ambient:
  assumes "\<And>call v. fst (execute os call v) \<noteq> Panic"
  shows "o_mode self = Bypassed \<Longrightarrow>
    \<exists>outs self' w'. step_all c os calls (self, w) = (Ok outs, self', w') \<and> map so_call outs = calls
      \<and> ambient os calls w (map so_decision outs) w'
      \<and> logged c (map (\<lambda>out. outcome_event (so_call out) (so_decision out)) outs) self self'"
proof (induction calls arbitrary: self w)
  case (Cons call calls)
  obtain r v where exec: "execute os call w = (r, v)" by fastforce
  moreover from this assms [of call w] have "r \<noteq> Panic" by auto
  ultimately obtain out self1 u where
    s: "step c os call (self, w) = (Ok out, self1, u)" "so_call out = call" "draws os v u"
      "so_decision out = (case r of Ok res \<Rightarrow> Allowed res | Err e \<Rightarrow> Errored (show_tool_error e))"
      "logged c [outcome_event call (so_decision out)] self self1"
    using bypassed_step_ambient [OF Cons.prems] by metis
  from Cons.IH [of self1 u] logged_same [OF s(5)] Cons.prems obtain outs self2 w' where
    rest: "step_all c os calls (self1, u) = (Ok outs, self2, w')" "map so_call outs = calls"
      "ambient os calls u (map so_decision outs) w'"
      "logged c (map (\<lambda>out. outcome_event (so_call out) (so_decision out)) outs) self1 self2"
    by auto
  have "ambient os (call # calls) w (so_decision out # map so_decision outs) w'"
    using exec \<open>r \<noteq> Panic\<close> s(3,4) rest(3) by (cases r) (auto intro: ambient_done ambient_fail)
  with s(1,2) rest logged_trans [OF s(5) rest(4)] show ?case by (auto simp: io_bind_def io_lift_def)
qed simp

lemma run_ambient:
  assumes "\<And>call v. fst (execute os call v) \<noteq> Panic" "o_mode self = Bypassed"
  shows "\<exists>outs self' w'. run c os calls (self, w) = (Ok outs, self', w') \<and> map so_call outs = calls
      \<and> ambient os calls w (map so_decision outs) w'
      \<and> logged c (map (\<lambda>out. outcome_event (so_call out) (so_decision out)) outs) self self'"
  unfolding run_step_all by (rule step_all_ambient [OF assms])

end
