(* ===== verification/Well_Typed.thy ===== *)
theory Well_Typed
  imports Agent_Facts
begin

text \<open>
  The types behind the model's records: in the code a set of paths is a \<open>BTreeSet\<close> and a hash is
  32 bytes.  Here sets are lists and hashes byte lists, so what the types say is an invariant:
  every operation that makes a permission set, a request, a capability or a decoded state makes a
  well-typed one.
\<close>

section \<open>Typing\<close>

definition binding_typed :: "request_binding option \<Rightarrow> bool" where
  "binding_typed b \<longleftrightarrow> (case b of None \<Rightarrow> True | Some rb \<Rightarrow> length (argument_hash rb) = 32)"

definition request_typed :: "attenuation_request \<Rightarrow> bool" where
  "request_typed r \<longleftrightarrow>
     btree_ok components (ar_readable_roots r) \<and> btree_ok components (ar_writable_roots r)
   \<and> btree_ok (\<lambda>s. s) (ar_exec_binaries r) \<and> binding_typed (ar_request_binding r)"

definition caveat_typed :: "caveat \<Rightarrow> bool" where
  "caveat_typed s \<longleftrightarrow> permissions_ok (cv_permissions s) \<and> binding_typed (cv_request_binding s)"

definition child_typed :: "'tok child_capability \<Rightarrow> bool" where
  "child_typed ch \<longleftrightarrow> permissions_ok (child_permissions ch) \<and> child_caveats ch \<noteq> [] \<and> list_all caveat_typed (child_caveats ch)"

definition state_typed :: "verified_state \<Rightarrow> bool" where
  "state_typed v \<longleftrightarrow> permissions_ok (vs_permissions v) \<and> binding_typed (vs_request_binding v)"

lemmas typed_defs = binding_typed_def request_typed_def caveat_typed_def child_typed_def state_typed_def

section \<open>Every operation is well typed\<close>

lemma mint_typed: "mint c fs kp nk m now = Ok root \<Longrightarrow> permissions_ok (root_permissions root)"
  by (auto simp: mint_Ok_iff dest: from_manifest_ok)

context attenuator
begin

lemma attenuate_typed:
  assumes "attenuate fs k x r now = Ok ch" "request_typed r" "list_all caveat_typed (history x)"
  shows "child_typed ch"
proof -
  have "permissions_ok (child_permissions ch)"
    using attenuate_Ok [OF assms(1)] assms(2) by (simp add: request_typed_def requested_permissions_ok)
  with attenuate_Ok [OF assms(1)] assms(2,3) show ?thesis
    by (simp add: child_typed_def caveat_typed_def request_typed_def)
qed

end

lemma child_request_typed:
  "permissions_ok P \<Longrightarrow> length (argument_hash b) = 32 \<Longrightarrow> request_typed (child_request P b)"
  by (simp add: child_request_def request_typed_def permissions_ok_def binding_typed_def)

lemma decode_binding_typed: "decode_binding c b k = Ok rb \<Longrightarrow> binding_typed rb"
  by (auto simp: decode_binding_def binding_typed_def res_split_rules split: option.splits)
    (rule decode_hex32_length, assumption)

lemma decode_state_typed:
  "decode_state c tok pk = Ok d \<Longrightarrow> permissions_ok (ds_permissions d) \<and> binding_typed (ds_request_binding d)"
  by (auto simp: decode_state_def res_split_rules permissions_ok_def dest: decode_binding_typed)

lemma verify_typed: "verify_and_decode c ch = Ok v \<Longrightarrow> state_typed v"
  by (auto simp: verify_and_decode_Ok_iff state_typed_def dest: decode_state_typed)

lemma request_binding_typed:
  "(\<And>bs. length (blake3 c bs) = 32) \<Longrightarrow> request_binding_for c req n = Ok b \<Longrightarrow> length (argument_hash b) = 32"
  by (auto simp: request_binding_for_def res_split_rules hash_tool_arguments_def)

text \<open>Hence every capability that is built from a root, in any number of steps.\<close>

inductive built ::
    "('kp, 'pk, 'b, 'tok) crates \<Rightarrow> 'tok root_capability \<Rightarrow> 'tok child_capability \<Rightarrow> bool"
  for c root where
  from_root: "root_attenuate c fs k root r now = Ok ch \<Longrightarrow> request_typed r \<Longrightarrow> built c root ch"
| from_child: "built c root ch \<Longrightarrow> child_attenuate c fs k ch r now = Ok ch' \<Longrightarrow> request_typed r \<Longrightarrow> built c root ch'"

lemma built_typed: "built c root ch \<Longrightarrow> child_typed ch"
proof (induction rule: built.induct)
  case from_root
  then show ?case by (auto intro: root_att.attenuate_typed)
next
  case (from_child ch fs k r now ch')
  show ?case
    by (rule child_att.attenuate_typed [OF from_child.hyps(2,3)]) (use from_child.IH in \<open>simp add: child_typed_def\<close>)
qed

end
