(* ===== verification/Spike.thy ===== *)
theory Spike
  imports Contrast
begin

text \<open>
  The containment spike (\<open>spikes/landlock-docker/src/main.rs\<close>), the experiment the sandbox crate is
  to be built on: apply a Landlock ruleset and a seccomp filter, then try a read in scope, a read
  out of scope and a connection, and count the failures.  The two crates and the system are a
  record of functions.
\<close>

section \<open>The system\<close>

datatype ruleset_status = FullyEnforced | PartiallyEnforced | NotEnforced

datatype io_kind = PermissionDenied | OtherKind

text \<open>An I/O error: its kind and its \<open>Display\<close> text.\<close>

type_synonym io_error = "io_kind \<times> string"

datatype seccomp_action = SeccompAllow | SeccompErrno nat

text \<open>
  \<open>'r\<close> are rulesets, \<open>'f\<close> filters and \<open>'p\<close> programs.  The access rights handled are all of the ABI's,
  those of a rule its read rights; both are the crate's.
\<close>

record ('w, 'r, 'f, 'p) spike_sys =
  sp_create_dir_all :: "'w \<Rightarrow> path \<Rightarrow> (string, unit) res \<times> 'w"
  sp_write :: "'w \<Rightarrow> path \<Rightarrow> string \<Rightarrow> (string, unit) res \<times> 'w"
  sp_handle_access :: "(string, 'r) res"
  sp_create_ruleset :: "'w \<Rightarrow> 'r \<Rightarrow> (string, 'r) res \<times> 'w"
  sp_add_read_rules :: "'w \<Rightarrow> 'r \<Rightarrow> path list \<Rightarrow> (string, 'r) res \<times> 'w"
  sp_restrict_self :: "'w \<Rightarrow> 'r \<Rightarrow> (string, ruleset_status) res \<times> 'w"
  sp_read_to_string :: "'w \<Rightarrow> path \<Rightarrow> (io_error, string) res \<times> 'w"
  sp_sys_socket :: int
  sp_eperm :: nat
  sp_filter_new :: "(int \<times> unit list) list \<Rightarrow> seccomp_action \<Rightarrow> seccomp_action \<Rightarrow> (string, 'f) res"
  sp_filter_compile :: "'f \<Rightarrow> (string, 'p) res"
  sp_apply_filter :: "'w \<Rightarrow> 'p \<Rightarrow> (string, unit) res \<times> 'w"
  sp_connect :: "'w \<Rightarrow> string \<Rightarrow> (string, unit) res \<times> 'w"

section \<open>The checks\<close>

text \<open>Each check prints a line and counts at most one failure.\<close>

definition check_status :: "ruleset_status \<Rightarrow> string \<times> nat" where
  "check_status s =
     (case s of
        FullyEnforced \<Rightarrow> (''landlock : fully enforced'', 0)
      | PartiallyEnforced \<Rightarrow> (''landlock : PARTIALLY enforced (kernel ABI gap)'', 0)
      | NotEnforced \<Rightarrow> (''landlock : NOT enforced (kernel < 5.13 or Landlock disabled)'', 1))"

definition check_in_scope :: "(io_error, string) res \<Rightarrow> string \<times> nat" where
  "check_in_scope r =
     (case r of
        Err (kind, e) \<Rightarrow> (''FAIL     : in-scope read blocked: '' @ e, 1)
      | _ \<Rightarrow> (''PASS     : in-scope read of /allowed/ok.txt allowed'', 0))"

definition check_out_of_scope :: "(io_error, string) res \<Rightarrow> string \<times> nat" where
  "check_out_of_scope r =
     (case r of
        Err (PermissionDenied, e) \<Rightarrow> (''PASS     : out-of-scope read of /etc/hostname denied (EACCES)'', 0)
      | Err (OtherKind, e) \<Rightarrow> (''FAIL     : out-of-scope read gave unexpected error: '' @ e, 1)
      | _ \<Rightarrow> (''FAIL     : out-of-scope read SUCCEEDED '' @ em_dash @ '' Landlock is not containing'', 1))"

definition check_egress :: "(string, unit) res \<Rightarrow> string \<times> nat" where
  "check_egress r =
     (case r of
        Err e \<Rightarrow> (''PASS     : network egress blocked by seccomp'', 0)
      | _ \<Rightarrow> (''FAIL     : socket connect SUCCEEDED '' @ em_dash @ '' seccomp is not blocking'', 1))"

definition spike_verdict :: "nat \<Rightarrow> string \<times> exit" where
  "spike_verdict failures =
     (if failures = 0 then
        (newline @ ''SPIKE PASS: Landlock + seccomp both contain inside this container.'', Returned)
      else
        (newline @ ''SPIKE FAIL: '' @ show_nat failures @ '' check(s) failed '' @ em_dash
           @ '' see the Docker seccomp gotcha in README.md.'', Exited 1))"

section \<open>The experiment\<close>

text \<open>\<open>unwrap\<close> and \<open>expect\<close>: an error is a panic.\<close>

definition must :: "('w \<Rightarrow> ('e, 'a) res \<times> 'w) \<Rightarrow> ('w, 'a) demo" where
  "must f = on_world (\<lambda>w. case f w of (Ok x, w') \<Rightarrow> (Ok x, w') | (_, w') \<Rightarrow> (Panic, w'))"

text \<open>An operation whose result a check looks at; a panic ends the program before the check.\<close>

definition checked :: "('w \<Rightarrow> ('e, 'a) res \<times> 'w) \<Rightarrow> (('e, 'a) res \<Rightarrow> string \<times> nat) \<Rightarrow> ('w, nat) demo" where
  "checked f check =
     io_bind (on_world (\<lambda>w. case f w of (Panic, w') \<Rightarrow> (Panic, w') | (r, w') \<Rightarrow> (Ok r, w'))) (\<lambda>r.
     io_bind (put_lines [fst (check r)]) (\<lambda>_. io_lift (Ok (snd (check r)))))"

definition apply_landlock :: "('w, 'r, 'f, 'p) spike_sys \<Rightarrow> ('w, ruleset_status) demo" where
  "apply_landlock sys =
     io_bind (must (\<lambda>w. (sp_handle_access sys, w))) (\<lambda>handled.
     io_bind (must (\<lambda>w. sp_create_ruleset sys w handled)) (\<lambda>created.
     io_bind (must (\<lambda>w. sp_add_read_rules sys w created [''/allowed''])) (\<lambda>ruled.
     must (\<lambda>w. sp_restrict_self sys w ruled))))"

definition apply_seccomp :: "('w, 'r, 'f, 'p) spike_sys \<Rightarrow> ('w, unit) demo" where
  "apply_seccomp sys =
     io_bind (must (\<lambda>w. (sp_filter_new sys [(sp_sys_socket sys, [])] SeccompAllow (SeccompErrno (sp_eperm sys)), w)))
       (\<lambda>filter.
     io_bind (must (\<lambda>w. (sp_filter_compile sys filter, w))) (\<lambda>program.
     must (\<lambda>w. sp_apply_filter sys w program)))"

definition spike_main :: "('w, 'r, 'f, 'p) spike_sys \<Rightarrow> ('w, exit) demo" where
  "spike_main sys =
     io_bind (must (\<lambda>w. sp_create_dir_all sys w ''/allowed'')) (\<lambda>_.
     io_bind (must (\<lambda>w. sp_write sys w ''/allowed/ok.txt'' ''in scope'')) (\<lambda>_.
     io_bind (apply_landlock sys) (\<lambda>status.
     io_bind (put_lines [fst (check_status status)]) (\<lambda>_.
     io_bind (checked (\<lambda>w. sp_read_to_string sys w ''/allowed/ok.txt'') check_in_scope) (\<lambda>f1.
     io_bind (checked (\<lambda>w. sp_read_to_string sys w ''/etc/hostname'') check_out_of_scope) (\<lambda>f2.
     io_bind (apply_seccomp sys) (\<lambda>_.
     io_bind (checked (\<lambda>w. sp_connect sys w ''1.1.1.1:80'') check_egress) (\<lambda>f3.
     let verdict = spike_verdict (snd (check_status status) + f1 + f2 + f3) in
     io_bind (put_lines [fst verdict]) (\<lambda>_. io_lift (Ok (snd verdict)))))))))))"

section \<open>What it shows\<close>

definition spike_passes ::
    "ruleset_status \<Rightarrow> (io_error, string) res \<Rightarrow> (io_error, string) res \<Rightarrow> (string, unit) res \<Rightarrow> bool" where
  "spike_passes status inside outside egress \<longleftrightarrow>
     status \<noteq> NotEnforced \<and> is_ok inside \<and> (\<exists>e. outside = Err (PermissionDenied, e)) \<and> \<not> is_ok egress"

lemma must_Ok_iff: "must f (w, text) = (Ok x, w', text') \<longleftrightarrow> f w = (Ok x, w') \<and> text' = text"
  by (auto simp: must_def on_world_def split: prod.splits res.splits)

lemma put_lines_Ok_iff: "put_lines ls (w, text) = (r, w', text') \<longleftrightarrow> r = Ok () \<and> w' = w \<and> text' = text @ lines_text ls"
  by (auto simp: put_lines_def put_text_def)

lemma checked_Ok_iff:
  "checked f check (w, text) = (Ok n, w', text') \<longleftrightarrow>
     (\<exists>r. r \<noteq> Panic \<and> f w = (r, w') \<and> n = snd (check r) \<and> text' = text @ lines_text [fst (check r)])"
  by (cases "f w"; cases "fst (f w)")
    (auto simp: checked_def on_world_def io_bind_def io_lift_def put_lines_def put_text_def)

lemma failures_zero:
  assumes "r1 \<noteq> Panic" "r2 \<noteq> Panic" "r3 \<noteq> Panic"
  shows "snd (check_status s) + snd (check_in_scope r1) + snd (check_out_of_scope r2) + snd (check_egress r3) = 0
    \<longleftrightarrow> spike_passes s r1 r2 r3"
  using assms
  by (cases s; cases r1; cases r2; cases r3)
    (auto simp: spike_passes_def check_status_def check_in_scope_def check_out_of_scope_def check_egress_def
      split: io_kind.splits)

lemma apply_landlock_text: "apply_landlock sys (w, text) = (Ok s, w', text') \<Longrightarrow> text' = text"
  by (auto simp: apply_landlock_def res_split_rules must_Ok_iff)

lemma apply_seccomp_text: "apply_seccomp sys (w, text) = (Ok u, w', text') \<Longrightarrow> text' = text"
  by (auto simp: apply_seccomp_def res_split_rules must_Ok_iff)

lemma lines_text_append: "lines_text (xs @ ys) = lines_text xs @ lines_text ys"
  by (simp add: lines_text_def)

text \<open>What a run that ends by itself observed, in order, and what it concluded.\<close>

definition spike_observed ::
    "('w, 'r, 'f, 'p) spike_sys \<Rightarrow> ruleset_status \<Rightarrow> (io_error, string) res \<Rightarrow> (io_error, string) res
      \<Rightarrow> (string, unit) res \<Rightarrow> 'w \<Rightarrow> 'w \<Rightarrow> bool" where
  "spike_observed sys s r1 r2 r3 w w' \<longleftrightarrow>
     (\<exists>w1 w2 w3 w4 w5 w6. sp_create_dir_all sys w ''/allowed'' = (Ok (), w1)
        \<and> sp_write sys w1 ''/allowed/ok.txt'' ''in scope'' = (Ok (), w2)
        \<and> apply_landlock sys (w2, []) = (Ok s, w3, [])
        \<and> sp_read_to_string sys w3 ''/allowed/ok.txt'' = (r1, w4)
        \<and> sp_read_to_string sys w4 ''/etc/hostname'' = (r2, w5)
        \<and> apply_seccomp sys (w5, []) = (Ok (), w6, [])
        \<and> sp_connect sys w6 ''1.1.1.1:80'' = (r3, w')
        \<and> r1 \<noteq> Panic \<and> r2 \<noteq> Panic \<and> r3 \<noteq> Panic)"

lemma apply_textless:
  "apply_landlock sys (w, text) = (Ok s, w', text) \<Longrightarrow> apply_landlock sys (w, []) = (Ok s, w', [])"
  "apply_seccomp sys (w, text) = (Ok (), w', text) \<Longrightarrow> apply_seccomp sys (w, []) = (Ok (), w', [])"
  by (auto simp: apply_landlock_def apply_seccomp_def res_split_rules must_Ok_iff; blast)+

definition spike_failures ::
    "ruleset_status \<Rightarrow> (io_error, string) res \<Rightarrow> (io_error, string) res \<Rightarrow> (string, unit) res \<Rightarrow> nat" where
  "spike_failures s r1 r2 r3 =
     snd (check_status s) + snd (check_in_scope r1) + snd (check_out_of_scope r2) + snd (check_egress r3)"

lemma spike_run:
  assumes "spike_main sys (w, text) = (Ok ex, w', text')"
  shows "\<exists>s r1 r2 r3. spike_observed sys s r1 r2 r3 w w'
    \<and> ex = (if spike_passes s r1 r2 r3 then Returned else Exited 1)
    \<and> text' = text @ lines_text
        [fst (check_status s), fst (check_in_scope r1), fst (check_out_of_scope r2), fst (check_egress r3),
         fst (spike_verdict (spike_failures s r1 r2 r3))]"
proof -
  obtain w1 w2 s w3 t3 f1 w4 t4 f2 w5 t5 w6 t6 f3 t7 where
    obs: "sp_create_dir_all sys w ''/allowed'' = (Ok (), w1)"
      "sp_write sys w1 ''/allowed/ok.txt'' ''in scope'' = (Ok (), w2)"
      "apply_landlock sys (w2, text) = (Ok s, w3, t3)"
      "checked (\<lambda>w. sp_read_to_string sys w ''/allowed/ok.txt'') check_in_scope
         (w3, t3 @ lines_text [fst (check_status s)]) = (Ok f1, w4, t4)"
      "checked (\<lambda>w. sp_read_to_string sys w ''/etc/hostname'') check_out_of_scope (w4, t4) = (Ok f2, w5, t5)"
      "apply_seccomp sys (w5, t5) = (Ok (), w6, t6)"
      "checked (\<lambda>w. sp_connect sys w ''1.1.1.1:80'') check_egress (w6, t6) = (Ok f3, w', t7)"
      "ex = snd (spike_verdict (snd (check_status s) + f1 + f2 + f3))"
      "text' = t7 @ lines_text [fst (spike_verdict (snd (check_status s) + f1 + f2 + f3))]"
    using assms
    by (auto simp: spike_main_def res_split_rules must_Ok_iff put_lines_Ok_iff Let_def io_lift_def)
  note run = obs [unfolded apply_landlock_text [OF obs(3)]]
  from run(4) obtain r1 where r1: "r1 \<noteq> Panic" "sp_read_to_string sys w3 ''/allowed/ok.txt'' = (r1, w4)"
      "f1 = snd (check_in_scope r1)" "t4 = (text @ lines_text [fst (check_status s)]) @ lines_text [fst (check_in_scope r1)]"
    unfolding checked_Ok_iff by blast
  from run(5) obtain r2 where r2: "r2 \<noteq> Panic" "sp_read_to_string sys w4 ''/etc/hostname'' = (r2, w5)"
      "f2 = snd (check_out_of_scope r2)" "t5 = t4 @ lines_text [fst (check_out_of_scope r2)]"
    unfolding checked_Ok_iff by blast
  from run(7) obtain r3 where r3: "r3 \<noteq> Panic" "sp_connect sys w6 ''1.1.1.1:80'' = (r3, w')"
      "f3 = snd (check_egress r3)" "t7 = t6 @ lines_text [fst (check_egress r3)]"
    unfolding checked_Ok_iff by blast
  have t6: "t6 = t5" by (rule apply_seccomp_text [OF run(6)])
  have "spike_observed sys s r1 r2 r3 w w'"
    using run(1,2) apply_textless(1) [OF run(3)] apply_textless(2) [OF run(6) [unfolded t6]] r1(1,2) r2(1,2) r3(1,2)
    unfolding spike_observed_def by blast
  moreover have "ex = (if spike_passes s r1 r2 r3 then Returned else Exited 1)"
    using failures_zero [OF r1(1) r2(1) r3(1), of s] run(8) r1(3) r2(3) r3(3) by (simp add: spike_verdict_def)
  moreover have "text' = text @ lines_text
        [fst (check_status s), fst (check_in_scope r1), fst (check_out_of_scope r2), fst (check_egress r3),
         fst (spike_verdict (spike_failures s r1 r2 r3))]"
    using run(9) r1(3,4) r2(3,4) r3(3,4) t6 by (simp add: lines_text_def spike_failures_def)
  ultimately show ?thesis by blast
qed

end
