(* ===== verification/Props_System.thy ===== *)
theory Props_System
  imports Scenario Monitor Well_Typed Spike
begin

text \<open>
  Properties of the program as a whole: its runs refine a reference monitor, its operations are
  well typed; and what the containment spike can be relied on to show.
\<close>

section \<open>The reference monitor\<close>

text \<open>The concrete instance with a clock that stands still.\<close>

definition still_os :: "(world, bytes) os" where
  "still_os = tb_os\<lparr>os_now := (\<lambda>w. (w_clock w, w))\<rparr>"

lemma still_os_sel [simp]:
  "os_now still_os w = (w_clock w, w)"
  "os_uuid still_os w = (word_of_nat (w_fresh w), w\<lparr>w_fresh := w_fresh w + 1\<rparr>)"
  "os_keypair still_os w = ([word_of_nat (w_fresh w)], w\<lparr>w_fresh := w_fresh w + 1\<rparr>)"
  "os_fs still_os w = w_fs w"
  by (simp_all add: still_os_def)

text \<open>What no call changes: the clock, the directories and the links.\<close>

definition frame :: "world \<Rightarrow> bool" where
  "frame w \<longleftrightarrow> w_clock w = 1002000000 \<and> w_dirs w = w_dirs w0 \<and> w_links w = w_links w0"

lemma still_execute:
  "execute still_os call w = (r, v) \<Longrightarrow> r \<noteq> Panic \<and> (frame w \<longrightarrow> frame v)"
  by (cases call)
    (auto simp: execute_def still_os_def tb_os_def io_bind_def io_map_err_def io_lift_def frame_def
      split: option.splits)

lemma still_draw: "draw still_os w v \<Longrightarrow> frame w \<Longrightarrow> frame v"
  by (auto elim!: drawE simp: frame_def)

lemma frame_stable: "frame w \<Longrightarrow> stable_roots (w_fs w) P0"
proof -
  assume f: "frame w"
  have "w_target w ''/repo'' = ''/repo''" "w_target w ''/repo/src'' = ''/repo/src''"
    using f by (simp_all add: w_target_def frame_def w0_def)
  moreover from this f have "w_present w ''/repo''" "w_present w ''/repo/src''"
    by (simp_all add: w_present_def frame_def w0_def)
  ultimately have "resolve_existing_ancestor (w_fs w) ''/repo'' = ''/repo''"
      "resolve_existing_ancestor (w_fs w) ''/repo/src'' = ''/repo/src''"
    by (simp_all add: resolve_canonical w_fs_def)
  moreover have "\<not> unsafe_path ''/repo''" "\<not> unsafe_path ''/repo/src''" by code_simp+
  ultimately show ?thesis by (simp add: stable_roots_def P0_def)
qed

lemma frame_calm: "frame w \<Longrightarrow> calm still_os tb_lo tb_hi root0 w"
proof -
  assume f: "frame w"
  have "now = 1002000000 \<and> t = now \<and> frame w2" if "step_draws still_os w now n w2 t w6" for now n w2 t w6
    using that f by (auto simp: step_draws_def frame_def)
  moreover have "fst (execute still_os call v) \<noteq> Panic" for call v
    using still_execute by (cases "execute still_os call v") auto
  moreover have "root_expires_at root0 = 61000000000" "root_permissions root0 = P0" by (simp_all add: root0_def)
  ultimately show ?thesis
    by (fastforce simp: calm_def tb_lo_def tb_hi_def intro: frame_stable)
qed

lemma dependable0: "dependable tb (\<lambda>b. set (tb_facts b)) tb_root tb_lo tb_hi"
  using tb_biscuit_laws tb_uuid_laws tb_chrono_laws
  by (simp add: dependable_def biscuit_available_def tb_answers)

lemma well_minted0: "well_minted tb root0"
  unfolding well_minted_def using minted0 P1_encodable(2,3) by (simp add: root0_def P0_def) blast

text \<open>C2: Enforcement implements a reference monitor.  The specification \<open>monitor\<close> has one permission
  set, that of the root, and no tokens, expiries, bindings or log: it asks the policy about each
  call in the world it has reached, refuses with the policy's reason or executes.  On a minted root
  with stable paths, while the clock is in time, every run of the orchestrator ends, answers every
  call in order, its answers and effects are those of a run of the monitor, and its log grows by two
  entries per call, the attenuation and the outcome.\<close>

theorem enforcement_is_reference_monitor:
  assumes "dependable c facts root_of lo hi" "well_minted c (o_root self)" "o_mode self = Enforced"
    and "calm_run c os lo hi calls (self, w)"
  shows "\<exists>outs self' w'. run c os calls (self, w) = (Ok outs, self', w') \<and> map so_call outs = calls
    \<and> monitor os (root_permissions (o_root self)) calls w (map so_decision outs) w'
    \<and> map ae_event (o_audit_log self') = map ae_event (o_audit_log self) @ run_log (o_task_id self) outs"
  using run_monitored [OF assms] unfolding logged_def by fastforce

theorem enforcement_is_reference_monitor_witness:
  "\<exists>outs self' w'. run tb still_os [FsRead ''/repo/a'', FsRead ''/etc/key'', FsWrite ''/repo/src/b'' ''text'']
      (o0 Enforced, wA) = (Ok outs, self', w') \<and> length outs = 3
    \<and> length (o_audit_log self') = length (o_audit_log (o0 Enforced)) + 6
    \<and> monitor still_os P0 [FsRead ''/repo/a'', FsRead ''/etc/key'', FsWrite ''/repo/src/b'' ''text'']
        wA (map so_decision outs) w'"
proof -
  let ?calls = "[FsRead ''/repo/a'', FsRead ''/etc/key'', FsWrite ''/repo/src/b'' ''text'']"
  have root: "root_permissions root0 = P0" by (simp add: root0_def)
  have "frame wA" by (simp add: frame_def wA_def w0_def)
  then have "frame v" if "confined still_os P0 x wA v" for x v
    by (rule confined_invariant [OF that, where I = frame]) (auto dest: still_draw still_execute)
  then have "calm_run tb still_os tb_lo tb_hi ?calls (o0 Enforced, wA)"
    by (intro calm_runI) (simp_all add: root frame_calm)
  from enforcement_is_reference_monitor [OF dependable0 _ _ this] well_minted0
  obtain outs self' w' where "run tb still_os ?calls (o0 Enforced, wA) = (Ok outs, self', w')"
      "monitor still_os P0 ?calls wA (map so_decision outs) w'"
      "map ae_event (o_audit_log self') = map ae_event (o_audit_log (o0 Enforced)) @ run_log (o_task_id (o0 Enforced)) outs"
    by (auto simp: root)
  moreover from this(2) have "length outs = 3" by (auto dest: monitor_length)
  moreover from arg_cong [OF calculation(3), of length]
  have "length (o_audit_log self') = length (o_audit_log (o0 Enforced)) + 2 * length outs" by (simp add: run_log_length)
  ultimately show ?thesis by (auto intro!: exI)
qed

section \<open>Types\<close>



section \<open>The containment spike\<close>

text \<open>C40: What the containment spike prints and how it exits follow from four observations, in this
  order: the status of the ruleset, the two reads after it, and the connection after the filter.
  It passes exactly when the ruleset is enforced at least in part, the read in scope succeeds, the
  one out of scope is refused with that kind of error, and the connection fails for any reason.
  So a machine without a network passes the last check whatever the filter does.\<close>

theorem spike_verdict_exact:
  assumes "spike_main sys (w, text) = (Ok ex, w', text')"
  shows "\<exists>s r1 r2 r3. spike_observed sys s r1 r2 r3 w w'
    \<and> ex = (if spike_passes s r1 r2 r3 then Returned else Exited 1)
    \<and> text' = text @ lines_text
        [fst (check_status s), fst (check_in_scope r1), fst (check_out_of_scope r2), fst (check_egress r3),
         fst (spike_verdict (spike_failures s r1 r2 r3))]"
  using assms by (rule spike_run)

text \<open>A container without a network and a filter that filters nothing.\<close>

definition offline_sys :: "(path list, unit, unit, unit) spike_sys" where
  "offline_sys =
     \<lparr>sp_create_dir_all = (\<lambda>w p. (Ok (), w)), sp_write = (\<lambda>w p s. (Ok (), w)), sp_handle_access = Ok (),
      sp_create_ruleset = (\<lambda>w r. (Ok r, w)), sp_add_read_rules = (\<lambda>w r ps. (Ok r, ps)),
      sp_restrict_self = (\<lambda>w r. (Ok PartiallyEnforced, w)),
      sp_read_to_string = (\<lambda>w p. (if p = ''/allowed/ok.txt'' then Ok ''in scope''
        else Err (PermissionDenied, ''Permission denied (os error 13)''), w)),
      sp_sys_socket = 41, sp_eperm = 1, sp_filter_new = (\<lambda>rules d a. Ok ()), sp_filter_compile = Ok,
      sp_apply_filter = (\<lambda>w p. (Ok (), w)),
      sp_connect = (\<lambda>w addr. (Err ''Network is unreachable (os error 101)'', w))\<rparr>"

theorem spike_verdict_exact_witness:
  "spike_main offline_sys ([], []) = (Ok Returned, [''/allowed''], lines_text
     [''landlock : PARTIALLY enforced (kernel ABI gap)'', ''PASS     : in-scope read of /allowed/ok.txt allowed'',
      ''PASS     : out-of-scope read of /etc/hostname denied (EACCES)'', ''PASS     : network egress blocked by seccomp'',
      fst (spike_verdict 0)])"
proof -
  obtain ex w' text' where run: "spike_main offline_sys ([], []) = (Ok ex, w', text')" "w' = [''/allowed'']"
    by (simp add: spike_main_def must_def checked_def apply_landlock_def apply_seccomp_def offline_sys_def
        io_bind_def io_lift_def on_world_def put_lines_def put_text_def Let_def)
  from spike_verdict_exact [OF run(1)] obtain s r1 r2 r3 where
    obs: "spike_observed offline_sys s r1 r2 r3 [] w'" "ex = (if spike_passes s r1 r2 r3 then Returned else Exited 1)"
      "text' = lines_text
        [fst (check_status s), fst (check_in_scope r1), fst (check_out_of_scope r2), fst (check_egress r3),
         fst (spike_verdict (spike_failures s r1 r2 r3))]"
    by auto
  from obs(1) have "s = PartiallyEnforced" "r1 = Ok ''in scope''"
      "r2 = Err (PermissionDenied, ''Permission denied (os error 13)'')"
      "r3 = Err ''Network is unreachable (os error 101)''"
    by (auto simp: spike_observed_def apply_landlock_def must_def offline_sys_def io_bind_def io_lift_def on_world_def)
  with run obs(2,3) show ?thesis
    by (simp add: spike_passes_def spike_failures_def check_status_def check_in_scope_def check_out_of_scope_def
        check_egress_def)
qed

end
