(* ===== verification/Test_Support.thy ===== *)
theory Test_Support
  imports Monitor
begin

text \<open>
  What the models of the unit tests share: a test is a boolean, an \<open>unwrap\<close> that fails is a test
  that fails, \<open>matches!\<close> and \<open>unwrap_err\<close> compare errors.  The systems the tests pass on are named
  here: crates that keep their laws and answer, and a file system in which the paths of a test are
  not links.
\<close>

section \<open>Assertions\<close>

text \<open>\<open>unwrap\<close> and \<open>expect\<close>: anything but a value fails the test.\<close>

definition unwrap_then :: "('e, 'a) res \<Rightarrow> ('a \<Rightarrow> bool) \<Rightarrow> bool" where
  "unwrap_then r k = (case r of Ok x \<Rightarrow> k x | _ \<Rightarrow> False)"

definition is_err :: "('e, 'a) res \<Rightarrow> bool" where
  "is_err r = (case r of Err e \<Rightarrow> True | _ \<Rightarrow> False)"

lemma unwrap_then_simps [simp]:
  "unwrap_then (Ok x) k = k x" "\<not> unwrap_then (Err e) k" "\<not> unwrap_then Panic k"
  by (simp_all add: unwrap_then_def)

lemma is_err_simps [simp]: "is_err (Err e)" "\<not> is_err (Ok x)" "\<not> is_err Panic"
  by (simp_all add: is_err_def)

text \<open>\<open>Utc.with_ymd_and_hms(2026, 1, 1, 0, 0, 0)\<close>.\<close>

definition new_year :: datetime where
  "new_year = 1767225600 * 1000000000"

text \<open>The names the property tests generate: \<open>[a-z]{1,12}\<close>.\<close>

definition lower_name :: "nat \<Rightarrow> string \<Rightarrow> bool" where
  "lower_name n s \<longleftrightarrow> s \<noteq> [] \<and> length s \<le> n \<and> list_all (\<lambda>ch. CHR ''a'' \<le> ch \<and> ch \<le> CHR ''z'') s"

lemma lower_name_normal: "lower_name n s \<Longrightarrow> normal_name s"
  by (auto simp: lower_name_def normal_name_def less_eq_char_def list_all_iff)

section \<open>The systems\<close>

text \<open>Beyond the laws: keys can be made, times around the tests are representable.\<close>

definition test_crates ::
    "('kp, 'pk, 'b, 'tok) crates \<Rightarrow> ('b \<Rightarrow> fact set) \<Rightarrow> ('b \<Rightarrow> 'pk) \<Rightarrow> datetime \<Rightarrow> datetime \<Rightarrow> bool" where
  "test_crates c facts root_of lo hi \<longleftrightarrow>
     dependable c facts root_of lo hi \<and> (\<forall>kp nk F. is_ok (biscuit_build c kp nk F))"

lemma test_cratesD:
  assumes "test_crates c facts root_of lo hi"
  shows "biscuit_laws c facts root_of" "uuid_laws c" "chrono_laws c lo hi" "biscuit_available c"
    "is_ok (biscuit_build c kp nk F)" "length (blake3 c bs) = 32" "is_ok (json_to_vec c j)"
  using assms unfolding test_crates_def dependable_def by blast+

text \<open>A file system without symbolic links: the canonical form of a path is the path.\<close>

definition linkless :: "fs_view \<Rightarrow> bool" where
  "linkless fs \<longleftrightarrow>
     (\<forall>p q. fs_canonicalize fs p = Some q \<longrightarrow> \<not> unsafe_path p \<longrightarrow> q = collect_path (components p))"

lemma linkless_resolve:
  assumes "linkless fs" "\<not> unsafe_path p"
  shows "resolve_existing_ancestor fs p = collect_path (components p)"
proof (cases "List.find (fs_exists fs) (ancestors p)")
  case None
  with assms(2) show ?thesis by (simp add: resolve_deepest_ancestor deepest_ancestor_form_def)
next
  case (Some a)
  have p: "plain_components (components p)" using assms(2) by (simp add: unsafe_path_iff)
  have "a \<in> set (ancestors p)" using Some by (metis find_Some_iff nth_mem)
  from ancestors_plain [OF p this] have a: "plain_components (components a)" "prefix (components a) (components p)"
    by auto
  have below: "map Normal (names_below a p) = drop (length (components a)) (components p)"
    by (rule names_below_normal(2) [OF p a(1)])
  have "canonical_form fs a = collect_path (components a)"
    using assms(1) a(1) by (auto simp: canonical_form_def linkless_def unsafe_path_iff split: option.splits)
  moreover have "components p = components a @ map Normal (names_below a p)"
    using a(2) by (auto simp: below prefix_def)
  ultimately show ?thesis
    using Some assms(2)
    by (simp add: resolve_deepest_ancestor deepest_ancestor_form_def collect_path_def comp_def)
qed

lemma safe_push: "\<not> unsafe_path d \<Longrightarrow> normal_name s \<Longrightarrow> \<not> unsafe_path (path_push d s)"
proof -
  assume safe: "\<not> unsafe_path d" and s: "normal_name s"
  then obtain ns where "components d = RootDir # map Normal ns" "list_all normal_name ns"
    by (auto simp: unsafe_path_iff plain_components_def)
  with s have "components (path_push d s) = RootDir # map Normal (ns @ [s])" "list_all normal_name (ns @ [s])"
    by simp_all
  then show ?thesis unfolding unsafe_path_iff plain_components_def by blast
qed

lemma push_slash: "d \<noteq> [] \<Longrightarrow> last d \<noteq> CHR ''/'' \<Longrightarrow> normal_name s \<Longrightarrow> d @ CHR ''/'' # s = path_push d s"
  by (simp add: path_push_def normal_name_not_absolute)

text \<open>Scope is then a question about the components of the path that was asked for.\<close>

lemma linkless_scope:
  assumes "linkless fs"
  shows "path_in_scope fs roots p \<longleftrightarrow> \<not> unsafe_path p \<and> is_under_any_root p roots"
proof -
  have "components (resolve_existing_ancestor fs p) = components p" if "\<not> unsafe_path p"
    using that by (simp add: linkless_resolve [OF assms] components_collect unsafe_path_iff)
  then show ?thesis by (auto simp: path_in_scope_iff is_under_any_root_def path_starts_with_def list_ex_iff)
qed

lemma under_push: "normal_name s \<Longrightarrow> path_starts_with d r \<Longrightarrow> path_starts_with (path_push d s) r"
  by (simp add: path_starts_with_def)

text \<open>Two keys are different, as two fresh ones are but for a negligible chance.\<close>

definition distinct_keys :: "('kp, 'pk, 'b, 'tok) crates \<Rightarrow> 'kp \<Rightarrow> 'kp \<Rightarrow> bool" where
  "distinct_keys c k k' \<longleftrightarrow>
     is_ok (public_key_from_bytes c (public_key_bytes c k'))
   \<and> public_key_from_bytes c (public_key_bytes c k) \<noteq> public_key_from_bytes c (public_key_bytes c k')"

end
