(* ===== verification/Capability_Tests.thy ===== *)
theory Capability_Tests
  imports Test_Support
begin

text \<open>
  The unit tests of \<open>capability/src/lib.rs\<close>, and that they pass: the example tests once, the
  property tests for every name they can generate.  Keys, fresh identifiers and the file system a
  test sees are arguments.
\<close>

section \<open>Fixtures\<close>

definition root_manifest :: task_manifest where
  "root_manifest =
     \<lparr>tm_task_id = 0, repo_root = ''/repo'', tm_ttl_seconds = 60,
      filesystem = \<lparr>fp_readable_roots = [''/repo''], fp_writable_roots = [''/repo/src'']\<rparr>,
      tm_exec = \<lparr>allowed_binaries = [''python'', ''pytest'']\<rparr>, tm_network = DenyAll\<rparr>"

definition test_request :: "string list \<Rightarrow> string list \<Rightarrow> string list \<Rightarrow> u64 \<Rightarrow> attenuation_request" where
  "test_request rs ws bs ttl =
     \<lparr>ar_readable_roots = btree_collect components rs, ar_writable_roots = btree_collect components ws,
      ar_exec_binaries = btree_collect (\<lambda>b. b) bs, ar_network = DenyAll, ar_ttl_seconds = ttl,
      ar_request_binding = None\<rparr>"

section \<open>Example tests\<close>

definition mint_validates_manifest :: "('kp, 'pk, 'b, 'tok) crates \<Rightarrow> fs_view \<Rightarrow> 'kp \<Rightarrow> 'kp \<Rightarrow> bool" where
  "mint_validates_manifest c fs kp nk \<longleftrightarrow>
     mint c fs kp nk (root_manifest\<lparr>tm_ttl_seconds := 0\<rparr>) new_year = Err (InvalidManifest EmptyTtl)"

definition rejects_paths_with_parent_components ::
    "('kp, 'pk, 'b, 'tok) crates \<Rightarrow> fs_view \<Rightarrow> 'kp \<Rightarrow> 'kp \<Rightarrow> 'kp \<Rightarrow> bool" where
  "rejects_paths_with_parent_components c fs kp nk k \<longleftrightarrow>
     unwrap_then (mint c fs kp nk root_manifest new_year) (\<lambda>root.
       \<not> allows_read fs (root_permissions root) ''/repo/../secret''
     \<and> root_attenuate c fs k root (test_request [''/repo/../secret''] [] [] 1) new_year = Err ReadScopeWidened)"

definition accepts_trailing_slash_root_variants ::
    "('kp, 'pk, 'b, 'tok) crates \<Rightarrow> fs_view \<Rightarrow> 'kp \<Rightarrow> 'kp \<Rightarrow> 'kp \<Rightarrow> bool" where
  "accepts_trailing_slash_root_variants c fs kp nk k \<longleftrightarrow>
     unwrap_then (mint c fs kp nk root_manifest new_year) (\<lambda>root.
       is_ok (root_attenuate c fs k root (test_request [''/repo/''] [] [] 1) new_year))"

definition rejects_write_scope_widening ::
    "('kp, 'pk, 'b, 'tok) crates \<Rightarrow> fs_view \<Rightarrow> 'kp \<Rightarrow> 'kp \<Rightarrow> 'kp \<Rightarrow> bool" where
  "rejects_write_scope_widening c fs kp nk k \<longleftrightarrow>
     unwrap_then (mint c fs kp nk root_manifest new_year) (\<lambda>root.
       root_attenuate c fs k root (test_request [] [''/repo''] [] 1) new_year = Err WriteScopeWidened)"

definition accepts_write_scope_narrowing ::
    "('kp, 'pk, 'b, 'tok) crates \<Rightarrow> fs_view \<Rightarrow> 'kp \<Rightarrow> 'kp \<Rightarrow> 'kp \<Rightarrow> bool" where
  "accepts_write_scope_narrowing c fs kp nk k \<longleftrightarrow>
     unwrap_then (mint c fs kp nk root_manifest new_year) (\<lambda>root.
       is_ok (root_attenuate c fs k root (test_request [] [''/repo/src/module''] [] 1) new_year))"

definition rejects_exec_scope_widening ::
    "('kp, 'pk, 'b, 'tok) crates \<Rightarrow> fs_view \<Rightarrow> 'kp \<Rightarrow> 'kp \<Rightarrow> 'kp \<Rightarrow> bool" where
  "rejects_exec_scope_widening c fs kp nk k \<longleftrightarrow>
     unwrap_then (mint c fs kp nk root_manifest new_year) (\<lambda>root.
       root_attenuate c fs k root (test_request [] [] [''curl''] 1) new_year = Err ExecScopeWidened)"

definition rejects_ttl_widening_and_overflow ::
    "('kp, 'pk, 'b, 'tok) crates \<Rightarrow> fs_view \<Rightarrow> 'kp \<Rightarrow> 'kp \<Rightarrow> 'kp \<Rightarrow> 'kp \<Rightarrow> bool" where
  "rejects_ttl_widening_and_overflow c fs kp nk k k' \<longleftrightarrow>
     unwrap_then (mint c fs kp nk root_manifest new_year) (\<lambda>root.
       root_attenuate c fs k root (test_request [] [] [] 61) new_year = Err TtlWidened
     \<and> root_attenuate c fs k' root (test_request [] [] [] 18446744073709551615) new_year = Err TtlOverflow)"

definition chained_child_attenuation_remains_monotonic ::
    "('kp, 'pk, 'b, 'tok) crates \<Rightarrow> fs_view \<Rightarrow> 'kp \<Rightarrow> 'kp \<Rightarrow> 'kp \<Rightarrow> 'kp \<Rightarrow> 'kp \<Rightarrow> bool" where
  "chained_child_attenuation_remains_monotonic c fs kp nk k k1 k2 \<longleftrightarrow>
     unwrap_then (mint c fs kp nk root_manifest new_year) (\<lambda>root.
     unwrap_then (root_attenuate c fs k root (test_request [''/repo/pkg''] [] [] 30) new_year) (\<lambda>child.
       is_ok (child_attenuate c fs k1 child (test_request [''/repo/pkg/src''] [] [] 10) new_year)
     \<and> child_attenuate c fs k2 child (test_request [''/repo''] [] [] 10) new_year = Err ReadScopeWidened))"

text \<open>The bytes \<open>{"path":"/repo/src/lib.rs"}\<close>.\<close>

definition lib_rs_arguments :: bytes where
  "lib_rs_arguments = as_bytes
     (''{'' @ [CHR 0x22] @ ''path'' @ [CHR 0x22] @ '':'' @ [CHR 0x22] @ ''/repo/src/lib.rs'' @ [CHR 0x22] @ ''}'')"

definition hash_tool_arguments_is_deterministic_and_nonce_bound ::
    "('kp, 'pk, 'b, 'tok) crates \<Rightarrow> uuid \<Rightarrow> bool" where
  "hash_tool_arguments_is_deterministic_and_nonce_bound c new_v4 \<longleftrightarrow>
     (let first = hash_tool_arguments c ''fs_read'' lib_rs_arguments 0;
          second = hash_tool_arguments c ''fs_read'' lib_rs_arguments 0;
          different_nonce = hash_tool_arguments c ''fs_read'' lib_rs_arguments new_v4
      in first = second \<and> first \<noteq> different_nonce)"

text \<open>The file system holds the directories \<open>repo\<close> and \<open>outside\<close> of \<open>temp\<close> and the link between them.\<close>

definition link_manifest :: "path \<Rightarrow> task_manifest" where
  "link_manifest repo =
     \<lparr>tm_task_id = 0, repo_root = repo, tm_ttl_seconds = 60,
      filesystem = \<lparr>fp_readable_roots = [repo], fp_writable_roots = [repo]\<rparr>,
      tm_exec = \<lparr>allowed_binaries = []\<rparr>, tm_network = DenyAll\<rparr>"

definition rejects_symlink_escape_under_allowed_root ::
    "('kp, 'pk, 'b, 'tok) crates \<Rightarrow> fs_view \<Rightarrow> path \<Rightarrow> 'kp \<Rightarrow> 'kp \<Rightarrow> bool" where
  "rejects_symlink_escape_under_allowed_root c fs temp kp nk \<longleftrightarrow>
     (let repo = path_push temp ''repo''; link = path_push repo ''link'' in
      unwrap_then (mint c fs kp nk (link_manifest repo) new_year) (\<lambda>root.
        \<not> allows_read fs (root_permissions root) (path_push link ''secret.txt'')
      \<and> \<not> allows_write fs (root_permissions root) (path_push link ''secret.txt'')))"

definition root_token_decodes_to_minted_state ::
    "('kp, 'pk, 'b, 'tok) crates \<Rightarrow> fs_view \<Rightarrow> 'kp \<Rightarrow> 'kp \<Rightarrow> bool" where
  "root_token_decodes_to_minted_state c fs kp nk \<longleftrightarrow>
     unwrap_then (mint c fs kp nk root_manifest new_year) (\<lambda>root.
     unwrap_then (parse_public_key c (root_root_public_key root)) (\<lambda>public_key.
     unwrap_then (decode_state c (root_token root) public_key) (\<lambda>decoded.
       ds_task_id decoded = tm_task_id root_manifest \<and> ds_block_id decoded = 0
     \<and> permissions_eq (ds_permissions decoded) (root_permissions root)
     \<and> ds_expires_at decoded = new_year + 60 * 1000000000 \<and> ds_request_binding decoded = None)))"

definition attenuated_token_decodes_to_latest_block_state ::
    "('kp, 'pk, 'b, 'tok) crates \<Rightarrow> fs_view \<Rightarrow> 'kp \<Rightarrow> 'kp \<Rightarrow> 'kp \<Rightarrow> bool" where
  "attenuated_token_decodes_to_latest_block_state c fs kp nk k \<longleftrightarrow>
     unwrap_then (mint c fs kp nk root_manifest new_year) (\<lambda>root.
     let argument_hash = hash_tool_arguments c ''fs_read'' (as_bytes ''args'') 0;
         request = (test_request [''/repo/pkg''] [] [''python''] 30)\<lparr>ar_request_binding :=
           Some \<lparr>tool_name = ''fs_read'', argument_hash = argument_hash, nonce = 0\<rparr>\<rparr> in
     unwrap_then (root_attenuate c fs k root request new_year) (\<lambda>child.
     unwrap_then (parse_public_key c (child_root_public_key child)) (\<lambda>public_key.
     unwrap_then (decode_state c (child_token child) public_key) (\<lambda>decoded.
       ds_block_id decoded = 1
     \<and> permissions_eq (ds_permissions decoded) (child_permissions child)
     \<and> ds_expires_at decoded = new_year + 30 * 1000000000
     \<and> (case ds_request_binding decoded of
          None \<Rightarrow> False
        | Some b \<Rightarrow> tool_name b = ''fs_read'' \<and> request_binding.argument_hash b = argument_hash \<and> nonce b = 0)))))"

definition token_rejects_wrong_root_public_key ::
    "('kp, 'pk, 'b, 'tok) crates \<Rightarrow> fs_view \<Rightarrow> 'kp \<Rightarrow> 'kp \<Rightarrow> 'kp \<Rightarrow> bool" where
  "token_rejects_wrong_root_public_key c fs kp nk other_keypair \<longleftrightarrow>
     unwrap_then (mint c fs kp nk root_manifest new_year) (\<lambda>root.
     unwrap_then (public_key_from_bytes c (public_key_bytes c other_keypair)) (\<lambda>other_public_key.
       is_err (verify_signature c (root_token root) other_public_key)))"

section \<open>Property tests\<close>

definition attenuation_rejects_read_scope_widening ::
    "('kp, 'pk, 'b, 'tok) crates \<Rightarrow> fs_view \<Rightarrow> 'kp \<Rightarrow> 'kp \<Rightarrow> 'kp \<Rightarrow> string \<Rightarrow> bool" where
  "attenuation_rejects_read_scope_widening c fs kp nk k path_suffix \<longleftrightarrow>
     unwrap_then (mint c fs kp nk root_manifest new_year) (\<lambda>root.
       root_attenuate c fs k root (test_request [''/outside/'' @ path_suffix] [] [] 1) new_year
         = Err ReadScopeWidened)"

definition attenuation_accepts_read_scope_narrowing ::
    "('kp, 'pk, 'b, 'tok) crates \<Rightarrow> fs_view \<Rightarrow> 'kp \<Rightarrow> 'kp \<Rightarrow> 'kp \<Rightarrow> string \<Rightarrow> bool" where
  "attenuation_accepts_read_scope_narrowing c fs kp nk k path_suffix \<longleftrightarrow>
     unwrap_then (mint c fs kp nk root_manifest new_year) (\<lambda>root.
       is_ok (root_attenuate c fs k root (test_request [''/repo/'' @ path_suffix] [] [] 1) new_year))"

section \<open>They pass\<close>

definition test_permissions :: permission_set where
  "test_permissions =
     \<lparr>readable_roots = [''/repo''], writable_roots = [''/repo/src''], exec_binaries = [''pytest'', ''python''],
      network = DenyAll\<rparr>"

lemma test_paths:
  "\<not> unsafe_path ''/repo''" "\<not> unsafe_path ''/repo/src''" "\<not> unsafe_path ''/repo/''"
  "\<not> unsafe_path ''/repo/src/module''" "\<not> unsafe_path ''/repo/pkg''" "\<not> unsafe_path ''/repo/pkg/src''"
  "unsafe_path ''/repo/../secret''" "\<not> unsafe_path ''/outside''"
  "path_starts_with ''/repo'' ''/repo''" "path_starts_with ''/repo/'' ''/repo''"
  "path_starts_with ''/repo/pkg'' ''/repo''" "path_starts_with ''/repo/pkg/src'' ''/repo/pkg''"
  "path_starts_with ''/repo/src/module'' ''/repo/src''"
  "\<not> path_starts_with ''/repo'' ''/repo/src''" "\<not> path_starts_with ''/repo'' ''/repo/pkg''"
  "collect_path (components ''/repo'') = ''/repo''" "collect_path (components ''/repo/src'') = ''/repo/src''"
  "collect_path (components ''/repo/pkg'') = ''/repo/pkg''"
  by code_simp+

lemma btree_collect_single [simp]: "btree_collect k [x] = [x]" "btree_collect k [] = []"
  by (simp_all add: btree_collect_def)

lemma root_manifest_task [simp]: "tm_task_id root_manifest = 0"
  by (simp add: root_manifest_def)

text \<open>A system the tests pass on.\<close>

definition test_system ::
    "('kp, 'pk, 'b, 'tok) crates \<Rightarrow> ('b \<Rightarrow> fact set) \<Rightarrow> ('b \<Rightarrow> 'pk) \<Rightarrow> datetime \<Rightarrow> datetime \<Rightarrow> fs_view \<Rightarrow> bool" where
  "test_system c facts root_of lo hi fs \<longleftrightarrow>
     test_crates c facts root_of lo hi \<and> linkless fs \<and> lo \<le> new_year \<and> new_year + 61000000000 \<le> hi"

lemma expires_in:
  assumes "chrono_laws c lo hi" "lo \<le> now" "now + int (unat ttl) * 1000000000 \<le> hi" "unat ttl \<le> 1000000"
  shows "checked_expires_at c now ttl = Ok (now + int (unat ttl) * 1000000000)"
proof -
  from assms(4) have "0 \<le> int (unat ttl)" "int (unat ttl) \<le> 1000000" by linarith+
  with assms(2,3) show ?thesis
    by (simp add: checked_expires_at_cases [OF assms(1)] max_delta_seconds_def Let_def del: int_nat_eq of_nat_unat)
qed

lemma expires_after:
  assumes "chrono_laws c lo hi" "lo \<le> now" "now + 61000000000 \<le> hi" "unat ttl \<le> 61"
  shows "checked_expires_at c now ttl = Ok (now + int (unat ttl) * 1000000000)"
proof -
  from assms(4) have "int (unat ttl) * 1000000000 \<le> 61000000000" by linarith
  with assms(2-4) show ?thesis by (intro expires_in [OF assms(1)]) linarith+
qed

lemma root_minted:
  assumes "test_crates c facts root_of lo hi" "linkless fs" "lo \<le> now" "now + 61000000000 \<le> hi"
  shows "\<exists>root. mint c fs kp nk root_manifest now = Ok root \<and> root_permissions root = test_permissions
    \<and> root_expires_at root = now + 60000000000 \<and> root_task_id root = 0"
proof -
  note laws = test_cratesD [OF assms(1)]
  have v: "validate root_manifest = Ok ()" by code_simp
  have "btree_collect (\<lambda>s. s) [''python'', ''pytest''] = [''pytest'', ''python'']" by code_simp
  then have P: "from_manifest fs root_manifest = Ok test_permissions"
    using test_paths linkless_resolve [OF assms(2)]
    by (simp add: from_manifest_def root_manifest_def test_permissions_def checked_paths_safe)
  have e: "checked_expires_at c now (tm_ttl_seconds root_manifest) = Ok (now + 60000000000)"
    using expires_after [OF laws(3) assms(3,4), of 60] by (simp add: root_manifest_def)
  from mint_available [OF laws(1,2,4,5) v e P, of kp nk] show ?thesis by (simp add: root_manifest_def)
qed

lemma child_attenuate_available:
  assumes laws: "biscuit_laws c facts root_of" "uuid_laws c" and avail: "biscuit_available c"
    and minted: "mint c fs0 kp nk m t0 = Ok root" and desc: "descends c root ch"
    and valid: "validate_attenuation c fs (child_permissions ch) (child_expires_at ch) r now = Ok ()"
  shows "is_ok (child_attenuate c fs k ch r now)"
proof -
  obtain b where b: "biscuit_to_vec c b = Ok (child_token ch)"
      "public_key_from_bytes c (child_root_public_key ch) = Ok (root_of b)"
    using descends_holds [OF laws minted desc] by (auto simp: token_holds_def)
  from attenuated_state_validated [OF valid] obtain e where
    e: "attenuated_state c fs r now = Ok (e, requested_permissions fs r)" by blast
  have "biscuit_from c (child_token ch) (root_of b) = Ok b"
    by (simp add: biscuit_laws_from(1) [OF laws(1) b(1)])
  then have "is_ok (append_block c k (child_token ch) (root_of b) (int (length (child_caveats ch)) + 1)
      (requested_permissions fs r) e (ar_request_binding r))"
    using avail
    by (simp add: append_block_def parse_state_facts [OF laws] biscuit_available_def is_ok_iff)
      (metis res_bind.simps(1) res_map_err.simps(1))
  with valid e b(2) show ?thesis
    by (auto simp: child_attenuate_def parse_public_key_def is_ok_iff)
qed

lemma test_systemD:
  assumes "test_system c facts root_of lo hi fs"
  shows "test_crates c facts root_of lo hi" "linkless fs" "lo \<le> new_year" "new_year + 61000000000 \<le> hi"
  using assms by (simp_all add: test_system_def)

lemma test_root:
  assumes "test_system c facts root_of lo hi fs"
  obtains root where "mint c fs kp nk root_manifest new_year = Ok root" "root_permissions root = test_permissions"
    "root_expires_at root = new_year + 60000000000" "root_task_id root = 0"
  using root_minted [OF test_systemD [OF assms]] by blast

lemma test_scope:
  "linkless fs \<Longrightarrow> contains_all_roots fs test_permissions ps w \<longleftrightarrow>
    (\<forall>p \<in> set ps. \<not> unsafe_path p \<and> path_starts_with p (if w then ''/repo/src'' else ''/repo''))"
  by (auto simp: contains_all_roots_iff linkless_scope is_under_any_root_def test_permissions_def)

lemma test_request_sel [simp]:
  "ar_readable_roots (test_request [p] ws bs ttl) = [p]" "ar_readable_roots (test_request [] ws bs ttl) = []"
  "ar_writable_roots (test_request rs [p] bs ttl) = [p]" "ar_writable_roots (test_request rs [] bs ttl) = []"
  "ar_exec_binaries (test_request rs ws [b] ttl) = [b]" "ar_exec_binaries (test_request rs ws [] ttl) = []"
  "ar_ttl_seconds (test_request rs ws bs ttl) = ttl" "ar_request_binding (test_request rs ws bs ttl) = None"
  "ar_network (test_request rs ws bs ttl) = DenyAll"
  by (simp_all add: test_request_def)

text \<open>A request within the root is granted.\<close>

lemma test_granted:
  assumes sys: "test_system c facts root_of lo hi fs" and root: "mint c fs kp nk root_manifest new_year = Ok root"
      "root_permissions root = test_permissions" "root_expires_at root = new_year + 60000000000"
    and r: "request_within fs r test_permissions" "unat (ar_ttl_seconds r) \<le> 60"
  obtains ch where "root_attenuate c fs k root r new_year = Ok ch"
    "child_permissions ch = requested_permissions fs r"
    "child_expires_at ch = new_year + int (unat (ar_ttl_seconds r)) * 1000000000"
    "child_caveats ch = [\<lparr>cv_permissions = requested_permissions fs r,
        cv_expires_at = new_year + int (unat (ar_ttl_seconds r)) * 1000000000,
        cv_request_binding = ar_request_binding r\<rparr>]"
proof -
  note laws = test_cratesD [OF test_systemD(1) [OF sys]]
  have e: "checked_expires_at c new_year (ar_ttl_seconds r) = Ok (new_year + int (unat (ar_ttl_seconds r)) * 1000000000)"
    using expires_after [OF laws(3) test_systemD(3,4) [OF sys]] r(2) by simp
  from r(2) have "int (unat (ar_ttl_seconds r)) \<le> 60" by linarith
  then have "validate_attenuation c fs (root_permissions root) (root_expires_at root) r new_year = Ok ()"
    using e r(1) root(2,3) by (simp add: validate_attenuation_Ok_iff del: int_nat_eq of_nat_unat)
  from attenuate_available [OF laws(1,2,4) root(1) this] obtain ch where
    ch: "root_attenuate c fs k root r new_year = Ok ch" by blast
  from root_att.attenuate_Ok [OF ch] e ch that show thesis by simp
qed

lemma example_tests_pass:
  assumes sys: "test_system c facts root_of lo hi fs"
  shows "mint_validates_manifest c fs kp nk"
    and "rejects_paths_with_parent_components c fs kp nk k"
    and "accepts_trailing_slash_root_variants c fs kp nk k"
    and "rejects_write_scope_widening c fs kp nk k"
    and "accepts_write_scope_narrowing c fs kp nk k"
    and "rejects_exec_scope_widening c fs kp nk k"
proof -
  note links = test_systemD(2) [OF sys]
  obtain root where root: "mint c fs kp nk root_manifest new_year = Ok root" "root_permissions root = test_permissions"
      "root_expires_at root = new_year + 60000000000"
    by (rule test_root [OF sys])
  note scope = test_scope [OF links] and granted = test_granted [OF sys root]
  show "mint_validates_manifest c fs kp nk"
    by (simp add: mint_validates_manifest_def mint_def validate_def)
  have "\<not> allows_read fs test_permissions ''/repo/../secret''"
    using test_paths(7) by (simp add: allows_read_def path_in_scope_iff)
  moreover have "root_attenuate c fs k root (test_request [''/repo/../secret''] [] [] 1) new_year = Err ReadScopeWidened"
    using test_paths(7) by (intro root_att.attenuate_refuses_read) (simp add: root(2) scope)
  ultimately show "rejects_paths_with_parent_components c fs kp nk k"
    by (simp add: rejects_paths_with_parent_components_def root)
  have "request_within fs (test_request [''/repo/''] [] [] 1) test_permissions"
    using test_paths by (simp add: request_within_def scope contains_all_exec_iff)
  from granted [OF this] show "accepts_trailing_slash_root_variants c fs kp nk k"
    by (simp add: accepts_trailing_slash_root_variants_def root) (metis is_ok.simps(1))
  have "root_attenuate c fs k root (test_request [] [''/repo''] [] 1) new_year = Err WriteScopeWidened"
    using test_paths by (intro root_att.attenuate_refuses_write) (simp_all add: root(2) scope)
  then show "rejects_write_scope_widening c fs kp nk k"
    by (simp add: rejects_write_scope_widening_def root)
  have "request_within fs (test_request [] [''/repo/src/module''] [] 1) test_permissions"
    using test_paths by (simp add: request_within_def scope contains_all_exec_iff)
  from granted [OF this] show "accepts_write_scope_narrowing c fs kp nk k"
    by (simp add: accepts_write_scope_narrowing_def root) (metis is_ok.simps(1))
  have "root_attenuate c fs k root (test_request [] [] [''curl''] 1) new_year = Err ExecScopeWidened"
    by (intro root_att.attenuate_refuses_exec)
      (simp_all add: root(2) scope contains_all_exec_iff test_permissions_def contains_all_roots_iff)
  then show "rejects_exec_scope_widening c fs kp nk k"
    by (simp add: rejects_exec_scope_widening_def root)
qed

lemma duration_tests_pass:
  assumes sys: "test_system c facts root_of lo hi fs"
  shows "rejects_ttl_widening_and_overflow c fs kp nk k k'"
proof -
  note links = test_systemD(2) [OF sys] and laws = test_cratesD [OF test_systemD(1) [OF sys]]
  obtain root where root: "mint c fs kp nk root_manifest new_year = Ok root" "root_permissions root = test_permissions"
      "root_expires_at root = new_year + 60000000000"
    by (rule test_root [OF sys])
  have within: "request_within fs (test_request [] [] [] ttl) (root_permissions root)" for ttl
    by (simp add: request_within_def root(2) test_scope [OF links] contains_all_exec_iff)
  have "checked_expires_at c new_year 61 = Ok (new_year + 61000000000)"
    using expires_after [OF laws(3) test_systemD(3,4) [OF sys], of 61] by simp
  then have "root_attenuate c fs k root (test_request [] [] [] 61) new_year = Err TtlWidened"
    using root_att.attenuate_expiry [OF within [of 61], where now = new_year and c = c] root(3) by simp
  moreover have "checked_expires_at c new_year 18446744073709551615 = Err TtlOverflow"
    by (simp add: checked_expires_at_def)
  then have "root_attenuate c fs k' root (test_request [] [] [] 18446744073709551615) new_year = Err TtlOverflow"
    using root_att.attenuate_expiry [OF within [of 18446744073709551615], where now = new_year and c = c] by simp
  ultimately show ?thesis by (simp add: rejects_ttl_widening_and_overflow_def root)
qed

lemma chained_test_passes:
  assumes sys: "test_system c facts root_of lo hi fs"
  shows "chained_child_attenuation_remains_monotonic c fs kp nk k k1 k2"
proof -
  note links = test_systemD(2) [OF sys] and laws = test_cratesD [OF test_systemD(1) [OF sys]]
  obtain root where root: "mint c fs kp nk root_manifest new_year = Ok root" "root_permissions root = test_permissions"
      "root_expires_at root = new_year + 60000000000"
    by (rule test_root [OF sys])
  have "request_within fs (test_request [''/repo/pkg''] [] [] 30) test_permissions"
    using test_paths by (simp add: request_within_def test_scope [OF links] contains_all_exec_iff)
  from test_granted [OF sys root this] obtain ch where
    ch: "root_attenuate c fs k root (test_request [''/repo/pkg''] [] [] 30) new_year = Ok ch"
      "child_permissions ch = requested_permissions fs (test_request [''/repo/pkg''] [] [] 30)"
      "child_expires_at ch = new_year + 30000000000"
    by auto
  have roots: "readable_roots (child_permissions ch) = [''/repo/pkg'']" "writable_roots (child_permissions ch) = []"
    using test_paths linkless_resolve [OF links] by (simp_all add: ch(2) requested_permissions_def)
  have "request_within fs (test_request [''/repo/pkg/src''] [] [] 10) (child_permissions ch)"
    using test_paths
    by (simp add: request_within_def contains_all_roots_iff roots linkless_scope [OF links]
        is_under_any_root_def contains_all_exec_iff)
  moreover have "checked_expires_at c new_year 10 = Ok (new_year + 10000000000)"
    using expires_after [OF laws(3) test_systemD(3,4) [OF sys], of 10] by simp
  ultimately have "validate_attenuation c fs (child_permissions ch) (child_expires_at ch)
      (test_request [''/repo/pkg/src''] [] [] 10) new_year = Ok ()"
    by (simp add: validate_attenuation_Ok_iff ch(3))
  from child_attenuate_available [OF laws(1,2,4) root(1) descends.first [OF ch(1)] this]
  have "is_ok (child_attenuate c fs k1 ch (test_request [''/repo/pkg/src''] [] [] 10) new_year)" .
  moreover have "child_attenuate c fs k2 ch (test_request [''/repo''] [] [] 10) new_year = Err ReadScopeWidened"
    using test_paths
    by (intro child_att.attenuate_refuses_read)
      (simp add: contains_all_roots_iff roots linkless_scope [OF links] is_under_any_root_def)
  ultimately show ?thesis by (simp add: chained_child_attenuation_remains_monotonic_def root ch(1))
qed

text \<open>The hash of the test separates two identifiers if the hash function does.\<close>

lemma hash_test_passes:
  assumes "blake3 c (hash_input c ''fs_read'' lib_rs_arguments 0) \<noteq> blake3 c (hash_input c ''fs_read'' lib_rs_arguments n)"
  shows "hash_tool_arguments_is_deterministic_and_nonce_bound c n"
  using assms by (simp add: hash_tool_arguments_is_deterministic_and_nonce_bound_def hash_tool_arguments_def Let_def)

text \<open>
  The file system the test of links sets up below the directory \<open>temp\<close>, whose canonical form is
  \<open>real\<close>: \<open>repo\<close> is a directory, \<open>repo/link\<close> a link to the directory \<open>outside\<close>, and there is no
  \<open>secret.txt\<close>.  Paths with the same components are the same file.
\<close>

definition link_fixture :: "fs_view \<Rightarrow> path \<Rightarrow> path \<Rightarrow> bool" where
  "link_fixture fs temp real \<longleftrightarrow>
     \<not> unsafe_path temp \<and> \<not> unsafe_path real
   \<and> (\<forall>p. components p = components temp @ [Normal ''repo''] \<longrightarrow>
        fs_exists fs p \<and> fs_canonicalize fs p = Some (path_push real ''repo''))
   \<and> (\<forall>p. components p = components temp @ [Normal ''repo'', Normal ''link''] \<longrightarrow>
        fs_exists fs p \<and> fs_canonicalize fs p = Some (path_push real ''outside''))
   \<and> (\<forall>p. components p = components temp @ [Normal ''repo'', Normal ''link'', Normal ''secret.txt''] \<longrightarrow>
        \<not> fs_exists fs p)"

lemma test_names: "normal_name ''repo''" "normal_name ''link''" "normal_name ''secret.txt''" "normal_name ''outside''"
  by (simp_all add: normal_name_def)

lemma link_resolves:
  assumes "link_fixture fs temp real"
  defines "secret \<equiv> path_push (path_push (path_push temp ''repo'') ''link'') ''secret.txt''"
  shows "components (resolve_existing_ancestor fs secret) = components real @ [Normal ''outside'', Normal ''secret.txt'']"
proof -
  have comps: "components secret = components temp @ [Normal ''repo'', Normal ''link'', Normal ''secret.txt'']"
    by (simp add: secret_def test_names)
  have safe: "\<not> unsafe_path secret"
    using assms(1) by (simp add: secret_def link_fixture_def safe_push test_names)
  then have abs: "is_absolute secret" by (simp add: unsafe_path_def)
  have "components secret \<noteq> [RootDir]"
    using comps by (metis append_is_Nil_conv last_ConsL last_appendR last_ConsR list.distinct(1) component.distinct(5))
  then obtain q where q: "path_parent secret = Some q"
    using components_parent(2) [OF abs] by (cases "path_parent secret") auto
  then have cq: "components q = components temp @ [Normal ''repo'', Normal ''link'']"
    using components_parent(1) [OF abs q] comps by (simp add: butlast_append)
  have "\<not> fs_exists fs secret" "fs_exists fs q" "fs_canonicalize fs q = Some (path_push real ''outside'')"
    using assms(1) comps cq by (simp_all add: link_fixture_def)
  moreover from this have "List.find (fs_exists fs) (ancestors secret) = Some q"
    by (simp add: ancestors.simps [of secret] q ancestors.simps [of q])
  ultimately show ?thesis
    using resolve_components [OF safe] comps cq by (simp add: canonical_form_def test_names)
qed

lemma symlink_test_passes:
  assumes sys: "test_crates c facts root_of lo hi" "lo \<le> new_year" "new_year + 61000000000 \<le> hi"
    and links: "link_fixture fs temp real"
  shows "rejects_symlink_escape_under_allowed_root c fs temp kp nk"
proof -
  note laws = test_cratesD [OF sys(1)]
  let ?repo = "path_push temp ''repo''" and ?root = "path_push real ''repo''"
  let ?secret = "path_push (path_push ?repo ''link'') ''secret.txt''"
  have safe: "\<not> unsafe_path ?repo" using links by (simp add: link_fixture_def safe_push test_names)
  have "resolve_existing_ancestor fs ?repo = ?root"
    using links by (intro resolve_canonical) (simp_all add: link_fixture_def test_names)
  then have P: "from_manifest fs (link_manifest ?repo) = Ok \<lparr>readable_roots = [?root], writable_roots = [?root],
      exec_binaries = [], network = DenyAll\<rparr>"
    using safe by (simp add: from_manifest_def link_manifest_def checked_paths_safe)
  have "checked_expires_at c new_year (tm_ttl_seconds (link_manifest ?repo)) = Ok (new_year + 60000000000)"
    using expires_after [OF laws(3) sys(2,3), of 60] by (simp add: link_manifest_def)
  moreover have "validate (link_manifest ?repo) = Ok ()"
    using safe by (simp add: validate_Ok_iff link_manifest_def path_eq_def)
  ultimately obtain root where root: "mint c fs kp nk (link_manifest ?repo) new_year = Ok root"
      "root_permissions root = \<lparr>readable_roots = [?root], writable_roots = [?root], exec_binaries = [], network = DenyAll\<rparr>"
    using mint_available [OF laws(1,2,4,5) _ _ P] by blast
  have "\<not> path_in_scope fs [?root] ?secret"
    using link_resolves [OF links]
    by (simp add: path_in_scope_iff is_under_any_root_def path_starts_with_def test_names)
  then show ?thesis
    by (simp add: rejects_symlink_escape_under_allowed_root_def root allows_read_def allows_write_def)
qed

text \<open>A token that holds a chain decodes to its last caveat, under its key and under no other.\<close>

lemma decode_token_holds:
  assumes laws: "biscuit_laws c facts root_of" "uuid_laws c" and avail: "biscuit_available c"
    and holds: "token_holds c facts root_of tok key u (cvs @ [s])" and enc: "encodable c s"
  obtains pk d where "parse_public_key c key = Ok pk" "decode_state c tok pk = Ok d" "ds_task_id d = u"
    "permissions_eq (ds_permissions d) (cv_permissions s)" "ds_expires_at d = cv_expires_at s"
    "ds_request_binding d = cv_request_binding s" "ds_block_id d = int (length cvs)"
proof -
  obtain b where b: "biscuit_to_vec c b = Ok tok" "facts b = token_facts c u (cvs @ [s])"
      "public_key_from_bytes c key = Ok (root_of b)"
    using holds by (auto simp: token_holds_def)
  then have opened: "biscuit_from c tok (root_of b) = Ok b" by (simp add: biscuit_laws_from(1) [OF laws(1)])
  then have "biscuit_answers c b" using avail by (auto simp: biscuit_available_def token_answers_def)
  from decode_state_chain [OF laws opened this b(2) enc] b(3) that show thesis by auto
qed

lemma test_permissions_ok: "permissions_ok test_permissions"
  by (simp add: permissions_ok_def test_permissions_def btree_ok_def)

lemma test_encodable:
  assumes "test_crates c facts root_of lo hi" "0 \<le> t" "t < 253402300800 * 1000000000"
    and "permissions_ok P" "set (readable_roots P) \<union> set (writable_roots P) \<subseteq> {''/repo'', ''/repo/src'', ''/repo/pkg''}"
    and "case b of None \<Rightarrow> True | Some rb \<Rightarrow> length (argument_hash rb) = 32"
  shows "encodable c \<lparr>cv_permissions = P, cv_expires_at = t, cv_request_binding = b\<rparr>"
proof -
  have "utf8_valid ''/repo''" "utf8_valid ''/repo/src''" "utf8_valid ''/repo/pkg''" by code_simp+
  with assms chrono_lawsD(3) [OF test_cratesD(3) [OF assms(1)]] show ?thesis
    by (fastforce simp: encodable_def)
qed

lemma minted_state_test_passes:
  assumes sys: "test_system c facts root_of lo hi fs"
  shows "root_token_decodes_to_minted_state c fs kp nk"
proof -
  note laws = test_cratesD [OF test_systemD(1) [OF sys]]
  obtain root where root: "mint c fs kp nk root_manifest new_year = Ok root" "root_permissions root = test_permissions"
      "root_expires_at root = new_year + 60000000000" "root_task_id root = 0"
    by (rule test_root [OF sys])
  have holds: "token_holds c facts root_of (root_token root) (root_root_public_key root) 0 ([] @ [root_caveat root])"
    using mint_holds [OF laws(1,2) root(1)] root(4) by simp
  have "encodable c (root_caveat root)"
    unfolding root_caveat_def root(2,3)
    by (rule test_encodable [OF test_systemD(1) [OF sys]])
      (simp_all add: test_permissions_ok, simp_all add: new_year_def test_permissions_def)
  from decode_token_holds [OF laws(1,2,4) holds this] obtain pk d where
    "parse_public_key c (root_root_public_key root) = Ok pk" "decode_state c (root_token root) pk = Ok d"
    "ds_task_id d = 0" "permissions_eq (ds_permissions d) test_permissions"
    "ds_expires_at d = new_year + 60000000000" "ds_request_binding d = None" "ds_block_id d = 0"
    by (auto simp: root_caveat_def root(2,3))
  then show "root_token_decodes_to_minted_state c fs kp nk"
    by (simp add: root_token_decodes_to_minted_state_def root parse_public_key_def)
qed

lemma latest_block_test_passes:
  assumes sys: "test_system c facts root_of lo hi fs"
  shows "attenuated_token_decodes_to_latest_block_state c fs kp nk k"
proof -
  note links = test_systemD(2) [OF sys] and laws = test_cratesD [OF test_systemD(1) [OF sys]]
  obtain root where root: "mint c fs kp nk root_manifest new_year = Ok root" "root_permissions root = test_permissions"
      "root_expires_at root = new_year + 60000000000"
    by (rule test_root [OF sys])
  let ?h = "hash_tool_arguments c ''fs_read'' (as_bytes ''args'') 0"
  let ?b = "\<lparr>tool_name = ''fs_read'', argument_hash = ?h, nonce = 0\<rparr>"
  let ?r = "(test_request [''/repo/pkg''] [] [''python''] 30)\<lparr>ar_request_binding := Some ?b\<rparr>"
  have "request_within fs ?r test_permissions"
    using test_paths
    by (simp add: request_within_def test_scope [OF links] contains_all_exec_iff) (simp add: test_permissions_def)
  from test_granted [OF sys root this] obtain ch where
    ch: "root_attenuate c fs k root ?r new_year = Ok ch"
      "child_permissions ch = requested_permissions fs ?r"
      "child_caveats ch = [\<lparr>cv_permissions = requested_permissions fs ?r, cv_expires_at = new_year + 30000000000,
        cv_request_binding = Some ?b\<rparr>]"
    by auto
  have P: "requested_permissions fs ?r =
      \<lparr>readable_roots = [''/repo/pkg''], writable_roots = [], exec_binaries = [''python''], network = DenyAll\<rparr>"
    using test_paths linkless_resolve [OF links] by (simp add: requested_permissions_def)
  from descends_holds [OF laws(1,2) root(1) descends.first [OF ch(1)]]
  have "token_holds c facts root_of (child_token ch) (child_root_public_key ch) (child_task_id ch)
      ([root_caveat root] @ child_caveats ch)"
    by simp
  note holds = this [unfolded ch(3)]
  have "encodable c \<lparr>cv_permissions = requested_permissions fs ?r, cv_expires_at = new_year + 30000000000,
      cv_request_binding = Some ?b\<rparr>"
    unfolding P by (rule test_encodable [OF test_systemD(1) [OF sys]])
      (simp_all add: new_year_def permissions_ok_def btree_ok_def hash_tool_arguments_def laws(6))
  then obtain pk d where
    "parse_public_key c (child_root_public_key ch) = Ok pk" "decode_state c (child_token ch) pk = Ok d"
    "permissions_eq (ds_permissions d) (requested_permissions fs ?r)"
    "ds_expires_at d = new_year + 30000000000" "ds_request_binding d = Some ?b" "ds_block_id d = 1"
    by (rule decode_token_holds [OF laws(1,2,4) holds]) simp
  then show "attenuated_token_decodes_to_latest_block_state c fs kp nk k"
    by (simp add: attenuated_token_decodes_to_latest_block_state_def root ch(1,2) Let_def parse_public_key_def)
qed

lemma wrong_key_test_passes:
  assumes sys: "test_system c facts root_of lo hi fs" and other: "distinct_keys c kp k"
    and no_panic: "\<And>tok pk. biscuit_from c tok pk \<noteq> Panic"
  shows "token_rejects_wrong_root_public_key c fs kp nk k"
proof -
  note laws = test_cratesD [OF test_systemD(1) [OF sys]]
  obtain root where root: "mint c fs kp nk root_manifest new_year = Ok root" by (rule test_root [OF sys])
  obtain pk where pk: "public_key_from_bytes c (public_key_bytes c k) = Ok pk"
    using other by (auto simp: distinct_keys_def is_ok_iff)
  obtain b where b: "biscuit_to_vec c b = Ok (root_token root)"
      "public_key_from_bytes c (root_root_public_key root) = Ok (root_of b)"
    using mint_holds [OF laws(1,2) root] by (auto simp: token_holds_def)
  moreover have "root_root_public_key root = public_key_bytes c kp" using root by (auto simp: mint_Ok_iff)
  ultimately have "pk \<noteq> root_of b" using other pk by (auto simp: distinct_keys_def)
  then have "biscuit_from c (root_token root) pk \<noteq> Ok b'" for b'
    by (simp add: biscuit_laws_from(1) [OF laws(1) b(1)])
  with no_panic [of "root_token root" pk] have "is_err (verify_signature c (root_token root) pk)"
    by (cases "biscuit_from c (root_token root) pk") (auto simp: verify_signature_def)
  with root pk show ?thesis by (simp add: token_rejects_wrong_root_public_key_def)
qed

lemma property_tests_pass:
  assumes sys: "test_system c facts root_of lo hi fs" and suffix: "lower_name 12 s"
  shows "attenuation_rejects_read_scope_widening c fs kp nk k s"
    and "attenuation_accepts_read_scope_narrowing c fs kp nk k s"
proof -
  note links = test_systemD(2) [OF sys] and s = lower_name_normal [OF suffix]
  obtain root where root: "mint c fs kp nk root_manifest new_year = Ok root" "root_permissions root = test_permissions"
      "root_expires_at root = new_year + 60000000000"
    by (rule test_root [OF sys])
  have paths: "''/outside/'' @ s = path_push ''/outside'' s" "''/repo/'' @ s = path_push ''/repo'' s"
    using s by (simp_all add: path_push_def normal_name_not_absolute)
  have "\<not> path_starts_with (path_push ''/outside'' s) ''/repo''"
    using s components_root_append [of "''outside''"] components_root_append [of "''repo''"] test_names
    by (simp add: path_starts_with_def)
  then have "root_attenuate c fs k root (test_request [''/outside/'' @ s] [] [] 1) new_year = Err ReadScopeWidened"
    unfolding paths by (intro root_att.attenuate_refuses_read) (simp add: root(2) test_scope [OF links])
  then show "attenuation_rejects_read_scope_widening c fs kp nk k s"
    by (simp add: attenuation_rejects_read_scope_widening_def root(1))
  have "request_within fs (test_request [''/repo/'' @ s] [] [] 1) test_permissions"
    unfolding paths using s test_paths
    by (simp add: request_within_def test_scope [OF links] contains_all_exec_iff safe_push under_push)
  from test_granted [OF sys root this] obtain ch where
    "root_attenuate c fs k root (test_request [''/repo/'' @ s] [] [] 1) new_year = Ok ch"
    by auto
  then show "attenuation_accepts_read_scope_narrowing c fs kp nk k s"
    by (simp add: attenuation_accepts_read_scope_narrowing_def root(1))
qed

end
