(* ===== verification/Policy_Tests.thy ===== *)
theory Policy_Tests
  imports Capability_Tests Serde_Attack
begin

text \<open>
  The unit tests of the decision point and its linter (\<open>pdp\<close>), of the enforcement point (\<open>pep\<close>), of
  the tools, of the audit log and of the sandbox stub, and that they pass.
\<close>

section \<open>The decision point and the linter\<close>

definition pdp_manifest :: task_manifest where
  "pdp_manifest =
     \<lparr>tm_task_id = 0, repo_root = ''/repo'', tm_ttl_seconds = 60,
      filesystem = \<lparr>fp_readable_roots = [''/repo''], fp_writable_roots = [''/repo/src'']\<rparr>,
      tm_exec = \<lparr>allowed_binaries = [''python'', ''pytest'']\<rparr>, tm_network = DenyAll\<rparr>"

text \<open>\<open>permissions()\<close>, with the clock's reading, the keys and the file system as arguments.\<close>

definition pdp_permissions ::
    "('kp, 'pk, 'b, 'tok) crates \<Rightarrow> fs_view \<Rightarrow> 'kp \<Rightarrow> 'kp \<Rightarrow> datetime \<Rightarrow> (capability_error, permission_set) res" where
  "pdp_permissions c fs kp nk now = res_bind (mint c fs kp nk pdp_manifest now) (\<lambda>root. Ok (root_permissions root))"

definition is_allow :: "decision \<Rightarrow> bool" where
  "is_allow d = (case d of Allow \<Rightarrow> True | _ \<Rightarrow> False)"

definition is_deny :: "decision \<Rightarrow> bool" where
  "is_deny d = (case d of Deny reason \<Rightarrow> True | _ \<Rightarrow> False)"

definition read_decision_matches_allows_read ::
    "(capability_error, permission_set) res \<Rightarrow> fs_view \<Rightarrow> string \<Rightarrow> bool" where
  "read_decision_matches_allows_read permissions fs sfx \<longleftrightarrow>
     unwrap_then permissions (\<lambda>perms. let p = ''/repo/'' @ sfx in
       is_allow (decide fs perms (Read p)) = allows_read fs perms p)"

definition read_outside_roots_is_denied ::
    "(capability_error, permission_set) res \<Rightarrow> fs_view \<Rightarrow> string \<Rightarrow> bool" where
  "read_outside_roots_is_denied permissions fs sfx \<longleftrightarrow>
     unwrap_then permissions (\<lambda>perms. is_deny (decide fs perms (Read (''/outside/'' @ sfx))))"

definition write_decision_matches_allows_write ::
    "(capability_error, permission_set) res \<Rightarrow> fs_view \<Rightarrow> string \<Rightarrow> bool" where
  "write_decision_matches_allows_write permissions fs sfx \<longleftrightarrow>
     unwrap_then permissions (\<lambda>perms. let p = ''/repo/src/'' @ sfx in
       is_allow (decide fs perms (Write p)) = allows_write fs perms p)"

definition write_outside_roots_is_denied ::
    "(capability_error, permission_set) res \<Rightarrow> fs_view \<Rightarrow> string \<Rightarrow> bool" where
  "write_outside_roots_is_denied permissions fs sfx \<longleftrightarrow>
     unwrap_then permissions (\<lambda>perms. is_deny (decide fs perms (Write (''/repo/'' @ sfx))))"

definition exec_decision_matches_allows_exec ::
    "(capability_error, permission_set) res \<Rightarrow> fs_view \<Rightarrow> string \<Rightarrow> bool" where
  "exec_decision_matches_allows_exec permissions fs binary \<longleftrightarrow>
     unwrap_then permissions (\<lambda>perms. is_allow (decide fs perms (Exec binary)) = allows_exec perms binary)"

definition exec_outside_allowlist_is_denied ::
    "(capability_error, permission_set) res \<Rightarrow> fs_view \<Rightarrow> string \<Rightarrow> bool" where
  "exec_outside_allowlist_is_denied permissions fs binary \<longleftrightarrow>
     unwrap_then permissions (\<lambda>perms. is_deny (decide fs perms (Exec binary)))"

definition network_request_is_always_denied ::
    "(capability_error, permission_set) res \<Rightarrow> fs_view \<Rightarrow> bool" where
  "network_request_is_always_denied permissions fs \<longleftrightarrow>
     unwrap_then permissions (\<lambda>perms. is_deny (decide fs perms Network))"

text \<open>\<open>(curl|wget|nc|bash|sh|rm|dd|ssh)[0-9]*\<close>.\<close>

definition foreign_binary :: "string \<Rightarrow> bool" where
  "foreign_binary b \<longleftrightarrow>
     list_ex (\<lambda>n. prefix n b \<and> list_all (\<lambda>ch. CHR ''0'' \<le> ch \<and> ch \<le> CHR ''9'') (drop (length n) b))
       [''curl'', ''wget'', ''nc'', ''bash'', ''sh'', ''rm'', ''dd'', ''ssh'']"

definition manifest_with_readable_roots :: "path list \<Rightarrow> task_manifest" where
  "manifest_with_readable_roots roots =
     \<lparr>tm_task_id = 0, repo_root = (case roots of [] \<Rightarrow> ''/'' | r # _ \<Rightarrow> r), tm_ttl_seconds = 60,
      filesystem = \<lparr>fp_readable_roots = roots, fp_writable_roots = []\<rparr>,
      tm_exec = \<lparr>allowed_binaries = []\<rparr>, tm_network = DenyAll\<rparr>"

definition flags_filesystem_root_as_always_allow_read ::
    "('kp, 'pk, 'b, 'tok) crates \<Rightarrow> fs_view \<Rightarrow> 'kp \<Rightarrow> 'kp \<Rightarrow> datetime \<Rightarrow> bool" where
  "flags_filesystem_root_as_always_allow_read c fs kp nk now \<longleftrightarrow>
     unwrap_then (mint c fs kp nk (manifest_with_readable_roots [''/'']) now) (\<lambda>root.
       lint (root_permissions root) = [AlwaysAllowRead ''/''])"

definition does_not_flag_scoped_readable_roots ::
    "('kp, 'pk, 'b, 'tok) crates \<Rightarrow> fs_view \<Rightarrow> 'kp \<Rightarrow> 'kp \<Rightarrow> datetime \<Rightarrow> bool" where
  "does_not_flag_scoped_readable_roots c fs kp nk now \<longleftrightarrow>
     unwrap_then (mint c fs kp nk (manifest_with_readable_roots [''/repo'']) now) (\<lambda>root.
       lint (root_permissions root) = [])"

lemma pdp_permissions_Ok:
  assumes "test_crates c facts root_of lo hi" "linkless fs" "lo \<le> now" "now + 61000000000 \<le> hi"
  shows "pdp_permissions c fs kp nk now = Ok test_permissions"
proof -
  have "pdp_manifest = root_manifest" by (simp add: pdp_manifest_def root_manifest_def)
  with root_minted [OF assms, of kp nk] show ?thesis by (auto simp: pdp_permissions_def)
qed

lemma foreign_binary_not_allowed: "foreign_binary b \<Longrightarrow> b \<notin> {''pytest'', ''python''}"
  by (auto simp: foreign_binary_def)

lemma below_outside:
  assumes "lower_name n s"
  shows "\<not> path_starts_with (''/outside/'' @ s) ''/repo''"
    and "s \<noteq> ''src'' \<Longrightarrow> \<not> path_starts_with (''/repo/'' @ s) ''/repo/src''"
proof -
  have s: "normal_name s" by (rule lower_name_normal [OF assms])
  have comps: "components (''/outside/'' @ s) = [RootDir, Normal ''outside'', Normal s]"
      "components (''/repo/'' @ s) = [RootDir, Normal ''repo'', Normal s]"
      "components ''/repo'' = [RootDir, Normal ''repo'']" "components ''/repo/src'' = [RootDir, Normal ''repo'', Normal ''src'']"
    using components_append_slash [OF _ s, of "''/outside''"] components_append_slash [OF _ s, of "''/repo''"]
      components_append_slash [of "''/repo''" "''src''"] components_root_append [of "''outside''"]
      components_root_append [of "''repo''"] test_names
    by (simp_all add: normal_name_def)
  then show "\<not> path_starts_with (''/outside/'' @ s) ''/repo''"
      "s \<noteq> ''src'' \<Longrightarrow> \<not> path_starts_with (''/repo/'' @ s) ''/repo/src''"
    by (simp_all add: path_starts_with_def)
qed

lemma decision_tests_pass:
  assumes "linkless fs"
  shows "read_decision_matches_allows_read (Ok test_permissions) fs s"
    and "lower_name 12 s \<Longrightarrow> read_outside_roots_is_denied (Ok test_permissions) fs s"
    and "write_decision_matches_allows_write (Ok test_permissions) fs s"
    and "lower_name 12 s \<Longrightarrow> write_outside_roots_is_denied (Ok test_permissions) fs s \<longleftrightarrow> s \<noteq> ''src''"
    and "exec_decision_matches_allows_exec (Ok test_permissions) fs b"
    and "foreign_binary b \<Longrightarrow> exec_outside_allowlist_is_denied (Ok test_permissions) fs b"
    and "network_request_is_always_denied (Ok test_permissions) fs"
proof -
  have roots: "readable_roots test_permissions = [''/repo'']" "writable_roots test_permissions = [''/repo/src'']"
      "exec_binaries test_permissions = [''pytest'', ''python'']"
    by (simp_all add: test_permissions_def)
  note scope = allows_read_def allows_write_def linkless_scope [OF assms] is_under_any_root_def roots
  show "read_decision_matches_allows_read (Ok test_permissions) fs s"
      "write_decision_matches_allows_write (Ok test_permissions) fs s"
      "exec_decision_matches_allows_exec (Ok test_permissions) fs b"
      "network_request_is_always_denied (Ok test_permissions) fs"
    by (simp_all add: read_decision_matches_allows_read_def write_decision_matches_allows_write_def
        exec_decision_matches_allows_exec_def network_request_is_always_denied_def is_allow_def is_deny_def
        decide_simps Let_def)
  show "lower_name 12 s \<Longrightarrow> read_outside_roots_is_denied (Ok test_permissions) fs s"
    using below_outside(1) by (simp add: read_outside_roots_is_denied_def is_deny_def decide_simps scope)
  have "path_starts_with ''/repo/src'' ''/repo/src''" by (rule path_starts_with_refl)
  then show "lower_name 12 s \<Longrightarrow> write_outside_roots_is_denied (Ok test_permissions) fs s \<longleftrightarrow> s \<noteq> ''src''"
    using below_outside(2) test_paths(2)
    by (auto simp: write_outside_roots_is_denied_def is_deny_def decide_simps scope)
  show "foreign_binary b \<Longrightarrow> exec_outside_allowlist_is_denied (Ok test_permissions) fs b"
    using foreign_binary_not_allowed
    by (auto simp: exec_outside_allowlist_is_denied_def is_deny_def decide_simps allows_exec_def roots)
qed

lemma linter_tests_pass:
  assumes crates: "test_crates c facts root_of lo hi" and links: "linkless fs"
    and times: "lo \<le> now" "now + 61000000000 \<le> hi"
  shows "flags_filesystem_root_as_always_allow_read c fs kp nk now"
    and "does_not_flag_scoped_readable_roots c fs kp nk now"
proof -
  note laws = test_cratesD [OF crates]
  have minted: "\<exists>root. mint c fs kp nk (manifest_with_readable_roots [p]) now = Ok root
      \<and> readable_roots (root_permissions root) = [p]"
    if p: "\<not> unsafe_path p" "collect_path (components p) = p" for p
  proof -
    have v: "validate (manifest_with_readable_roots [p]) = Ok ()"
      using p by (simp add: validate_Ok_iff manifest_with_readable_roots_def path_eq_def)
    have e: "checked_expires_at c now (tm_ttl_seconds (manifest_with_readable_roots [p])) = Ok (now + 60000000000)"
      using expires_after [OF laws(3) times, of 60] by (simp add: manifest_with_readable_roots_def)
    have P: "from_manifest fs (manifest_with_readable_roots [p]) = Ok \<lparr>readable_roots = [p], writable_roots = [],
        exec_binaries = [], network = DenyAll\<rparr>"
      using p linkless_resolve [OF links]
      by (simp add: from_manifest_def manifest_with_readable_roots_def checked_paths_safe)
    from mint_available [OF laws(1,2,4,5) v e P] show ?thesis by fastforce
  qed
  have paths: "\<not> unsafe_path ''/''" "collect_path (components ''/'') = ''/''" "path_display ''/'' = ''/''"
      "\<not> path_eq ''/repo'' ''/''"
    by code_simp+
  from minted [OF paths(1,2)] paths(3) show "flags_filesystem_root_as_always_allow_read c fs kp nk now"
    by (auto simp: flags_filesystem_root_as_always_allow_read_def lint_def path_eq_def)
  from minted [OF test_paths(1,16)] paths(4) show "does_not_flag_scoped_readable_roots c fs kp nk now"
    by (auto simp: does_not_flag_scoped_readable_roots_def lint_def)
qed

section \<open>The sandbox stub\<close>

definition install_linux_containment_never_silently_succeeds :: "bool \<Rightarrow> bool" where
  "install_linux_containment_never_silently_succeeds feature \<longleftrightarrow> is_err (install_linux_containment feature)"

text \<open>Each of these is compiled with its feature only.\<close>

definition enabled_build_reports_not_implemented :: bool where
  "enabled_build_reports_not_implemented \<longleftrightarrow> install_linux_containment True = Err NotImplemented"

definition disabled_build_reports_disabled :: bool where
  "disabled_build_reports_disabled \<longleftrightarrow> install_linux_containment False = Err Disabled"

lemma sandbox_tests_pass:
  "install_linux_containment_never_silently_succeeds feature \<and> enabled_build_reports_not_implemented
    \<and> disabled_build_reports_disabled"
  by (simp add: install_linux_containment_never_silently_succeeds_def enabled_build_reports_not_implemented_def
      disabled_build_reports_disabled_def install_linux_containment_def)

section \<open>The enforcement point\<close>

definition pep_manifest :: task_manifest where
  "pep_manifest =
     \<lparr>tm_task_id = 0, repo_root = ''/repo'', tm_ttl_seconds = 60,
      filesystem = \<lparr>fp_readable_roots = [''/repo''], fp_writable_roots = [''/repo/src'']\<rparr>,
      tm_exec = \<lparr>allowed_binaries = [''python'']\<rparr>, tm_network = DenyAll\<rparr>"

definition pep_request :: attenuation_request where
  "pep_request =
     \<lparr>ar_readable_roots = [''/repo/pkg''], ar_writable_roots = [], ar_exec_binaries = [],
      ar_network = DenyAll, ar_ttl_seconds = 30, ar_request_binding = None\<rparr>"

definition verify_accepts_valid_signature_chain ::
    "('kp, 'pk, 'b, 'tok) crates \<Rightarrow> fs_view \<Rightarrow> 'kp \<Rightarrow> 'kp \<Rightarrow> 'kp \<Rightarrow> bool" where
  "verify_accepts_valid_signature_chain c fs kp nk k \<longleftrightarrow>
     unwrap_then (mint c fs kp nk pep_manifest new_year) (\<lambda>root.
     unwrap_then (root_attenuate c fs k root pep_request new_year) (\<lambda>child.
     unwrap_then (verify c child new_year None) (\<lambda>verified.
       vc_expires_at verified = new_year + 30 * 1000000000)))"

text \<open>The struct as JSON with its key replaced, read back: every other field comes back as it was.\<close>

definition verify_rejects_token_signed_with_different_root_key ::
    "('kp, 'pk, 'b, 'tok) crates \<Rightarrow> fs_view \<Rightarrow> 'kp \<Rightarrow> 'kp \<Rightarrow> 'kp \<Rightarrow> 'kp \<Rightarrow> bool" where
  "verify_rejects_token_signed_with_different_root_key c fs kp nk k other_keypair \<longleftrightarrow>
     unwrap_then (mint c fs kp nk pep_manifest new_year) (\<lambda>root.
     unwrap_then (root_attenuate c fs k root pep_request new_year) (\<lambda>child.
     let tampered = child\<lparr>child_root_public_key := public_key_bytes c other_keypair\<rparr> in
       (case verify c tampered new_year None of Err (SignatureChain e) \<Rightarrow> True | _ \<Rightarrow> False)))"

definition verify_rejects_struct_permissions_widened_after_signing ::
    "('kp, 'pk, 'b, 'tok) crates \<Rightarrow> fs_view \<Rightarrow> 'kp \<Rightarrow> 'kp \<Rightarrow> 'kp \<Rightarrow> 'kp \<Rightarrow> bool" where
  "verify_rejects_struct_permissions_widened_after_signing c fs kp nk k k' \<longleftrightarrow>
     unwrap_then (mint c fs kp nk pep_manifest new_year) (\<lambda>root.
     unwrap_then (root_attenuate c fs k root pep_request new_year) (\<lambda>child.
     let tampered = child\<lparr>child_permissions := (child_permissions child)
       \<lparr>readable_roots := [''/repo''], writable_roots := [''/repo/src''], exec_binaries := [''python'']\<rparr>\<rparr> in
       is_ok (child_verify_signature c tampered)
     \<and> verify c tampered new_year None = Err StateTampered
     \<and> unwrap_then (root_attenuate c fs k' root pep_request new_year) (\<lambda>honest.
       unwrap_then (verify c honest new_year None) (\<lambda>verified.
         allows_read fs (vc_permissions verified) ''/repo/pkg/file''
       \<and> \<not> allows_read fs (vc_permissions verified) ''/repo/other''
       \<and> \<not> allows_write fs (vc_permissions verified) ''/repo/src/x''))))"

definition verify_rejects_expired_capability ::
    "('kp, 'pk, 'b, 'tok) crates \<Rightarrow> fs_view \<Rightarrow> 'kp \<Rightarrow> 'kp \<Rightarrow> 'kp \<Rightarrow> bool" where
  "verify_rejects_expired_capability c fs kp nk k \<longleftrightarrow>
     unwrap_then (mint c fs kp nk pep_manifest new_year) (\<lambda>root.
     unwrap_then (root_attenuate c fs k root pep_request new_year) (\<lambda>child.
       verify c child (new_year + 31 * 1000000000) None = Err Expired))"

lemma linkless_attack_paths: "linkless fs \<Longrightarrow> attack_paths_plain fs"
proof -
  assume links: "linkless fs"
  have "collect_path (components ''/repo/pkg/file'') = ''/repo/pkg/file''"
      "collect_path (components ''/repo/other'') = ''/repo/other''" "collect_path (components ''/repo/src/x'') = ''/repo/src/x''"
    by code_simp+
  with test_paths attack_paths(1-6) show ?thesis
    by (simp add: attack_paths_plain_def linkless_resolve [OF links])
qed

text \<open>The root and the child of these tests, and what verification says of them.\<close>

definition pep_child :: "('kp, 'pk, 'b, 'tok) crates \<Rightarrow> fs_view \<Rightarrow> 'tok root_capability \<Rightarrow> 'kp \<Rightarrow> bool" where
  "pep_child c fs root k \<longleftrightarrow>
     (\<exists>ch v. root_attenuate c fs k root pep_request new_year = Ok ch
        \<and> verify c ch new_year None = Ok v \<and> permissions_eq (vc_permissions v) package_permissions
        \<and> vc_expires_at v = new_year + 30000000000
        \<and> child_verify_signature c (tampered_child ch) = Ok ()
        \<and> verify c (tampered_child ch) new_year None = Err StateTampered)"

lemma pep_fixture:
  assumes sys: "test_system c facts root_of lo hi fs"
  obtains root where "mint c fs kp nk pep_manifest new_year = Ok root"
    and "\<forall>k. pep_child c fs root k"
proof -
  note laws = test_cratesD [OF test_systemD(1) [OF sys]] and plain = linkless_attack_paths [OF test_systemD(2) [OF sys]]
  have fixtures: "pep_manifest = attack_manifest" "pep_request = attack_request"
    by (simp_all add: pep_manifest_def attack_manifest_def pep_request_def attack_request_def)
  have times: "lo \<le> new_year" "new_year + 60000000000 \<le> hi" "0 \<le> new_year" "new_year + 30000000000 < 253402300800 * 1000000000"
    using test_systemD(3,4) [OF sys] by (simp_all add: new_year_def)
  obtain root where root: "mint c fs kp nk attack_manifest new_year = Ok root" "root_permissions root = attack_permissions"
      "root_expires_at root = new_year + 60000000000"
    using attack_minted [OF laws(1-4) laws(5) plain times(1,2)] by blast
  have "pep_child c fs root k" for k
  proof -
    obtain ch where ch: "root_attenuate c fs k root attack_request new_year = Ok ch"
      using attack_attenuated(1) [OF laws(1-4) root plain times(1,2)] by blast
    note perms = attack_attenuated(2) [OF laws(1-4) root plain times(1,2) ch]
    note verdicts = attack_verdicts [OF laws(1-4) root(1) ch conjunct1 [OF perms] conjunct2 [OF perms] times(3,4)]
    obtain v where v: "verify c ch new_year None = Ok v" "permissions_eq (vc_permissions v) package_permissions"
      using verdicts(1) by blast
    have "child_expires_at ch = new_year + 30000000000"
      using descends_last [OF descends.first [OF ch]] perms by auto
    with verify_permissions_match [OF v(1)] ch v verdicts(2,3) show ?thesis by (auto simp: fixtures pep_child_def)
  qed
  with root(1) show thesis by (intro that [of root] allI) (simp_all add: fixtures)
qed

lemma verification_tests_pass:
  assumes sys: "test_system c facts root_of lo hi fs"
  shows "verify_accepts_valid_signature_chain c fs kp nk k"
    and "verify_rejects_struct_permissions_widened_after_signing c fs kp nk k k'"
    and "verify_rejects_expired_capability c fs kp nk k"
proof -
  obtain root where root: "mint c fs kp nk pep_manifest new_year = Ok root"
    and child: "\<forall>k. pep_child c fs root k"
    by (rule pep_fixture [OF sys, where kp = kp and nk = nk])
  obtain ch v where ch: "root_attenuate c fs k root pep_request new_year = Ok ch" "verify c ch new_year None = Ok v"
      "vc_expires_at v = new_year + 30000000000" "child_verify_signature c (tampered_child ch) = Ok ()"
      "verify c (tampered_child ch) new_year None = Err StateTampered"
    using spec [OF child, of k] unfolding pep_child_def by blast
  obtain ch' v' where ch': "root_attenuate c fs k' root pep_request new_year = Ok ch'" "verify c ch' new_year None = Ok v'"
      "permissions_eq (vc_permissions v') package_permissions"
    using spec [OF child, of k'] unfolding pep_child_def by blast
  show "verify_accepts_valid_signature_chain c fs kp nk k"
    by (simp add: verify_accepts_valid_signature_chain_def root ch)
  from attack_decisions [OF ch'(3) linkless_attack_paths [OF test_systemD(2) [OF sys]]] ch(4,5) [unfolded tampered_child_def]
  show "verify_rejects_struct_permissions_widened_after_signing c fs kp nk k k'"
    by (simp add: verify_rejects_struct_permissions_widened_after_signing_def root ch(1) ch'(1,2))
  have "verify_and_decode c ch = Ok (vc_state v)" using ch(2) by (simp add: verify_Ok_iff)
  with ch(3) show "verify_rejects_expired_capability c fs kp nk k"
    by (simp add: verify_rejects_expired_capability_def root ch(1) verify_of_state vc_expires_at_def)
qed

lemma different_key_test_passes:
  assumes sys: "test_system c facts root_of lo hi fs" and other: "distinct_keys c kp k'"
    and no_panic: "\<And>tok pk. biscuit_from c tok pk \<noteq> Panic"
  shows "verify_rejects_token_signed_with_different_root_key c fs kp nk k k'"
proof -
  note laws = test_cratesD [OF test_systemD(1) [OF sys]]
  obtain root where root: "mint c fs kp nk pep_manifest new_year = Ok root"
    and child: "\<forall>k. pep_child c fs root k"
    by (rule pep_fixture [OF sys, where kp = kp and nk = nk])
  obtain ch where ch: "root_attenuate c fs k root pep_request new_year = Ok ch"
    using spec [OF child, of k] unfolding pep_child_def by blast
  obtain pk where pk: "public_key_from_bytes c (public_key_bytes c k') = Ok pk"
    using other by (auto simp: distinct_keys_def is_ok_iff)
  have "child_root_public_key ch = public_key_bytes c kp"
    using root root_att.attenuate_Ok [OF ch] by (auto simp: mint_Ok_iff)
  then obtain b where b: "biscuit_to_vec c b = Ok (child_token ch)" "public_key_from_bytes c (public_key_bytes c kp) = Ok (root_of b)"
    using descends_holds [OF laws(1,2) root descends.first [OF ch]] by (auto simp: token_holds_def)
  with other pk have "pk \<noteq> root_of b" by (auto simp: distinct_keys_def)
  then have "biscuit_from c (child_token ch) pk \<noteq> Ok b'" for b'
    by (simp add: biscuit_laws_from(1) [OF laws(1) b(1)])
  then obtain e where "biscuit_from c (child_token ch) pk = Err e"
    using no_panic by (cases "biscuit_from c (child_token ch) pk") auto
  with pk show ?thesis
    by (simp add: verify_rejects_token_signed_with_different_root_key_def root ch verify_def verify_and_decode_def
        parse_public_key_def decode_state_def from_codec_error_def verification_error_of_def)
qed

end
