(* ===== verification/Effect_Tests.thy ===== *)
theory Effect_Tests
  imports Policy_Tests
begin

text \<open>
  The unit tests that read the clock and draw randomness: those of the audit log and of the tools.
  A test is a computation on the world that returns whether its assertions hold; it passes in a
  world from which every draw sees a clock in time, and no symbolic links.
\<close>

section \<open>Worlds\<close>

definition unwrap_io :: "('w, 'e, 'a) io \<Rightarrow> ('w, string, 'a) io" where
  "unwrap_io m w = (case m w of (r, w') \<Rightarrow> (unwrapped r, w'))"

definition passes :: "('w, string, bool) io \<Rightarrow> 'w \<Rightarrow> bool" where
  "passes test w \<longleftrightarrow> fst (test w) = Ok True"

text \<open>
  The clock moves less than five seconds during a test, within the representable years, and no draw
  shows a symbolic link.
\<close>

definition timely :: "('w, 'kp) os \<Rightarrow> datetime \<Rightarrow> datetime \<Rightarrow> datetime \<Rightarrow> 'w \<Rightarrow> bool" where
  "timely os lo hi start w \<longleftrightarrow>
     0 \<le> start \<and> lo \<le> start \<and> start + 70000000000 \<le> hi \<and> start + 70000000000 < 253402300800 * 1000000000
   \<and> (\<forall>v. draws os w v \<longrightarrow> linkless (os_fs os v)
        \<and> start \<le> fst (os_now os v) \<and> fst (os_now os v) < start + 5000000000)"

definition test_world :: "('w, 'kp) os \<Rightarrow> datetime \<Rightarrow> datetime \<Rightarrow> 'w \<Rightarrow> bool" where
  "test_world os lo hi w \<longleftrightarrow> (\<exists>start. timely os lo hi start w)"

lemma timely_draws: "timely os lo hi start w \<Longrightarrow> draws os w v \<Longrightarrow> timely os lo hi start v"
  unfolding timely_def by (meson draws_trans)

lemma timely_here:
  "timely os lo hi start w \<Longrightarrow>
    linkless (os_fs os w) \<and> start \<le> fst (os_now os w) \<and> fst (os_now os w) < start + 5000000000"
  unfolding timely_def by blast

lemma test_world_draws:
  assumes "test_world os lo hi w" "draws os w v"
  shows "test_world os lo hi v" "linkless (os_fs os v)"
  using assms unfolding test_world_def by (auto dest: timely_draws timely_here)

text \<open>What two readings of the clock in a test, one after the other, know of each other.\<close>

lemma test_world_clock:
  assumes "test_world os lo hi w" "os_now os w = (now, w1)"
  shows "0 \<le> now" "lo \<le> now" "now + 61000000000 \<le> hi" "now + 60000000000 < 253402300800 * 1000000000"
    and "draws os w v \<Longrightarrow> os_now os v = (t, v') \<Longrightarrow> t < now + 5000000000"
proof -
  obtain start where s: "0 \<le> start" "lo \<le> start" "start + 70000000000 \<le> hi"
      "start + 70000000000 < 253402300800 * 1000000000"
      "\<And>v. draws os w v \<Longrightarrow> start \<le> fst (os_now os v) \<and> fst (os_now os v) < start + 5000000000"
    using assms(1) unfolding test_world_def timely_def by blast
  from s(5) [of w] assms(2) have now: "start \<le> now" "now < start + 5000000000" by auto
  with s show "0 \<le> now" "lo \<le> now" "now + 61000000000 \<le> hi" "now + 60000000000 < 253402300800 * 1000000000"
    by linarith+
  show "t < now + 5000000000" if "draws os w v" "os_now os v = (t, v')"
    using s(5) [OF that(1)] that(2) now by simp
qed

section \<open>The audit log\<close>

definition verifies_chain_continuity ::
    "('kp, 'pk, 'b, 'tok) crates \<Rightarrow> ('w, 'kp) os \<Rightarrow> ('w, string, bool) io" where
  "verifies_chain_continuity c os =
     io_bind (io_draw (os_now os)) (\<lambda>t1.
     io_bind (unwrap_io (chain_entry c os (replicate 32 0) t1 (RootMinted 0))) (\<lambda>first.
     io_bind (io_draw (os_now os)) (\<lambda>t2.
     io_bind (unwrap_io (chain_entry c os (ae_entry_hash first) t2 (ToolAllowed ''fs_read''))) (\<lambda>second.
     io_lift (Ok (is_ok (verify_chain c [first, second])))))))"

definition rejects_broken_chain_continuity ::
    "('kp, 'pk, 'b, 'tok) crates \<Rightarrow> ('w, 'kp) os \<Rightarrow> ('w, string, bool) io" where
  "rejects_broken_chain_continuity c os =
     io_bind (io_draw (os_now os)) (\<lambda>t1.
     io_bind (unwrap_io (chain_entry c os (replicate 32 0) t1 (RootMinted 0))) (\<lambda>first.
     io_bind (io_draw (os_now os)) (\<lambda>t2.
     io_bind (unwrap_io (chain_entry c os (replicate 32 1) t2 (ToolAllowed ''fs_read''))) (\<lambda>second.
     io_lift (Ok (verify_chain c [first, second] = Err (BrokenChain 1)))))))"

lemma unwrap_chain_entry:
  "unwrap_io (chain_entry c os prev t e) w =
    (case os_uuid os w of (i, w') \<Rightarrow>
      (Ok \<lparr>ae_id = i, ae_timestamp = t, ae_event = e, ae_previous_hash = prev,
           ae_entry_hash = hash_entry_fields c i t e prev\<rparr>, w'))"
  by (simp add: unwrap_io_def chain_entry_eq unwrapped_def split: prod.split)

text \<open>The second test needs a hash function that does not return 32 ones.\<close>

lemma audit_tests_pass:
  shows "passes (verifies_chain_continuity c os) w"
    and "(\<And>i t. hash_entry_fields c i t (RootMinted 0) (replicate 32 0) \<noteq> replicate 32 1) \<Longrightarrow>
      passes (rejects_broken_chain_continuity c os) w"
  by (simp_all add: passes_def verifies_chain_continuity_def rejects_broken_chain_continuity_def io_bind_def
      io_draw_def io_lift_def unwrap_chain_entry verify_chain_def split: prod.split) metis

section \<open>The tools\<close>

definition bound_manifest :: task_manifest where
  "bound_manifest =
     \<lparr>tm_task_id = 0, repo_root = ''/repo'', tm_ttl_seconds = 60,
      filesystem = \<lparr>fp_readable_roots = [''/repo''], fp_writable_roots = []\<rparr>,
      tm_exec = \<lparr>allowed_binaries = []\<rparr>, tm_network = DenyAll\<rparr>"

text \<open>Minting and attenuating draw the keys they need.\<close>

definition mint_on ::
    "('kp, 'pk, 'b, 'tok) crates \<Rightarrow> ('w, 'kp) os \<Rightarrow> task_manifest \<Rightarrow> datetime \<Rightarrow> ('w, string, 'tok root_capability) io" where
  "mint_on c os m now w =
     (case os_keypair os w of (keypair, w1) \<Rightarrow>
      case os_keypair os w1 of (next_key, w2) \<Rightarrow> (unwrapped (mint c (os_fs os w) keypair next_key m now), w2))"

definition attenuate_on ::
    "('kp, 'pk, 'b, 'tok) crates \<Rightarrow> ('w, 'kp) os \<Rightarrow> 'tok root_capability \<Rightarrow> attenuation_request \<Rightarrow> datetime
      \<Rightarrow> ('w, string, 'tok child_capability) io" where
  "attenuate_on c os root r now w =
     (case os_keypair os w of (next_key, w1) \<Rightarrow> (unwrapped (root_attenuate c (os_fs os w) next_key root r now), w1))"

definition bound_read_capability ::
    "('kp, 'pk, 'b, 'tok) crates \<Rightarrow> ('w, 'kp) os \<Rightarrow> tool_request \<Rightarrow> uuid
      \<Rightarrow> ('w, string, 'tok child_capability) io" where
  "bound_read_capability c os request n =
     io_bind (io_draw (os_now os)) (\<lambda>now.
     io_bind (mint_on c os bound_manifest now) (\<lambda>root.
     io_bind (io_lift (unwrapped (request_binding_for c request n))) (\<lambda>binding.
     attenuate_on c os root
       \<lparr>ar_readable_roots = [''/repo''], ar_writable_roots = [], ar_exec_binaries = [],
        ar_network = DenyAll, ar_ttl_seconds = 30, ar_request_binding = Some binding\<rparr> now)))"

definition authorizes_matching_request_binding ::
    "('kp, 'pk, 'b, 'tok) crates \<Rightarrow> ('w, 'kp) os \<Rightarrow> ('w, string, bool) io" where
  "authorizes_matching_request_binding c os =
     (let request = Read ''/repo/src/lib.rs'' in
      io_bind (io_draw (os_uuid os)) (\<lambda>n.
      io_bind (bound_read_capability c os request n) (\<lambda>capability w.
      (case authorize_only c os capability request (Some n) w of (r, w') \<Rightarrow> (Ok (is_ok r), w')))))"

definition rejects_replayed_request_binding_with_different_nonce ::
    "('kp, 'pk, 'b, 'tok) crates \<Rightarrow> ('w, 'kp) os \<Rightarrow> ('w, string, bool) io" where
  "rejects_replayed_request_binding_with_different_nonce c os =
     (let request = Read ''/repo/src/lib.rs'' in
      io_bind (io_draw (os_uuid os)) (\<lambda>n.
      io_bind (bound_read_capability c os request n) (\<lambda>capability.
      io_bind (io_draw (os_uuid os)) (\<lambda>n' w.
      (case authorize_only c os capability request (Some n') w of (r, w') \<Rightarrow>
         (Ok (r = Err (Verification RequestBindingMismatch)), w'))))))"

text \<open>The capability of these tests: bound to the request, honest, and good for 30 seconds.\<close>

definition read_permissions :: permission_set where
  "read_permissions = \<lparr>readable_roots = [''/repo''], writable_roots = [], exec_binaries = [], network = DenyAll\<rparr>"

lemma lib_rs_path: "\<not> unsafe_path ''/repo/src/lib.rs''" "path_starts_with ''/repo/src/lib.rs'' ''/repo''"
  by code_simp+

lemma bound_capability:
  assumes crates: "test_crates c facts root_of lo hi" and world: "test_world os lo hi w"
    and now: "os_now os w = (now, w1)" and b: "request_binding_for c request n = Ok b"
  obtains ch w' where "bound_read_capability c os request n w = (Ok ch, w')" "draws os w w'"
    "honest c facts root_of ch" "child_permissions ch = read_permissions" "child_expires_at ch = now + 30000000000"
    "binding_current ch" "child_request_binding ch = Some b"
proof -
  note laws = test_cratesD [OF crates] and times = test_world_clock [OF world now]
  obtain kp w2 where kp: "os_keypair os w1 = (kp, w2)" by fastforce
  obtain nk w3 where nk: "os_keypair os w2 = (nk, w3)" by fastforce
  obtain k w4 where k: "os_keypair os w3 = (k, w4)" by fastforce
  have draws: "draws os w w1" "draws os w w3" "draws os w w4" using now kp nk k by (meson draws_one draws_trans)+
  note links = test_world_draws(2) [OF world draws(1)] test_world_draws(2) [OF world draws(2)]
  have v: "validate bound_manifest = Ok ()" by code_simp
  have P: "from_manifest (os_fs os w1) bound_manifest = Ok read_permissions"
    using test_paths linkless_resolve [OF links(1)]
    by (simp add: from_manifest_def bound_manifest_def read_permissions_def checked_paths_safe)
  have e: "checked_expires_at c now (tm_ttl_seconds bound_manifest) = Ok (now + 60000000000)"
      "checked_expires_at c now 30 = Ok (now + 30000000000)"
    using expires_after [OF laws(3) times(2,3), of 60] expires_after [OF laws(3) times(2,3), of 30]
    by (simp_all add: bound_manifest_def)
  obtain root where root: "mint c (os_fs os w1) kp nk bound_manifest now = Ok root"
      "root_permissions root = read_permissions" "root_expires_at root = now + 60000000000"
    using mint_available [OF laws(1,2,4,5) v e(1) P] by blast
  let ?r = "\<lparr>ar_readable_roots = [''/repo''], ar_writable_roots = [], ar_exec_binaries = [],
      ar_network = DenyAll, ar_ttl_seconds = 30, ar_request_binding = Some b\<rparr>"
  have "request_within (os_fs os w3) ?r read_permissions"
    using test_paths by (simp add: request_within_def contains_all_roots_iff contains_all_exec_iff
        linkless_scope [OF links(2)] is_under_any_root_def read_permissions_def)
  then have "validate_attenuation c (os_fs os w3) (root_permissions root) (root_expires_at root) ?r now = Ok ()"
    using e(2) by (simp add: validate_attenuation_Ok_iff root(2,3))
  from attenuate_available [OF laws(1,2,4) root(1) this] obtain ch where
    ch: "root_attenuate c (os_fs os w3) k root ?r now = Ok ch" by blast
  have "requested_permissions (os_fs os w3) ?r = read_permissions"
    using test_paths linkless_resolve [OF links(2)] by (simp add: requested_permissions_def read_permissions_def)
  with root_att.attenuate_Ok [OF ch] e(2) have sel: "child_permissions ch = read_permissions"
      "child_expires_at ch = now + 30000000000"
      "child_caveats ch = [\<lparr>cv_permissions = read_permissions, cv_expires_at = now + 30000000000, cv_request_binding = Some b\<rparr>]"
    by auto
  have "length (argument_hash b) = 32" using b laws(6) by (auto simp: request_binding_for_Ok_iff hash_tool_arguments_def)
  then have "encodable c (last (child_caveats ch))"
    using times(1,4) unfolding sel(3) last.simps
    by (simp, intro test_encodable [OF crates]) (simp_all add: read_permissions_def permissions_ok_def btree_ok_def)
  then have "honest c facts root_of ch"
    unfolding honest_def using laws(1,2,4) root(1) descends.first [OF ch] by (simp add: biscuit_available_def) blast
  moreover have "bound_read_capability c os request n w = (Ok ch, w4)"
    using now kp nk k root(1) b ch
    by (simp add: bound_read_capability_def mint_on_def attenuate_on_def io_bind_def io_draw_def io_lift_def unwrapped_def)
  moreover have "binding_current ch" "child_request_binding ch = Some b"
    by (simp_all add: binding_current_def child_request_binding_def sel(3) List.map_filter_def)
  ultimately show thesis using that draws(3) sel(1,2) by blast
qed

lemma binding_made:
  assumes "test_crates c facts root_of lo hi"
  shows "\<exists>b. request_binding_for c req n = Ok b \<and> nonce b = n"
proof -
  obtain bs where "json_to_vec c (request_json req) = Ok bs"
    using test_cratesD(7) [OF assms, of "request_json req"] by (auto simp: is_ok_iff)
  then show ?thesis by (simp add: request_binding_for_def)
qed

lemma matching_binding_test_passes:
  assumes crates: "test_crates c facts root_of lo hi" and world: "test_world os lo hi w"
  shows "passes (authorizes_matching_request_binding c os) w"
proof -
  let ?req = "Read ''/repo/src/lib.rs''"
  obtain n w1 where n: "os_uuid os w = (n, w1)" by fastforce
  have world1: "test_world os lo hi w1" using n by (intro test_world_draws(1) [OF world]) auto
  obtain now w2 where now: "os_now os w1 = (now, w2)" by fastforce
  obtain b where b: "request_binding_for c ?req n = Ok b" using binding_made [OF crates] by blast
  obtain ch w3 where ch: "bound_read_capability c os ?req n w1 = (Ok ch, w3)" "draws os w1 w3"
      "honest c facts root_of ch" "child_permissions ch = read_permissions" "child_expires_at ch = now + 30000000000"
      "binding_current ch" "child_request_binding ch = Some b"
    by (rule bound_capability [OF crates world1 now b])
  obtain t w4 where t: "os_now os w3 = (t, w4)" by fastforce
  have "t < now + 5000000000" by (rule test_world_clock(5) [OF world1 now ch(2) t])
  moreover have "draws os w1 w4" using ch(2) t by (meson draws_one draws_trans)
  then have "decide (os_fs os w4) read_permissions ?req = Allow"
    using test_world_draws(2) [OF world1] lib_rs_path
    by (simp add: decide_simps allows_read_def linkless_scope is_under_any_root_def read_permissions_def)
  moreover have "actual_binding_for c ?req (Some n) = Ok (Some b)" using b by (simp add: actual_binding_for_def)
  ultimately have "authorize_only c os ch ?req (Some n) w3 = (Ok (), w4)"
    using honest_authorize [OF ch(3) _ t] ch(4-7) by simp
  with n ch(1) show ?thesis
    by (simp add: passes_def authorizes_matching_request_binding_def Let_def io_bind_def io_draw_def)
qed

text \<open>The other test draws two identifiers, which are different but for a negligible chance.\<close>

definition fresh_uuids :: "('w, 'kp) os \<Rightarrow> 'w \<Rightarrow> bool" where
  "fresh_uuids os w \<longleftrightarrow> (\<forall>v. draws os (snd (os_uuid os w)) v \<longrightarrow> fst (os_uuid os v) \<noteq> fst (os_uuid os w))"

lemma replayed_binding_test_passes:
  assumes crates: "test_crates c facts root_of lo hi" and world: "test_world os lo hi w" and fresh: "fresh_uuids os w"
  shows "passes (rejects_replayed_request_binding_with_different_nonce c os) w"
proof -
  let ?req = "Read ''/repo/src/lib.rs''"
  obtain n w1 where n: "os_uuid os w = (n, w1)" by fastforce
  have world1: "test_world os lo hi w1" using n by (intro test_world_draws(1) [OF world]) auto
  obtain now w2 where now: "os_now os w1 = (now, w2)" by fastforce
  obtain b where b: "request_binding_for c ?req n = Ok b" "nonce b = n" using binding_made [OF crates] by blast
  obtain ch w3 where ch: "bound_read_capability c os ?req n w1 = (Ok ch, w3)" "draws os w1 w3"
      "honest c facts root_of ch" "child_permissions ch = read_permissions" "child_expires_at ch = now + 30000000000"
      "binding_current ch" "child_request_binding ch = Some b"
    by (rule bound_capability [OF crates world1 now b(1)])
  obtain n' w4 where n': "os_uuid os w3 = (n', w4)" by fastforce
  have "n' \<noteq> n" using fresh n n' ch(2) by (auto simp: fresh_uuids_def)
  obtain b' where b': "request_binding_for c ?req n' = Ok b'" "nonce b' = n'" using binding_made [OF crates] by blast
  obtain t w5 where t: "os_now os w4 = (t, w5)" by fastforce
  have "draws os w1 w4" using ch(2) n' by (meson draws_one draws_trans)
  then have "t < now + 5000000000" by (rule test_world_clock(5) [OF world1 now _ t])
  moreover have "b' \<noteq> b" using b(2) b'(2) \<open>n' \<noteq> n\<close> by auto
  moreover have "actual_binding_for c ?req (Some n') = Ok (Some b')" using b' by (simp add: actual_binding_for_def)
  ultimately have "authorize_only c os ch ?req (Some n') w4 = (Err (Verification RequestBindingMismatch), w5)"
    using honest_authorize [OF ch(3) _ t] ch(4-7) by simp
  with n n' ch(1) show ?thesis
    by (simp add: passes_def rejects_replayed_request_binding_with_different_nonce_def Let_def io_bind_def io_draw_def)
qed

end
