(* ===== verification/Agent_Tests.thy ===== *)
theory Agent_Tests
  imports Effect_Tests Wire_Facts
begin

text \<open>
  The unit tests of \<open>agent/src/lib.rs\<close>, and that they pass: the agentic loop with the principals the
  tests define, the client of a live model, and the parser of its tool calls.  What serde_json makes
  of the texts in the tests is a hypothesis.
\<close>

section \<open>The principals of the tests\<close>

record mock_principal =
  mp_turns :: "(tool_call \<times> string) list list"
  mp_feedback :: "string list"

definition mock :: "mock_principal principal" where
  "mock =
     \<lparr>pr_next_tool_calls = (\<lambda>p. case mp_turns p of
        [] \<Rightarrow> (Ok [], p) | turn # rest \<Rightarrow> (Ok turn, p\<lparr>mp_turns := rest\<rparr>)),
      pr_add_tool_result = (\<lambda>call_id content p. p\<lparr>mp_feedback := mp_feedback p @ [content]\<rparr>)\<rparr>"

definition erroring :: "unit principal" where
  "erroring =
     \<lparr>pr_next_tool_calls = (\<lambda>p. (Err ''simulated transport failure'', p)),
      pr_add_tool_result = (\<lambda>call_id content p. p)\<rparr>"

definition repo_scoped_manifest :: task_manifest where
  "repo_scoped_manifest =
     \<lparr>tm_task_id = 0, repo_root = ''/repo'', tm_ttl_seconds = 60,
      filesystem = \<lparr>fp_readable_roots = [''/repo''], fp_writable_roots = []\<rparr>,
      tm_exec = \<lparr>allowed_binaries = []\<rparr>, tm_network = DenyAll\<rparr>"

section \<open>The loop\<close>

text \<open>A run of at most eight turns on a new orchestrator, looked at when it has ended.\<close>

definition run_test ::
    "('kp, 'pk, 'b, 'tok) crates \<Rightarrow> ('w, 'kp) os \<Rightarrow> 'p principal \<Rightarrow> 'p
      \<Rightarrow> ((string, unit) res \<Rightarrow> step_outcome list \<Rightarrow> 'p \<Rightarrow> (string, bool) res) \<Rightarrow> ('w, string, bool) io" where
  "run_test c os pr p check =
     io_bind (unwrap_io (new_orchestrator c os repo_scoped_manifest Enforced)) (\<lambda>self w.
     (case run_principal c os pr 8 \<lparr>rs_principal = p, rs_self = self, rs_world = w, rs_outcomes = []\<rparr> of
        (Panic, st) \<Rightarrow> (Panic, rs_world st)
      | (r, st) \<Rightarrow> (check r (rs_outcomes st) (rs_principal st), rs_world st)))"

definition loop_surfaces_principal_error ::
    "('kp, 'pk, 'b, 'tok) crates \<Rightarrow> ('w, 'kp) os \<Rightarrow> ('w, string, bool) io" where
  "loop_surfaces_principal_error c os = run_test c os erroring () (\<lambda>result outcomes p. Ok (is_err result))"

text \<open>\<open>String::contains\<close>.\<close>

definition contains_text :: "string \<Rightarrow> string \<Rightarrow> bool" where
  "contains_text s part \<longleftrightarrow> sublist part s"

definition loop_denies_out_of_scope_call_and_feeds_denial_back ::
    "('kp, 'pk, 'b, 'tok) crates \<Rightarrow> ('w, 'kp) os \<Rightarrow> ('w, string, bool) io" where
  "loop_denies_out_of_scope_call_and_feeds_denial_back c os =
     run_test c os mock \<lparr>mp_turns = [[(FsRead ''/etc/passwd'', ''call-1'')]], mp_feedback = []\<rparr>
       (\<lambda>result outcomes p. res_bind (unwrapped result) (\<lambda>_.
          Ok (length outcomes = 1
            \<and> (case so_decision (outcomes ! 0) of Denied reason \<Rightarrow> True | _ \<Rightarrow> False)
            \<and> length (mp_feedback p) = 1 \<and> contains_text (mp_feedback p ! 0) ''DENIED'')))"

definition loop_stops_when_principal_emits_no_calls ::
    "('kp, 'pk, 'b, 'tok) crates \<Rightarrow> ('w, 'kp) os \<Rightarrow> ('w, string, bool) io" where
  "loop_stops_when_principal_emits_no_calls c os =
     run_test c os mock \<lparr>mp_turns = [], mp_feedback = []\<rparr>
       (\<lambda>result outcomes p. res_bind (unwrapped result) (\<lambda>_. Ok (outcomes = [] \<and> mp_feedback p = [])))"

section \<open>The client of a live model\<close>

definition live_client :: open_ai_principal_client where
  "live_client = open_ai_new ''http://unused'' ''test-model'' None (build_demo_initial_messages ''task'')"

definition raw_call :: "string \<Rightarrow> string \<Rightarrow> string \<Rightarrow> raw_tool_call" where
  "raw_call name args call_id =
     \<lparr>rt_type = ''function'', rt_id = call_id, rt_function = \<lparr>rf_name = name, rf_arguments = args\<rparr>\<rparr>"

text \<open>The texts of the tests.\<close>

definition field_text :: "string \<Rightarrow> string \<Rightarrow> string" where
  "field_text key value = quoted key @ '':'' @ value"

definition path_text :: "string \<Rightarrow> string" where
  "path_text p = ''{'' @ field_text ''path'' (quoted p) @ ''}''"

definition write_text :: string where
  "write_text = ''{'' @ field_text ''path'' (quoted ''/tmp/out.txt'') @ '','' @ field_text ''contents'' (quoted ''hello'') @ ''}''"

definition exec_text :: string where
  "exec_text = ''{'' @ field_text ''binary'' (quoted ''echo'') @ '',''
     @ field_text ''args'' (''['' @ quoted ''hi'' @ '','' @ quoted ''there'' @ '']'') @ ''}''"

definition network_text :: "string \<Rightarrow> string \<Rightarrow> string" where
  "network_text port payload = ''{'' @ field_text ''host'' (quoted ''127.0.0.1'') @ '','' @ field_text ''port'' port
     @ '','' @ field_text ''payload'' (quoted payload) @ ''}''"

definition raw_call_text :: string where
  "raw_call_text = ''{'' @ field_text ''id'' (quoted ''id1'') @ '','' @ field_text ''function''
     (''{'' @ field_text ''name'' (quoted ''fs_read'') @ '','' @ field_text ''arguments'' (quoted ''{}'') @ ''}'') @ ''}''"

definition typed_call_text :: string where
  "typed_call_text = ''{'' @ field_text ''type'' (quoted ''function'') @ '','' @ field_text ''id'' (quoted ''id1'') @ '',''
     @ field_text ''function'' (''{'' @ field_text ''name'' (quoted ''fs_read'') @ '',''
         @ field_text ''arguments'' (quoted ''{}'') @ ''}'') @ ''}''"

text \<open>What serde_json reads them as, and how it writes the last.\<close>

definition serde_reads :: "('kp, 'pk, 'b, 'tok) crates \<Rightarrow> bool" where
  "serde_reads c \<longleftrightarrow>
     is_err (json_from_str c ''not json'')
   \<and> (\<forall>p \<in> {''/repo/x'', ''/tmp/test.txt''}. json_from_str c (path_text p) = Ok (JObject [(''path'', JString p)]))
   \<and> json_from_str c write_text = Ok (JObject [(''path'', JString ''/tmp/out.txt''), (''contents'', JString ''hello'')])
   \<and> json_from_str c exec_text
       = Ok (JObject [(''binary'', JString ''echo''), (''args'', JArray [JString ''hi'', JString ''there''])])
   \<and> json_from_str c (network_text ''9999'' ''secret'')
       = Ok (JObject [(''host'', JString ''127.0.0.1''), (''port'', JNumber (PosInt 9999)), (''payload'', JString ''secret'')])
   \<and> json_from_str c (network_text ''999999'' ''x'')
       = Ok (JObject [(''host'', JString ''127.0.0.1''), (''port'', JNumber (PosInt 999999)), (''payload'', JString ''x'')])
   \<and> json_from_str c raw_call_text
       = Ok (JObject [(''id'', JString ''id1''), (''function'', JObject [(''name'', JString ''fs_read''), (''arguments'', JString ''{}'')])])
   \<and> json_to_vec c (json_of_raw_tool_call (raw_call ''fs_read'' ''{}'' ''id1'')) = Ok (as_bytes typed_call_text)"

definition mixed_turn :: assistant_message where
  "mixed_turn = \<lparr>am_tool_calls = [raw_call ''fs_read'' (path_text ''/repo/x'') ''good'', raw_call ''fs_read'' ''not json'' ''bad''],
     am_content = None\<rparr>"

definition ingest_assistant_answers_unparseable_calls_to_keep_history_valid ::
    "('kp, 'pk, 'b, 'tok) crates \<Rightarrow> bool" where
  "ingest_assistant_answers_unparseable_calls_to_keep_history_valid c \<longleftrightarrow>
     (case ingest_assistant c mixed_turn live_client of (calls, client) \<Rightarrow>
        length calls = 1 \<and> snd (calls ! 0) = ''good''
      \<and> list_ex (\<lambda>m. cm_role m = ''assistant'' \<and> cm_tool_calls m \<noteq> None) (oc_messages client)
      \<and> list_ex (\<lambda>m. cm_role m = ''tool'' \<and> cm_tool_call_id m = Some ''bad'') (oc_messages client)
      \<and> \<not> list_ex (\<lambda>m. cm_role m = ''tool'' \<and> cm_tool_call_id m = Some ''good'') (oc_messages client))"

definition classify_returns_executable_calls :: "('kp, 'pk, 'b, 'tok) crates \<Rightarrow> bool" where
  "classify_returns_executable_calls c \<longleftrightarrow>
     (case fst (classify_assistant c \<lparr>am_tool_calls = [raw_call ''fs_read'' (path_text ''/repo/x'') ''id1''],
        am_content = None\<rparr> live_client) of Calls calls \<Rightarrow> length calls = 1 | _ \<Rightarrow> False)"

definition classify_mixed_batch_returns_only_parseable :: "('kp, 'pk, 'b, 'tok) crates \<Rightarrow> bool" where
  "classify_mixed_batch_returns_only_parseable c \<longleftrightarrow>
     (case fst (classify_assistant c mixed_turn live_client) of
        Calls calls \<Rightarrow> length calls = 1 \<and> snd (calls ! 0) = ''good'' | _ \<Rightarrow> False)"

definition classify_all_unparseable_requests_retry :: "('kp, 'pk, 'b, 'tok) crates \<Rightarrow> bool" where
  "classify_all_unparseable_requests_retry c \<longleftrightarrow>
     fst (classify_assistant c \<lparr>am_tool_calls = [raw_call ''fs_read'' ''not json'' ''bad''], am_content = None\<rparr> live_client)
       = RetryAfterUnparseable"

definition classify_content_only_is_done :: "('kp, 'pk, 'b, 'tok) crates \<Rightarrow> bool" where
  "classify_content_only_is_done c \<longleftrightarrow>
     fst (classify_assistant c \<lparr>am_tool_calls = [], am_content = Some ''all done, the test passes''\<rparr> live_client) = Done"

definition feedback_truncates_large_read_content :: bool where
  "feedback_truncates_large_read_content \<longleftrightarrow>
     (let big = replicate (MAX_FEEDBACK_CHARS + 500) (CHR ''x''); fed = decision_feedback (Allowed (ReadOutput big)) in
      contains_text fed ''truncated'' \<and> chars_count fed < MAX_FEEDBACK_CHARS + 200)"

section \<open>The parser of tool calls\<close>

definition parses_to :: "('kp, 'pk, 'b, 'tok) crates \<Rightarrow> string \<Rightarrow> string \<Rightarrow> tool_call option \<Rightarrow> bool" where
  "parses_to c name args expected \<longleftrightarrow> parse_raw_tool_call c \<lparr>rf_name = name, rf_arguments = args\<rparr> = expected"

definition parse_fs_read_valid :: "('kp, 'pk, 'b, 'tok) crates \<Rightarrow> bool" where
  "parse_fs_read_valid c \<longleftrightarrow> parses_to c ''fs_read'' (path_text ''/tmp/test.txt'') (Some (FsRead ''/tmp/test.txt''))"

definition parse_fs_write_valid :: "('kp, 'pk, 'b, 'tok) crates \<Rightarrow> bool" where
  "parse_fs_write_valid c \<longleftrightarrow> parses_to c ''fs_write'' write_text (Some (FsWrite ''/tmp/out.txt'' ''hello''))"

definition parse_exec_valid :: "('kp, 'pk, 'b, 'tok) crates \<Rightarrow> bool" where
  "parse_exec_valid c \<longleftrightarrow> parses_to c ''exec'' exec_text (Some (ExecCall ''echo'' [''hi'', ''there'']))"

definition parse_network_valid :: "('kp, 'pk, 'b, 'tok) crates \<Rightarrow> bool" where
  "parse_network_valid c \<longleftrightarrow>
     parses_to c ''network'' (network_text ''9999'' ''secret'') (Some (NetworkCall ''127.0.0.1'' 9999 ''secret''))"

definition parse_unknown_tool :: "('kp, 'pk, 'b, 'tok) crates \<Rightarrow> bool" where
  "parse_unknown_tool c \<longleftrightarrow> parses_to c ''unknown'' ''{}'' None"

definition parse_malformed_args :: "('kp, 'pk, 'b, 'tok) crates \<Rightarrow> bool" where
  "parse_malformed_args c \<longleftrightarrow> parses_to c ''fs_read'' ''not json'' None"

definition parse_network_bad_port :: "('kp, 'pk, 'b, 'tok) crates \<Rightarrow> bool" where
  "parse_network_bad_port c \<longleftrightarrow> parses_to c ''network'' (network_text ''999999'' ''x'') None"

section \<open>The derived serialization\<close>

definition raw_tool_call_always_serializes_type_field :: "('kp, 'pk, 'b, 'tok) crates \<Rightarrow> bool" where
  "raw_tool_call_always_serializes_type_field c \<longleftrightarrow>
     unwrap_then (json_to_vec c (json_of_raw_tool_call (raw_call ''fs_read'' ''{}'' ''id1''))) (\<lambda>json.
       sublist (as_bytes (field_text ''type'' (quoted ''function''))) json)"

definition raw_tool_call_defaults_type_when_absent_on_deserialize :: "('kp, 'pk, 'b, 'tok) crates \<Rightarrow> bool" where
  "raw_tool_call_defaults_type_when_absent_on_deserialize c \<longleftrightarrow>
     unwrap_then (json_from_str c raw_call_text) (\<lambda>v.
       (case read_raw_tool_call v of Some call \<Rightarrow> rt_type call = ''function'' | None \<Rightarrow> False))"

section \<open>They pass\<close>

lemma serialization_tests_pass:
  assumes "serde_reads c"
  shows "raw_tool_call_always_serializes_type_field c" "raw_tool_call_defaults_type_when_absent_on_deserialize c"
proof -
  have "as_bytes typed_call_text = as_bytes ''{'' @ as_bytes (field_text ''type'' (quoted ''function''))
      @ as_bytes (drop (length (''{'' @ field_text ''type'' (quoted ''function''))) typed_call_text)"
    by (simp add: typed_call_text_def as_bytes_def)
  then have "sublist (as_bytes (field_text ''type'' (quoted ''function''))) (as_bytes typed_call_text)"
    by (simp only: sublist_appendI)
  with assms show "raw_tool_call_always_serializes_type_field c"
    by (simp add: serde_reads_def raw_tool_call_always_serializes_type_field_def)
  show "raw_tool_call_defaults_type_when_absent_on_deserialize c"
    using assms by (simp add: serde_reads_def raw_tool_call_defaults_type_when_absent_on_deserialize_def
        read_untyped_tool_call)
qed

lemma serde_readsD:
  assumes "serde_reads c"
  shows "parse_raw_tool_call c \<lparr>rf_name = ''fs_read'', rf_arguments = ''not json''\<rparr> = None"
    and "parse_raw_tool_call c \<lparr>rf_name = ''fs_read'', rf_arguments = path_text ''/repo/x''\<rparr> = Some (FsRead ''/repo/x'')"
  using assms
  by (auto simp: serde_reads_def parse_raw_tool_call_def str_arg_def json_get_def json_as_str_def is_err_def
      split: res.splits)

lemma parser_tests_pass:
  assumes "serde_reads c"
  shows "parse_fs_read_valid c" "parse_fs_write_valid c" "parse_exec_valid c" "parse_network_valid c"
    "parse_unknown_tool c" "parse_malformed_args c" "parse_network_bad_port c"
proof -
  note reads = assms [unfolded serde_reads_def]
  note parse = parses_to_def parse_raw_tool_call_def str_arg_def json_get_def json_as_str_def json_as_array_def
    json_as_u64_def u16_try_from_def
  show "parse_fs_read_valid c" "parse_fs_write_valid c" "parse_exec_valid c" "parse_network_valid c"
      "parse_network_bad_port c"
    using reads by (simp_all add: parse parse_fs_read_valid_def parse_fs_write_valid_def parse_exec_valid_def
        parse_network_valid_def parse_network_bad_port_def map_filter_simps)
  show "parse_malformed_args c"
    using serde_readsD(1) [OF assms] by (simp add: parse_malformed_args_def parses_to_def)
  show "parse_unknown_tool c"
    by (simp add: parse parse_unknown_tool_def split: res.split)
qed

lemma client_tests_pass:
  assumes "serde_reads c"
  shows "ingest_assistant_answers_unparseable_calls_to_keep_history_valid c"
    and "classify_returns_executable_calls c" "classify_mixed_batch_returns_only_parseable c"
    and "classify_all_unparseable_requests_retry c" "classify_content_only_is_done c"
  using serde_readsD [OF assms]
  by (simp_all add: ingest_assistant_answers_unparseable_calls_to_keep_history_valid_def
      classify_returns_executable_calls_def classify_mixed_batch_returns_only_parseable_def
      classify_all_unparseable_requests_retry_def classify_content_only_is_done_def classify_assistant_def
      ingest_assistant_def mixed_turn_def raw_call_def live_client_def open_ai_new_def build_demo_initial_messages_def
      push_message_def add_tool_result_def)

lemma chars_count_replicate: "\<not> utf8_cont ch \<Longrightarrow> chars_count (replicate n ch) = n"
  by (simp add: chars_count_def filter_replicate)

lemma feedback_of_big:
  assumes "\<not> utf8_cont ch" "MAX_FEEDBACK_CHARS < n"
  shows "decision_feedback (Allowed (ReadOutput (replicate n ch))) =
    (chars_take MAX_FEEDBACK_CHARS (replicate n ch) @ newline @ ''... ('') @ ''truncated''
      @ ''; '' @ show_nat n @ '' bytes total)''"
  using assms(2) by (simp add: decision_feedback_def truncate_for_feedback_def chars_count_replicate [OF assms(1)])

lemma feedback_test_passes: "feedback_truncates_large_read_content"
proof -
  define n where "n = MAX_FEEDBACK_CHARS + 500"
  have x: "\<not> utf8_cont (CHR ''x'')" by (simp add: utf8_cont_def)
  have "show_nat 4500 = map digit_char [4, 5, 0, 0]" by (simp add: show_nat.simps)
  also have "\<dots> = ''4500''" by code_simp
  finally have n: "MAX_FEEDBACK_CHARS < n" "show_nat n = ''4500''"
    by (simp_all add: n_def MAX_FEEDBACK_CHARS_def)
  let ?fed = "decision_feedback (Allowed (ReadOutput (replicate n (CHR ''x''))))"
  have "contains_text ?fed ''truncated''"
    unfolding feedback_of_big [OF x n(1)] contains_text_def by (rule sublist_appendI)
  moreover have "chars_count ?fed = MAX_FEEDBACK_CHARS + chars_count (newline @ ''... ('' @ ''truncated'' @ ''; 4500 bytes total)'')"
    using n(1) unfolding feedback_of_big [OF x n(1)] n(2)
    by (simp add: chars_count_take chars_count_replicate [OF x])
  moreover have "chars_count (newline @ ''... ('' @ ''truncated'' @ ''; 4500 bytes total)'') < 200" by code_simp
  ultimately show ?thesis unfolding feedback_truncates_large_read_content_def n_def [symmetric] Let_def by linarith
qed

section \<open>The loop tests pass\<close>

text \<open>A new orchestrator for a manifest that makes the permissions \<open>P\<close> where there are no links.\<close>

lemma orchestrator_started_until:
  assumes crates: "test_crates c facts root_of lo hi" and world: "test_world os lo hi w"
    and m: "validate m = Ok ()" "checked_expires_at c (fst (os_now os w)) (tm_ttl_seconds m) = Ok e"
      "\<And>fs. linkless fs \<Longrightarrow> from_manifest fs m = Ok P"
    and valid: "\<forall>p \<in> set (readable_roots P) \<union> set (writable_roots P). utf8_valid p"
  obtains self w' where "new_orchestrator c os m mode w = (Ok self, w')" "draws os w w'"
    "o_mode self = mode" "root_permissions (o_root self) = P" "root_expires_at (o_root self) = e"
    "well_minted c (o_root self)"
proof -
  note laws = test_cratesD [OF crates]
  obtain now w1 where now: "os_now os w = (now, w1)" by fastforce
  obtain kp w2 where kp: "os_keypair os w1 = (kp, w2)" by fastforce
  obtain nk w3 where nk: "os_keypair os w2 = (nk, w3)" by fastforce
  have "draws os w w1" using now by auto
  then have links: "linkless (os_fs os w1)" by (rule test_world_draws(2) [OF world])
  have expires: "checked_expires_at c now (tm_ttl_seconds m) = Ok e" using m(2) now by simp
  obtain root where root: "mint c (os_fs os w1) kp nk m now = Ok root" "root_permissions root = P"
      "root_expires_at root = e"
    using mint_available [OF laws(1,2,4,5) m(1) expires m(3) [OF links]] by blast
  let ?start = "\<lparr>o_mode = mode, o_task_id = tm_task_id m, o_root = root, o_audit_log = [],
    o_previous_hash = replicate 32 0\<rparr>"
  obtain r self w4 where rec: "record_event c os (RootMinted (tm_task_id m)) (?start, w3) = (r, self, w4)"
    by (cases rule: prod_cases3)
  from record_event_spec [OF rec] have r: "r = Ok ()" "o_root self = root" "o_mode self = mode"
    by (auto simp: logged_def)
  have new: "new_orchestrator c os m mode w = (Ok self, w4)"
    using now kp nk root(1) rec r(1) by (simp add: new_orchestrator_def)
  have "well_minted c root" unfolding well_minted_def using root(1) valid by (simp add: root(2)) blast
  with that [OF new] new_orchestrator_spec [OF new] r root(2,3) show thesis by simp
qed

lemma orchestrator_started:
  assumes crates: "test_crates c facts root_of lo hi" and world: "test_world os lo hi w"
    and m: "validate m = Ok ()" "tm_ttl_seconds m = 60" "\<And>fs. linkless fs \<Longrightarrow> from_manifest fs m = Ok P"
    and valid: "\<forall>p \<in> set (readable_roots P) \<union> set (writable_roots P). utf8_valid p"
  obtains self now w' where "new_orchestrator c os m mode w = (Ok self, w')" "draws os w w'"
    "fst (os_now os w) = now" "o_mode self = mode" "root_permissions (o_root self) = P"
    "root_expires_at (o_root self) = now + 60000000000" "well_minted c (o_root self)"
proof -
  obtain now w1 where now: "os_now os w = (now, w1)" by fastforce
  note times = test_world_clock [OF world now]
  have "checked_expires_at c (fst (os_now os w)) (tm_ttl_seconds m) = Ok (now + 60000000000)"
    using expires_after [OF test_cratesD(3) [OF crates] times(2,3), of 60] now m(2) by simp
  from orchestrator_started_until [OF crates world m(1) this m(3) valid] obtain self w' where
    "new_orchestrator c os m mode w = (Ok self, w')" "draws os w w'" "o_mode self = mode"
      "root_permissions (o_root self) = P" "root_expires_at (o_root self) = now + 60000000000" "well_minted c (o_root self)"
    by blast
  with that now show thesis by simp
qed

lemma scoped_manifest:
  "validate repo_scoped_manifest = Ok ()" "tm_ttl_seconds repo_scoped_manifest = 60"
  "linkless fs \<Longrightarrow> from_manifest fs repo_scoped_manifest = Ok read_permissions"
  "\<forall>p \<in> set (readable_roots read_permissions) \<union> set (writable_roots read_permissions). utf8_valid p"
proof -
  show "validate repo_scoped_manifest = Ok ()" by code_simp
  show "tm_ttl_seconds repo_scoped_manifest = 60" by (simp add: repo_scoped_manifest_def)
  show "from_manifest fs repo_scoped_manifest = Ok read_permissions" if "linkless fs"
    using test_paths linkless_resolve [OF that]
    by (simp add: from_manifest_def repo_scoped_manifest_def read_permissions_def checked_paths_safe)
  have "utf8_valid ''/repo''" by code_simp
  then show "\<forall>p \<in> set (readable_roots read_permissions) \<union> set (writable_roots read_permissions). utf8_valid p"
    by (simp add: read_permissions_def)
qed

lemma timely_calm:
  assumes time: "timely os lo hi start v"
    and P: "root_permissions root = P" "start + 60000000000 \<le> root_expires_at root"
    and stable: "\<And>fs. linkless fs \<Longrightarrow> stable_roots fs P" and no_panic: "\<And>call v. fst (execute os call v) \<noteq> Panic"
  shows "calm os lo hi root v"
proof -
  have later: "linkless (os_fs os v') \<and> start \<le> fst (os_now os v') \<and> fst (os_now os v') < start + 5000000000"
    if "draws os v v'" for v'
    by (rule timely_here [OF timely_draws [OF time that]])
  have "start \<le> now \<and> now < start + 5000000000 \<and> start \<le> t \<and> t < start + 5000000000 \<and> stable_roots (os_fs os w2) P"
    if step: "step_draws os v now n w2 t w6" for now n w2 t w6
  proof -
    obtain w1 k w3 u w4 i w5 where d: "os_now os v = (now, w1)" "os_uuid os w1 = (n, w2)" "os_keypair os w2 = (k, w3)"
        "os_now os w3 = (u, w4)" "os_uuid os w4 = (i, w5)" "os_now os w5 = (t, w6)"
      using step unfolding step_draws_def by blast
    then have "draws os v w2" "draws os v w5" by (meson draws_one draws_trans)+
    with later [of v] later [of w2] later [of w5] d(1,6) show ?thesis by (auto intro: stable)
  qed
  then show ?thesis using time no_panic P by (fastforce simp: calm_def timely_def)
qed

text \<open>The one call of the second test is refused, and the refusal fed back.\<close>

lemma run_principal_mock_call:
  assumes "step c os call (self, w) = (Ok out, self', w')"
  shows "\<exists>st'. run_principal c os mock (Suc (Suc n))
      \<lparr>rs_principal = \<lparr>mp_turns = [[(call, call_id)]], mp_feedback = []\<rparr>, rs_self = self, rs_world = w, rs_outcomes = []\<rparr>
      = (Ok (), st') \<and> rs_outcomes st' = [out]
    \<and> mp_feedback (rs_principal st') = [decision_feedback (so_decision out)]"
  using assms by (simp add: mock_def run_call_def io_bind_def)

lemma run_principal_erroring:
  "\<exists>st'. run_principal c os erroring (Suc n) st = (Err ''simulated transport failure'', st')"
  by (simp add: erroring_def)

lemma run_principal_silent:
  assumes "mp_turns (rs_principal st) = []"
  shows "run_principal c os mock (Suc n) st = (Ok (), st)"
  using assms by (simp add: mock_def)

lemma denied_feedback: "contains_text (decision_feedback (Denied reason)) ''DENIED''"
proof -
  have "decision_feedback (Denied reason) = [] @ ''DENIED'' @ '' by authorization policy: '' @ reason"
    by (simp add: decision_feedback_def)
  then show ?thesis unfolding contains_text_def by (simp only: sublist_appendI)
qed

text \<open>The orchestrator of the tests refuses the read of \<open>/etc/passwd\<close>.\<close>

lemma passwd_denied:
  assumes crates: "test_crates c facts root_of lo hi" and world: "test_world os lo hi w"
    and no_panic: "\<And>call v. fst (execute os call v) \<noteq> Panic"
    and self: "draws os w w'" "fst (os_now os w) = now" "o_mode self = Enforced"
      "root_permissions (o_root self) = read_permissions" "root_expires_at (o_root self) = now + 60000000000"
      "well_minted c (o_root self)"
  shows "\<exists>out self' w'' reason. step c os (FsRead ''/etc/passwd'') (self, w') = (Ok out, self', w'')
    \<and> so_decision out = Denied reason"
proof -
  have "stable_roots fs read_permissions" if "linkless fs" for fs
    using test_paths linkless_resolve [OF that] by (simp add: stable_roots_def read_permissions_def)
  moreover obtain start where "timely os lo hi start w" using world unfolding test_world_def by blast
  then have start: "timely os lo hi start w'" "start \<le> now"
    using timely_draws [OF _ self(1)] timely_here [of os lo hi start w] self(2) by auto
  ultimately have "calm os lo hi (o_root self) w'"
    using self(4,5) by (intro timely_calm [OF start(1) _ _ _ no_panic]) simp_all
  moreover have dep: "dependable c facts root_of lo hi" using crates by (simp add: test_crates_def)
  ultimately obtain out self' w'' where s: "step c os (FsRead ''/etc/passwd'') (self, w') = (Ok out, self', w'')"
      "monitor_step os read_permissions (FsRead ''/etc/passwd'') w' (so_decision out) w''"
    using step_monitored [OF dep self(6) _ self(3)] self(4) by metis
  have "path_display ''/etc/passwd'' = ''/etc/passwd''" "\<not> path_starts_with ''/etc/passwd'' ''/repo''" by code_simp+
  then have "decide (os_fs os v) read_permissions (to_request (FsRead ''/etc/passwd'')) \<noteq> Allow" if "draws os w' v" for v
    using test_world_draws(2) [OF world draws_trans [OF self(1) that]]
    by (simp add: decide_simps allows_read_def linkless_scope is_under_any_root_def read_permissions_def)
  with s show ?thesis by (auto elim: monitor_stepE)
qed

lemma loop_tests_pass:
  assumes crates: "test_crates c facts root_of lo hi" and world: "test_world os lo hi w"
    and no_panic: "\<And>call v. fst (execute os call v) \<noteq> Panic"
  shows "passes (loop_surfaces_principal_error c os) w"
    and "passes (loop_denies_out_of_scope_call_and_feeds_denial_back c os) w"
    and "passes (loop_stops_when_principal_emits_no_calls c os) w"
proof -
  obtain self now w' where new: "new_orchestrator c os repo_scoped_manifest Enforced w = (Ok self, w')" "draws os w w'"
    "fst (os_now os w) = now" "o_mode self = Enforced" "root_permissions (o_root self) = read_permissions"
    "root_expires_at (o_root self) = now + 60000000000" "well_minted c (o_root self)"
    by (rule orchestrator_started [OF crates world scoped_manifest])
  have start: "unwrap_io (new_orchestrator c os repo_scoped_manifest Enforced) w = (Ok self, w')"
    by (simp add: unwrap_io_def new(1) unwrapped_def)
  have turns: "Suc 7 = (8 :: nat)" "Suc (Suc 6) = (8 :: nat)" by simp_all
  obtain st1 where "run_principal c os erroring 8
      \<lparr>rs_principal = (), rs_self = self, rs_world = w', rs_outcomes = []\<rparr> = (Err ''simulated transport failure'', st1)"
    using run_principal_erroring [where n = 7, unfolded turns] by blast
  then show "passes (loop_surfaces_principal_error c os) w"
    by (simp add: passes_def loop_surfaces_principal_error_def run_test_def io_bind_def start)
  have "run_principal c os mock 8 \<lparr>rs_principal = \<lparr>mp_turns = [], mp_feedback = []\<rparr>, rs_self = self, rs_world = w',
      rs_outcomes = []\<rparr> = (Ok (), \<lparr>rs_principal = \<lparr>mp_turns = [], mp_feedback = []\<rparr>, rs_self = self, rs_world = w',
      rs_outcomes = []\<rparr>)"
    by (rule run_principal_silent [where n = 7, unfolded turns]) simp
  then show "passes (loop_stops_when_principal_emits_no_calls c os) w"
    by (simp add: passes_def loop_stops_when_principal_emits_no_calls_def run_test_def io_bind_def start unwrapped_def)
  obtain out self' w'' reason where s: "step c os (FsRead ''/etc/passwd'') (self, w') = (Ok out, self', w'')"
      "so_decision out = Denied reason"
    using passwd_denied [OF crates world no_panic new(2-7)] by blast
  obtain st where st: "run_principal c os mock 8
      \<lparr>rs_principal = \<lparr>mp_turns = [[(FsRead ''/etc/passwd'', ''call-1'')]], mp_feedback = []\<rparr>, rs_self = self,
        rs_world = w', rs_outcomes = []\<rparr> = (Ok (), st)"
      "rs_outcomes st = [out]" "mp_feedback (rs_principal st) = [decision_feedback (so_decision out)]"
    using run_principal_mock_call [OF s(1), where n = 6, unfolded turns] by blast
  show "passes (loop_denies_out_of_scope_call_and_feeds_denial_back c os) w"
    using st s(2) denied_feedback
    by (simp add: passes_def loop_denies_out_of_scope_call_and_feeds_denial_back_def run_test_def io_bind_def start
        unwrapped_def)
qed

end
