(* ===== verification/Steady.thy ===== *)
theory Steady
  imports Agent_Tests
begin

text \<open>
  Systems on which a whole program can be followed: an invariant of the world that no draw and no
  allowed call breaks, under which the clock is in time and no link is seen.  On such a system the
  orchestrator starts, and its runs are those of the reference monitor.
\<close>

section \<open>Steady systems\<close>

definition steady ::
    "('w, 'kp) os \<Rightarrow> datetime \<Rightarrow> datetime \<Rightarrow> datetime \<Rightarrow> permission_set \<Rightarrow> ('w \<Rightarrow> bool) \<Rightarrow> bool" where
  "steady os lo hi start P I \<longleftrightarrow>
     (\<forall>v v'. I v \<longrightarrow> draw os v v' \<longrightarrow> I v')
   \<and> (\<forall>v call r v'. I v \<longrightarrow> decide (os_fs os v) P (to_request call) = Allow \<longrightarrow>
        execute os call v = (r, v') \<longrightarrow> I v')
   \<and> (\<forall>call v. fst (execute os call v) \<noteq> Panic)
   \<and> (\<forall>v. I v \<longrightarrow> timely os lo hi start v)"

lemma steadyD:
  assumes "steady os lo hi start P I"
  shows "I v \<Longrightarrow> draw os v v' \<Longrightarrow> I v'"
    and "I v \<Longrightarrow> decide (os_fs os v) P (to_request call) = Allow \<Longrightarrow> execute os call v = (r, v') \<Longrightarrow> I v'"
    and "fst (execute os call v) \<noteq> Panic"
    and "I v \<Longrightarrow> timely os lo hi start v"
  using assms unfolding steady_def by blast+

lemma steady_draws:
  assumes "steady os lo hi start P I"
  shows "draws os v v' \<Longrightarrow> I v \<Longrightarrow> I v'"
  by (induction rule: rtranclp_induct) (auto intro: steadyD(1) [OF assms])

text \<open>The monitor stays within \<open>I\<close>, and answers what the policy says where there are no links.\<close>

lemma steady_step:
  assumes sys: "steady os lo hi start P I" and step: "monitor_step os P call v d v'" and I: "I v"
  shows "I v'"
    and "\<exists>u. I u \<and> linkless (os_fs os u) \<and>
      (case decide (os_fs os u) P (to_request call) of
         Deny reason \<Rightarrow> d = Denied reason
       | Allow \<Rightarrow> (case fst (execute os call u) of Ok out \<Rightarrow> d = Allowed out | Err e \<Rightarrow> \<exists>s. e = Io s \<and> d = Errored s
           | Panic \<Rightarrow> False))"
proof -
  show "I v'"
    using step I by (cases rule: monitor_step.cases) (meson steady_draws [OF sys] steadyD(2) [OF sys])+
  obtain u where u: "draws os v u"
      "case decide (os_fs os u) P (to_request call) of
         Deny reason \<Rightarrow> d = Denied reason
       | Allow \<Rightarrow> (case fst (execute os call u) of Ok out \<Rightarrow> d = Allowed out | Err e \<Rightarrow> \<exists>s. e = Io s \<and> d = Errored s
           | Panic \<Rightarrow> False)"
    using monitor_step_answer [OF step] by blast
  have "I u" by (rule steady_draws [OF sys u(1) I])
  with timely_here [OF steadyD(4) [OF sys this]] u(2) show "\<exists>u. I u \<and> linkless (os_fs os u) \<and>
      (case decide (os_fs os u) P (to_request call) of
         Deny reason \<Rightarrow> d = Denied reason
       | Allow \<Rightarrow> (case fst (execute os call u) of Ok out \<Rightarrow> d = Allowed out | Err e \<Rightarrow> \<exists>s. e = Io s \<and> d = Errored s
           | Panic \<Rightarrow> False))"
    by blast
qed

text \<open>The answer to one call, if the policy says the same wherever there are no links.\<close>

lemma steady_refused:
  assumes "steady os lo hi start P I" "monitor_step os P call v d v'" "I v"
    and "\<And>fs. linkless fs \<Longrightarrow> decide fs P (to_request call) = Deny reason"
  shows "d = Denied reason"
  using steady_step(2) [OF assms(1-3)] assms(4) by force

lemma steady_performed:
  assumes "steady os lo hi start P I" "monitor_step os P call v d v'" "I v"
    and "\<And>fs. linkless fs \<Longrightarrow> decide fs P (to_request call) = Allow"
    and "\<And>u. I u \<Longrightarrow> \<exists>out. fst (execute os call u) = Ok out \<and> R out"
  shows "\<exists>out. d = Allowed out \<and> R out"
proof -
  obtain u where u: "I u" "linkless (os_fs os u)"
      "case decide (os_fs os u) P (to_request call) of
         Deny reason \<Rightarrow> d = Denied reason
       | Allow \<Rightarrow> (case fst (execute os call u) of Ok out \<Rightarrow> d = Allowed out | Err e \<Rightarrow> \<exists>s. e = Io s \<and> d = Errored s
           | Panic \<Rightarrow> False)"
    using steady_step(2) [OF assms(1-3)] by blast
  with assms(4) [OF u(2)] assms(5) [OF u(1)] show ?thesis by auto
qed

section \<open>The operations that answer\<close>

lemma execute_answers:
  "fst (os_read_to_string os v p) = Ok t \<Longrightarrow> fst (execute os (FsRead p) v) = Ok (ReadOutput t)"
  "fst (os_write os v p t) = Ok () \<Longrightarrow> fst (execute os (FsWrite p t) v) = Ok (WriteOutput (length t))"
  "is_ok (fst (os_command_output os v b args)) \<Longrightarrow> \<exists>s out err. fst (execute os (ExecCall b args) v) = Ok (ExecOutput s out err)"
proof -
  note exec = execute_def io_bind_def io_map_err_def io_lift_def
  show "fst (os_read_to_string os v p) = Ok t \<Longrightarrow> fst (execute os (FsRead p) v) = Ok (ReadOutput t)"
    by (cases "os_read_to_string os v p") (simp add: exec)
  show "fst (os_write os v p t) = Ok () \<Longrightarrow> fst (execute os (FsWrite p t) v) = Ok (WriteOutput (length t))"
    by (cases "os_write os v p t") (simp add: exec)
  show "is_ok (fst (os_command_output os v b args)) \<Longrightarrow> \<exists>s out err. fst (execute os (ExecCall b args) v) = Ok (ExecOutput s out err)"
    by (cases "os_command_output os v b args") (auto simp: exec is_ok_iff)
qed

section \<open>Starting and running\<close>

text \<open>A manifest that is good for at least a minute and makes \<open>P\<close> wherever there are no links.\<close>

definition plainly_makes :: "task_manifest \<Rightarrow> permission_set \<Rightarrow> bool" where
  "plainly_makes m P \<longleftrightarrow>
     validate m = Ok () \<and> 60 \<le> unat (tm_ttl_seconds m) \<and> unat (tm_ttl_seconds m) \<le> 1000000
   \<and> (\<forall>fs. linkless fs \<longrightarrow> from_manifest fs m = Ok P \<and> stable_roots fs P)
   \<and> (\<forall>p \<in> set (readable_roots P) \<union> set (writable_roots P). utf8_valid p)"

text \<open>An orchestrator that has been started in time.\<close>

definition authorized ::
    "('kp, 'pk, 'b, 'tok) crates \<Rightarrow> datetime \<Rightarrow> permission_set \<Rightarrow> 'tok orchestrator \<Rightarrow> bool" where
  "authorized c start P self \<longleftrightarrow>
     root_permissions (o_root self) = P \<and> start + 60000000000 \<le> root_expires_at (o_root self)
   \<and> well_minted c (o_root self)"

lemma steady_start:
  assumes crates: "test_crates c facts root_of lo hi" and sys: "steady os lo hi start P I" and I: "I w"
    and m: "plainly_makes m P" and later: "start + (5 + int (unat (tm_ttl_seconds m))) * 1000000000 \<le> hi"
  obtains self w1 where "new_orchestrator c os m mode w = (Ok self, w1)" "I w1" "authorized c start P self"
    "o_mode self = mode" "o_task_id self = tm_task_id m" "map ae_event (o_audit_log self) = [RootMinted (tm_task_id m)]"
    "orch_ok c self"
proof -
  let ?now = "fst (os_now os w)" and ?ttl = "int (unat (tm_ttl_seconds m))"
  have world: "test_world os lo hi w" using steadyD(4) [OF sys I] by (auto simp: test_world_def)
  have now: "start \<le> ?now" "?now < start + 5000000000" "lo \<le> start"
    using timely_here [OF steadyD(4) [OF sys I]] steadyD(4) [OF sys I] by (auto simp: timely_def)
  have ttl: "60 \<le> unat (tm_ttl_seconds m)" "unat (tm_ttl_seconds m) \<le> 1000000"
    using m by (simp_all add: plainly_makes_def)
  then have ttl': "60 \<le> ?ttl" by linarith
  have "?now + ?ttl * 1000000000 \<le> hi" using now later by (simp add: algebra_simps del: int_nat_eq of_nat_unat)
  then have expires: "checked_expires_at c ?now (tm_ttl_seconds m) = Ok (?now + ?ttl * 1000000000)"
    using now(1,3) ttl(2) by (intro expires_in [OF test_cratesD(3) [OF crates]]) linarith+
  obtain self w1 where new: "new_orchestrator c os m mode w = (Ok self, w1)" "draws os w w1" "o_mode self = mode"
      "root_permissions (o_root self) = P" "root_expires_at (o_root self) = ?now + ?ttl * 1000000000"
      "well_minted c (o_root self)"
    by (rule orchestrator_started_until [OF crates world _ expires]) (use m in \<open>auto simp: plainly_makes_def\<close>)
  have "start + 60000000000 \<le> ?now + ?ttl * 1000000000" using ttl' now(1) by linarith
  with new(4-6) have "authorized c start P self" by (simp add: authorized_def)
  with that [OF new(1) steady_draws [OF sys new(2) I]] new_orchestrator_spec [OF new(1)] show thesis by simp
qed

lemma steady_run:
  assumes crates: "test_crates c facts root_of lo hi" and sys: "steady os lo hi start P I" and I: "I w"
    and m: "plainly_makes m P" and self: "authorized c start P self" "o_mode self = Enforced"
  obtains outs self' w' where "run c os calls (self, w) = (Ok outs, self', w')" "map so_call outs = calls"
    "monitor os P calls w (map so_decision outs) w'" "logged c (run_log (o_task_id self) outs) self self'"
proof -
  note a = self(1) [unfolded authorized_def]
  have stable: "stable_roots fs P" if "linkless fs" for fs using m that by (simp add: plainly_makes_def)
  have "calm os lo hi (o_root self) v" if "I v" for v
    using a by (intro timely_calm [OF steadyD(4) [OF sys that] _ _ stable steadyD(3) [OF sys]]) simp_all
  moreover have "I v" if "confined os P x w v" for x v
    by (rule confined_invariant [OF that, where I = I]) (use I steadyD(1,2) [OF sys] in blast)+
  ultimately have "calm_run c os lo hi calls (self, w)"
    by (intro calm_runI [OF self(2)]) (simp add: a)
  moreover have "dependable c facts root_of lo hi" using crates by (simp add: test_crates_def)
  ultimately show thesis using run_monitored [OF _ _ self(2)] a that by metis
qed

text \<open>Each outcome is in the log.\<close>

lemma run_log_outcome:
  "out \<in> set outs \<Longrightarrow> outcome_event (so_call out) (so_decision out) \<in> set (run_log task outs)"
  by (auto simp: run_log_def)

lemma logged_entry:
  assumes "logged c evs self self'" "ev \<in> set evs"
  shows "\<exists>entry \<in> set (o_audit_log self'). ae_event entry = ev"
  using assms by (fastforce simp: logged_def)

end
