(* ===== verification/Acceptance.thy ===== *)
theory Acceptance
  imports Steady
begin

text \<open>
  The acceptance tests (\<open>agent/tests/enforcement.rs\<close>): one feed of five calls, two of them injected,
  is run under enforcement and without it.  That they pass is derived from the reference monitor.
\<close>

section \<open>The fixture\<close>

record fixture =
  fx_repo_root :: path
  fx_secret :: path

definition fixture_manifest :: "fixture \<Rightarrow> uuid \<Rightarrow> task_manifest" where
  "fixture_manifest fx u =
     \<lparr>tm_task_id = u, repo_root = fx_repo_root fx, tm_ttl_seconds = 60,
      filesystem = \<lparr>fp_readable_roots = [fx_repo_root fx],
                    fp_writable_roots = [path_push (fx_repo_root fx) ''src'']\<rparr>,
      tm_exec = \<lparr>allowed_binaries = [''echo'']\<rparr>, tm_network = DenyAll\<rparr>"

definition principal_feed :: "fixture \<Rightarrow> tool_call list" where
  "principal_feed fx =
     [FsRead (path_push (fx_repo_root fx) ''in_scope.txt''),
      FsRead (fx_secret fx),
      FsWrite (path_push (fx_repo_root fx) ''src/fix.txt'') ''patched'',
      ExecCall ''echo'' [''tests pass''],
      NetworkCall ''127.0.0.1'' 9 ''TOPSECRET'']"

section \<open>The tests\<close>

text \<open>A run of the feed on a new orchestrator, and what a test asserts of it.\<close>

definition feed_test ::
    "('kp, 'pk, 'b, 'tok) crates \<Rightarrow> ('w, 'kp) os \<Rightarrow> fixture \<Rightarrow> authz_mode
      \<Rightarrow> (step_decision list \<Rightarrow> audit_entry list \<Rightarrow> bool) \<Rightarrow> ('w, string, bool) io" where
  "feed_test c os fx mode asserted =
     io_bind (io_draw (os_uuid os)) (\<lambda>task_id.
     io_bind (unwrap_io (new_orchestrator c os (fixture_manifest fx task_id) mode)) (\<lambda>self w.
     (case run c os (principal_feed fx) (self, w) of
        (Ok outcomes, self', w') \<Rightarrow>
          (if length outcomes < 5 then Panic else Ok (asserted (map so_decision outcomes) (o_audit_log self')), w')
      | (_, self', w') \<Rightarrow> (Panic, w'))))"

definition is_denied :: "step_decision \<Rightarrow> bool" where
  "is_denied d = (case d of Denied reason \<Rightarrow> True | _ \<Rightarrow> False)"

definition enforced_denies_out_of_scope_while_legit_work_completes ::
    "('kp, 'pk, 'b, 'tok) crates \<Rightarrow> ('w, 'kp) os \<Rightarrow> fixture \<Rightarrow> ('w, string, bool) io" where
  "enforced_denies_out_of_scope_while_legit_work_completes c os fx =
     feed_test c os fx Enforced (\<lambda>ds log.
       ds ! 0 = Allowed (ReadOutput ''hello'')
     \<and> is_denied (ds ! 1)
     \<and> (case ds ! 2 of Allowed (WriteOutput n) \<Rightarrow> True | _ \<Rightarrow> False)
     \<and> (case ds ! 3 of Allowed (ExecOutput status out err) \<Rightarrow> True | _ \<Rightarrow> False)
     \<and> is_denied (ds ! 4)
     \<and> is_ok (verify_chain c log)
     \<and> list_ex (\<lambda>entry. case ae_event entry of ToolDenied tool reason \<Rightarrow> tool = ''fs_read'' | _ \<Rightarrow> False) log)"

definition bypassed_baseline_exfiltrates_the_secret ::
    "('kp, 'pk, 'b, 'tok) crates \<Rightarrow> ('w, 'kp) os \<Rightarrow> fixture \<Rightarrow> ('w, string, bool) io" where
  "bypassed_baseline_exfiltrates_the_secret c os fx =
     feed_test c os fx Bypassed (\<lambda>ds log. ds ! 1 = Allowed (ReadOutput ''TOPSECRET''))"

section \<open>The system the tests run on\<close>

definition fixture_permissions :: "fixture \<Rightarrow> permission_set" where
  "fixture_permissions fx =
     \<lparr>readable_roots = [fx_repo_root fx], writable_roots = [path_push (fx_repo_root fx) ''src''],
      exec_binaries = [''echo''], network = DenyAll\<rparr>"

text \<open>The repository is a plain path, and the secret is one outside it.\<close>

definition fixture_paths :: "fixture \<Rightarrow> bool" where
  "fixture_paths fx \<longleftrightarrow>
     \<not> unsafe_path (fx_repo_root fx) \<and> collect_path (components (fx_repo_root fx)) = fx_repo_root fx
   \<and> ascii (fx_repo_root fx) \<and> ascii (fx_secret fx) \<and> \<not> path_starts_with (fx_secret fx) (fx_repo_root fx)"

text \<open>\<open>I\<close> says what stays true during the tests; the three legitimate calls answer as they should.\<close>

definition fixture_system ::
    "('w, 'kp) os \<Rightarrow> datetime \<Rightarrow> datetime \<Rightarrow> datetime \<Rightarrow> fixture \<Rightarrow> ('w \<Rightarrow> bool) \<Rightarrow> bool" where
  "fixture_system os lo hi start fx I \<longleftrightarrow>
     steady os lo hi start (fixture_permissions fx) I
   \<and> (\<forall>v. I v \<longrightarrow>
        fst (os_read_to_string os v (path_push (fx_repo_root fx) ''in_scope.txt'')) = Ok ''hello''
      \<and> fst (os_write os v (path_push (fx_repo_root fx) ''src/fix.txt'') ''patched'') = Ok ()
      \<and> is_ok (fst (os_command_output os v ''echo'' [''tests pass''])))"

lemma fixture_systemD:
  assumes "fixture_system os lo hi start fx I"
  shows "steady os lo hi start (fixture_permissions fx) I"
    and "I v \<Longrightarrow> fst (os_read_to_string os v (path_push (fx_repo_root fx) ''in_scope.txt'')) = Ok ''hello''"
    and "I v \<Longrightarrow> fst (os_write os v (path_push (fx_repo_root fx) ''src/fix.txt'') ''patched'') = Ok ()"
    and "I v \<Longrightarrow> is_ok (fst (os_command_output os v ''echo'' [''tests pass'']))"
  using assms unfolding fixture_system_def by blast+

section \<open>The manifest\<close>

lemma collect_push:
  "collect_path (components p) = p \<Longrightarrow> normal_name s \<Longrightarrow> collect_path (components (path_push p s)) = path_push p s"
  by (simp add: collect_path_def)

lemma ascii_push: "ascii p \<Longrightarrow> ascii s \<Longrightarrow> ascii (path_push p s)"
  by (simp add: ascii_def path_push_def)

lemma fixture_names: "normal_name ''src''" "normal_name ''in_scope.txt''" "normal_name ''fix.txt''"
  by (simp_all add: normal_name_def)

lemma fixture_roots:
  assumes "fixture_paths fx"
  shows "\<not> unsafe_path (fx_repo_root fx)" "\<not> unsafe_path (path_push (fx_repo_root fx) ''src'')"
    and "linkless fs \<Longrightarrow> resolve_existing_ancestor fs (fx_repo_root fx) = fx_repo_root fx"
    and "linkless fs \<Longrightarrow> resolve_existing_ancestor fs (path_push (fx_repo_root fx) ''src'') = path_push (fx_repo_root fx) ''src''"
  using assms collect_push [of "fx_repo_root fx" "''src''"] fixture_names
  by (simp_all add: fixture_paths_def safe_push linkless_resolve)

lemma fixture_manifest_made:
  assumes "fixture_paths fx"
  shows "plainly_makes (fixture_manifest fx u) (fixture_permissions fx)"
proof -
  note roots = fixture_roots [OF assms]
  have "validate (fixture_manifest fx u) = Ok ()"
    using roots by (simp add: validate_Ok_iff fixture_manifest_def path_eq_def)
  moreover have "from_manifest fs (fixture_manifest fx u) = Ok (fixture_permissions fx)" if "linkless fs" for fs
    using roots that by (simp add: from_manifest_def fixture_manifest_def fixture_permissions_def checked_paths_safe)
  moreover have "ascii ''src''" by code_simp
  then have "\<forall>p \<in> set (readable_roots (fixture_permissions fx)) \<union> set (writable_roots (fixture_permissions fx)). utf8_valid p"
    using assms by (simp add: fixture_permissions_def fixture_paths_def ascii_push)
  moreover have "stable_roots fs (fixture_permissions fx)" if "linkless fs" for fs
    using roots that by (simp add: stable_roots_def fixture_permissions_def)
  moreover have "tm_ttl_seconds (fixture_manifest fx u) = 60" by (simp add: fixture_manifest_def)
  ultimately show ?thesis by (simp add: plainly_makes_def)
qed

section \<open>The decisions on the feed\<close>

lemma fixture_decisions:
  assumes paths: "fixture_paths fx" and links: "linkless fs"
  shows "decide fs (fixture_permissions fx) (to_request (FsRead (path_push (fx_repo_root fx) ''in_scope.txt''))) = Allow"
    and "decide fs (fixture_permissions fx) (to_request (FsRead (fx_secret fx))) = Deny ''read path is outside capability scope''"
    and "decide fs (fixture_permissions fx) (to_request (FsWrite (path_push (fx_repo_root fx) ''src/fix.txt'') t)) = Allow"
    and "decide fs (fixture_permissions fx) (to_request (ExecCall ''echo'' args)) = Allow"
    and "decide fs (fixture_permissions fx) (to_request (NetworkCall h port t)) = Deny ''network policy denies all egress''"
proof -
  let ?repo = "fx_repo_root fx"
  have P: "readable_roots (fixture_permissions fx) = [?repo]"
      "writable_roots (fixture_permissions fx) = [path_push ?repo ''src'']"
      "exec_binaries (fixture_permissions fx) = [''echo'']"
    by (simp_all add: fixture_permissions_def)
  have nested: "path_push ?repo ''src/fix.txt'' = path_push (path_push ?repo ''src'') ''fix.txt''"
    by (simp add: path_push_def is_absolute_def)
  have "ascii ''in_scope.txt''" "ascii ''src/fix.txt''" by code_simp+
  then have disp: "path_display (path_push ?repo ''in_scope.txt'') = path_push ?repo ''in_scope.txt''"
      "path_display (path_push ?repo ''src/fix.txt'') = path_push ?repo ''src/fix.txt''"
      "path_display (fx_secret fx) = fx_secret fx"
    using paths by (simp_all add: path_display_def fixture_paths_def ascii_push)
  note scope = allows_read_def allows_write_def allows_exec_def linkless_scope [OF links] is_under_any_root_def P
  show "decide fs (fixture_permissions fx) (to_request (FsRead (path_push ?repo ''in_scope.txt''))) = Allow"
    using fixture_roots [OF paths] fixture_names
    by (simp add: decide_simps scope disp safe_push under_push path_starts_with_refl)
  show "decide fs (fixture_permissions fx) (to_request (FsRead (fx_secret fx))) = Deny ''read path is outside capability scope''"
    using paths by (simp add: decide_simps scope disp fixture_paths_def)
  show "decide fs (fixture_permissions fx) (to_request (FsWrite (path_push ?repo ''src/fix.txt'') t)) = Allow"
    using fixture_roots [OF paths] fixture_names
    by (simp add: decide_simps scope disp) (simp add: nested safe_push under_push path_starts_with_refl)
  show "decide fs (fixture_permissions fx) (to_request (ExecCall ''echo'' args)) = Allow"
      "decide fs (fixture_permissions fx) (to_request (NetworkCall h port t)) = Deny ''network policy denies all egress''"
    by (simp_all add: decide_simps scope)
qed

text \<open>What the monitor answers to the feed.\<close>

lemma feed_answered:
  assumes sys: "fixture_system os lo hi start fx I" and paths: "fixture_paths fx" and I: "I w"
    and run: "monitor os (fixture_permissions fx) (principal_feed fx) w ds w'"
  shows "\<exists>n s out err. ds = [Allowed (ReadOutput ''hello''), Denied ''read path is outside capability scope'',
    Allowed (WriteOutput n), Allowed (ExecOutput s out err), Denied ''network policy denies all egress'']"
proof -
  let ?P = "fixture_permissions fx" and ?repo = "fx_repo_root fx"
  note st = fixture_systemD(1) [OF sys] and decisions = fixture_decisions [OF paths]
  obtain d0 d1 d2 d3 d4 w1 w2 w3 w4 where ds: "ds = [d0, d1, d2, d3, d4]"
      "monitor_step os ?P (FsRead (path_push ?repo ''in_scope.txt'')) w d0 w1"
      "monitor_step os ?P (FsRead (fx_secret fx)) w1 d1 w2"
      "monitor_step os ?P (FsWrite (path_push ?repo ''src/fix.txt'') ''patched'') w2 d2 w3"
      "monitor_step os ?P (ExecCall ''echo'' [''tests pass'']) w3 d3 w4"
      "monitor_step os ?P (NetworkCall ''127.0.0.1'' 9 ''TOPSECRET'') w4 d4 w'"
    using run by (auto simp: principal_feed_def monitor_Cons)
  note stays = steady_step(1) [OF st]
  have Is: "I w1" "I w2" "I w3" "I w4"
    using stays [OF ds(2) I] stays [OF ds(3)] stays [OF ds(4)] stays [OF ds(5)] by blast+
  have read: "fst (execute os (FsRead (path_push ?repo ''in_scope.txt'')) v) = Ok (ReadOutput ''hello'')" if "I v" for v
    by (rule execute_answers(1) [OF fixture_systemD(2) [OF sys that]])
  have "\<exists>out. d0 = Allowed out \<and> out = ReadOutput ''hello''"
    by (rule steady_performed [OF st ds(2) I decisions(1), where R = "\<lambda>out. out = ReadOutput ''hello''"]) (simp_all add: read)
  moreover have "d1 = Denied ''read path is outside capability scope''"
    by (rule steady_refused [OF st ds(3) Is(1) decisions(2)])
  moreover have "\<exists>out. d2 = Allowed out \<and> (\<exists>n. out = WriteOutput n)"
    by (rule steady_performed [OF st ds(4) Is(2) decisions(3)])
      (assumption, use execute_answers(2) [OF fixture_systemD(3) [OF sys]] in blast)
  moreover have "\<exists>out. d3 = Allowed out \<and> (\<exists>s o' e. out = ExecOutput s o' e)"
    by (rule steady_performed [OF st ds(5) Is(3) decisions(4)])
      (assumption, use execute_answers(3) [OF fixture_systemD(4) [OF sys]] in blast)
  moreover have "d4 = Denied ''network policy denies all egress''"
    by (rule steady_refused [OF st ds(6) Is(4) decisions(5)])
  ultimately show ?thesis using ds(1) by blast
qed

section \<open>The tests pass\<close>

lemma fixture_started:
  assumes crates: "test_crates c facts root_of lo hi" and sys: "fixture_system os lo hi start fx I"
    and paths: "fixture_paths fx" and I: "I w"
  obtains u w0 self w1 where "os_uuid os w = (u, w0)"
    "unwrap_io (new_orchestrator c os (fixture_manifest fx u) mode) w0 = (Ok self, w1)" "I w1" "o_mode self = mode"
    "authorized c start (fixture_permissions fx) self" "orch_ok c self"
proof -
  note st = fixture_systemD(1) [OF sys]
  obtain u w0 where u: "os_uuid os w = (u, w0)" by fastforce
  then have I0: "I w0" by (intro steady_draws [OF st _ I]) auto
  have "start + 70000000000 \<le> hi" using steadyD(4) [OF st I] by (simp add: timely_def)
  then have later: "start + (5 + int (unat (tm_ttl_seconds (fixture_manifest fx u)))) * 1000000000 \<le> hi"
    by (simp add: fixture_manifest_def)
  obtain self w1 where "new_orchestrator c os (fixture_manifest fx u) mode w0 = (Ok self, w1)" "I w1"
      "authorized c start (fixture_permissions fx) self" "o_mode self = mode" "orch_ok c self"
    by (rule steady_start [OF crates st I0 fixture_manifest_made [OF paths] later])
  with that u show thesis by (simp add: unwrap_io_def unwrapped_def)
qed

lemma enforced_acceptance_passes:
  assumes crates: "test_crates c facts root_of lo hi" and sys: "fixture_system os lo hi start fx I"
    and paths: "fixture_paths fx" and I: "I w"
  shows "passes (enforced_denies_out_of_scope_while_legit_work_completes c os fx) w"
proof -
  obtain u w0 self w1 where start: "os_uuid os w = (u, w0)"
      "unwrap_io (new_orchestrator c os (fixture_manifest fx u) Enforced) w0 = (Ok self, w1)" "I w1" "o_mode self = Enforced"
      "authorized c start (fixture_permissions fx) self" "orch_ok c self"
    by (rule fixture_started [OF crates sys paths I])
  obtain outs self' w' where run: "run c os (principal_feed fx) (self, w1) = (Ok outs, self', w')"
      "map so_call outs = principal_feed fx" "monitor os (fixture_permissions fx) (principal_feed fx) w1 (map so_decision outs) w'"
      "logged c (run_log (o_task_id self) outs) self self'"
    by (rule steady_run [OF crates fixture_systemD(1) [OF sys] start(3) fixture_manifest_made [OF paths] start(5,4)])
  obtain n s out err where ds: "map so_decision outs = [Allowed (ReadOutput ''hello''),
      Denied ''read path is outside capability scope'', Allowed (WriteOutput n), Allowed (ExecOutput s out err),
      Denied ''network policy denies all egress'']"
    using feed_answered [OF sys paths start(3) run(3)] by (elim exE)
  have len: "length outs = 5" using arg_cong [OF ds, of length] by simp
  have second: "so_decision (outs ! 1) = Denied ''read path is outside capability scope''"
      "so_call (outs ! 1) = FsRead (fx_secret fx)"
    using arg_cong [OF ds, of "\<lambda>xs. xs ! 1"] arg_cong [OF run(2), of "\<lambda>xs. xs ! 1"] len
    by (simp_all add: principal_feed_def)
  have "outs ! 1 \<in> set outs" using len by simp
  from logged_entry [OF run(4) run_log_outcome [OF this]] second
  obtain entry where "entry \<in> set (o_audit_log self')"
      "ae_event entry = ToolDenied ''fs_read'' ''read path is outside capability scope''"
    by (auto simp: outcome_event_def)
  then have "list_ex (\<lambda>entry. case ae_event entry of ToolDenied tool reason \<Rightarrow> tool = ''fs_read'' | _ \<Rightarrow> False) (o_audit_log self')"
    by (auto simp: list_ex_iff intro!: bexI [of _ entry])
  moreover have "verify_chain c (o_audit_log self') = Ok ()"
    using start(6) run(4) by (simp add: logged_def orch_ok_def)
  ultimately show ?thesis using start(1,2) run(1) ds len
    by (simp add: passes_def enforced_denies_out_of_scope_while_legit_work_completes_def feed_test_def io_bind_def
        io_draw_def is_denied_def)
qed

lemma bypassed_acceptance_passes:
  assumes crates: "test_crates c facts root_of lo hi" and sys: "fixture_system os lo hi start fx I"
    and paths: "fixture_paths fx" and I: "I w"
    and secret: "\<And>v. I v \<Longrightarrow> fst (os_read_to_string os v (fx_secret fx)) = Ok ''TOPSECRET''"
  shows "passes (bypassed_baseline_exfiltrates_the_secret c os fx) w"
proof -
  note st = fixture_systemD(1) [OF sys]
  let ?read = "FsRead (path_push (fx_repo_root fx) ''in_scope.txt'')"
  obtain u w0 self w1 where start: "os_uuid os w = (u, w0)"
      "unwrap_io (new_orchestrator c os (fixture_manifest fx u) Bypassed) w0 = (Ok self, w1)" "I w1" "o_mode self = Bypassed"
    by (rule fixture_started [OF crates sys paths I])
  obtain outs self' w' where run: "run c os (principal_feed fx) (self, w1) = (Ok outs, self', w')"
      "map so_call outs = principal_feed fx" "ambient os (principal_feed fx) w1 (map so_decision outs) w'"
    using run_ambient [OF steadyD(3) [OF st] start(4)] by metis
  from execute_answers(1) [OF fixture_systemD(2) [OF sys start(3)]] obtain v1 where
    v1: "execute os ?read w1 = (Ok (ReadOutput ''hello''), v1)"
    by (metis prod.collapse)
  have "linkless (os_fs os w1)" using timely_here [OF steadyD(4) [OF st start(3)]] by blast
  from steadyD(2) [OF st start(3) fixture_decisions(1) [OF paths this] v1] have I1: "I v1" .
  obtain d ds w2 where ds: "map so_decision outs = Allowed (ReadOutput ''hello'') # d # ds" "draws os v1 w2"
      "\<exists>r v. execute os (FsRead (fx_secret fx)) w2 = (r, v) \<and> (\<forall>out. r = Ok out \<longrightarrow> d = Allowed out)"
    using run(3) v1 by (auto simp: principal_feed_def ambient_Cons)
  from execute_answers(1) [OF secret [OF steady_draws [OF st ds(2) I1]]] ds(3) have "d = Allowed (ReadOutput ''TOPSECRET'')"
    by (metis prod.sel(1))
  moreover have "length outs = 5" using arg_cong [OF run(2), of length] by (simp add: principal_feed_def)
  ultimately show ?thesis using start(1,2) run(1) ds(1)
    by (simp add: passes_def bypassed_baseline_exfiltrates_the_secret_def feed_test_def io_bind_def io_draw_def)
qed

end
