(* ===== verification/Props_Tests.thy ===== *)
theory Props_Tests
  imports Acceptance Scenario
begin

text \<open>
  That the repository's own tests pass on every system that keeps the documented laws, each with a
  witness: an instance of the crates and of the operating system on which they do.
\<close>

section \<open>A system for the witnesses\<close>

text \<open>A stand-in for the hash that keeps the end of its input, and a reader of the texts in the tests.\<close>

definition tail_hash :: "bytes \<Rightarrow> bytes" where
  "tail_hash bs = take 32 (rev bs @ replicate 32 0)"

definition read_text :: "string \<Rightarrow> (string, json) res" where
  "read_text s =
     (if s = path_text ''/repo/x'' then Ok (JObject [(''path'', JString ''/repo/x'')])
      else if s = path_text ''/tmp/test.txt'' then Ok (JObject [(''path'', JString ''/tmp/test.txt'')])
      else if s = write_text then Ok (JObject [(''path'', JString ''/tmp/out.txt''), (''contents'', JString ''hello'')])
      else if s = exec_text
        then Ok (JObject [(''binary'', JString ''echo''), (''args'', JArray [JString ''hi'', JString ''there''])])
      else if s = network_text ''9999'' ''secret''
        then Ok (JObject [(''host'', JString ''127.0.0.1''), (''port'', JNumber (PosInt 9999)), (''payload'', JString ''secret'')])
      else if s = network_text ''999999'' ''x''
        then Ok (JObject [(''host'', JString ''127.0.0.1''), (''port'', JNumber (PosInt 999999)), (''payload'', JString ''x'')])
      else if s = raw_call_text
        then Ok (JObject [(''id'', JString ''id1''),
               (''function'', JObject [(''name'', JString ''fs_read''), (''arguments'', JString ''{}'')])])
      else Err ''expected value'')"

definition write_value :: "json \<Rightarrow> (string, bytes) res" where
  "write_value j =
     (if j = json_of_raw_tool_call (raw_call ''fs_read'' ''{}'' ''id1'') then Ok (as_bytes typed_call_text)
      else json_to_vec tb j)"

definition tt :: "(bytes, bytes, tb_biscuit, tb_biscuit) crates" where
  "tt = tb\<lparr>blake3 := tail_hash, json_from_str := read_text, json_to_vec := write_value\<rparr>"

lemma tt_sel: "blake3 tt = tail_hash" "json_from_str tt = read_text" "json_to_vec tt = write_value" "is_ok (write_value j)"
    "biscuit_build tt = biscuit_build tb" "length (tail_hash bs) = 32"
  by (simp_all add: tt_def tail_hash_def write_value_def)

lemma tail_hash_append: "length p = 32 \<Longrightarrow> tail_hash (bs @ p) = rev p"
  by (simp add: tail_hash_def)

lemma tt_crates: "test_crates tt (\<lambda>b. set (tb_facts b)) tb_root tb_lo tb_hi"
proof -
  have "biscuit_laws tt = (biscuit_laws tb :: _ \<Rightarrow> (tb_biscuit \<Rightarrow> bytes) \<Rightarrow> bool)"
      "uuid_laws tt = uuid_laws tb" "chrono_laws tt = chrono_laws tb"
    by (simp_all add: tt_def biscuit_laws_def uuid_laws_def chrono_laws_def fun_eq_iff)
  then have "biscuit_laws tt (\<lambda>b. set (tb_facts b)) tb_root" "uuid_laws tt" "chrono_laws tt tb_lo tb_hi"
    by (simp_all only: tb_biscuit_laws tb_uuid_laws tb_chrono_laws)
  moreover have "biscuit_available tt"
    by (simp add: biscuit_available_def token_answers_def biscuit_answers_def tt_def tb_def list_all_iff)
  ultimately show ?thesis
    by (simp add: test_crates_def dependable_def tt_sel)
qed

lemma tt_reads: "serde_reads tt"
proof -
  have "json_from_str tt = read_text" by (simp add: tt_def)
  moreover have "is_err (read_text ''not json'')" by code_simp
  moreover have "path_text ''/tmp/test.txt'' \<noteq> path_text ''/repo/x''" by code_simp
  moreover have "write_text \<notin> {path_text ''/repo/x'', path_text ''/tmp/test.txt''}" by code_simp
  moreover have "exec_text \<notin> {path_text ''/repo/x'', path_text ''/tmp/test.txt'', write_text}" by code_simp
  moreover have "network_text ''9999'' ''secret'' \<notin> {path_text ''/repo/x'', path_text ''/tmp/test.txt'', write_text, exec_text}"
    by code_simp
  moreover have "network_text ''999999'' ''x'' \<notin> {path_text ''/repo/x'', path_text ''/tmp/test.txt'', write_text, exec_text,
      network_text ''9999'' ''secret''}"
    by code_simp
  moreover have "raw_call_text \<notin> {path_text ''/repo/x'', path_text ''/tmp/test.txt'', write_text, exec_text,
      network_text ''9999'' ''secret'', network_text ''999999'' ''x''}"
    by code_simp
  ultimately show ?thesis by (simp add: serde_reads_def read_text_def tt_sel write_value_def)
qed

text \<open>A file system in which everything exists and nothing is a link.\<close>

definition flat_fs :: fs_view where
  "flat_fs = \<lparr>fs_exists = (\<lambda>p. True), fs_canonicalize = (\<lambda>p. Some (collect_path (components p)))\<rparr>"

lemma flat_linkless: "linkless flat_fs"
  by (simp add: linkless_def flat_fs_def)

lemma flat_system: "test_system tt (\<lambda>b. set (tb_facts b)) tb_root tb_lo tb_hi flat_fs"
  by (simp add: test_system_def tt_crates flat_linkless) (simp add: tb_lo_def tb_hi_def new_year_def)

lemma tt_keys: "distinct_keys tt [1] [2]" "biscuit_from tt b k \<noteq> Panic"
  by (simp_all add: distinct_keys_def tt_def tb_def)

section \<open>The capability crate\<close>


definition linked_fs :: fs_view where
  "linked_fs =
     \<lparr>fs_exists = (\<lambda>p. components p \<in> {components ''/tmp/repo'', components ''/tmp/repo/link''}),
      fs_canonicalize = (\<lambda>p.
        if components p = components ''/tmp/repo'' then Some ''/private/tmp/repo''
        else if components p = components ''/tmp/repo/link'' then Some ''/private/tmp/outside'' else None)\<rparr>"


section \<open>Decision, enforcement and containment\<close>



section \<open>The tools, the log and the agent\<close>

text \<open>
  An operating system for the tests: a clock that stands still, two identifiers, the files of the
  acceptance tests, and no network.
\<close>

definition fx0 :: fixture where
  "fx0 = \<lparr>fx_repo_root = ''/srv/repo'', fx_secret = ''/srv/secret''\<rparr>"

definition test_os :: "(nat, bytes) os" where
  "test_os =
     \<lparr>os_now = (\<lambda>w. (1000000000, w)), os_uuid = (\<lambda>w. (if w = 0 then 0 else 1, 1)), os_keypair = (\<lambda>w. ([1], w)),
      os_fs = (\<lambda>w. flat_fs),
      os_read_to_string = (\<lambda>w p.
        (if p = ''/srv/repo/in_scope.txt'' then Ok ''hello'' else if p = ''/srv/secret'' then Ok ''TOPSECRET''
         else Err ''No such file or directory (os error 2)'', w)),
      os_write = (\<lambda>w p s. (Ok (), w)),
      os_command_output = (\<lambda>w b args. (Ok \<lparr>out_status = Some 0, out_stdout = b, out_stderr = []\<rparr>, w)),
      os_tcp_connect = (\<lambda>w host port. (Err ''Connection refused (os error 111)'', w)),
      os_tcp_write_all = (\<lambda>w i s. (Ok (), w))\<rparr>"

lemma test_os_timely: "timely test_os tb_lo tb_hi 1000000000 w"
  by (simp add: timely_def test_os_def flat_linkless) (simp add: tb_lo_def tb_hi_def)

lemma test_os_total: "fst (execute test_os call w) \<noteq> Panic"
  by (cases call) (simp_all add: execute_def test_os_def io_bind_def io_map_err_def io_lift_def)

lemma test_os_fresh: "fresh_uuids test_os 0"
proof -
  have "v = 1" if "draws test_os 1 v" for v
    using that by (induction rule: rtranclp_induct) (auto elim!: drawE simp: test_os_def)
  then show ?thesis by (auto simp: fresh_uuids_def test_os_def)
qed





end
