(* ===== verification/Demo_Examples.thy ===== *)
theory Demo_Examples
  imports Acceptance Demo_Facts Wire_Facts
begin

text \<open>
  The demo's example files (\<open>demo/examples\<close>): their trees, the manifest and the calls that are read
  from them, the authority they give, and what the policy decides on each call.
\<close>

section \<open>The files\<close>

definition patch_text :: string where
  "patch_text = ''# patched by agent'' @ newline"

definition basic_manifest_json :: json where
  "basic_manifest_json = JObject
     [(''task_id'', JString ''00000000-0000-0000-0000-000000000001''),
      (''repo_root'', JString ''/tmp/warden-demo-fixture''),
      (''ttl_seconds'', JNumber (PosInt 120)),
      (''filesystem'', JObject [(''readable_roots'', JArray [JString ''/tmp/warden-demo-fixture'']),
                              (''writable_roots'', JArray [JString ''/tmp/warden-demo-fixture/src''])]),
      (''exec'', JObject [(''allowed_binaries'',
         JArray [JString ''python'', JString ''python3'', JString ''pytest'', JString ''echo''])]),
      (''network'', JString ''DenyAll'')]"

definition clean_calls_json :: json where
  "clean_calls_json = JArray
     [JObject [(''FsRead'', JObject [(''path'', JString ''/tmp/warden-demo-fixture/in_scope.txt'')])],
      JObject [(''FsWrite'', JObject [(''path'', JString ''/tmp/warden-demo-fixture/src/fix.py''),
                                    (''contents'', JString patch_text)])],
      JObject [(''Exec'', JObject [(''binary'', JString ''echo''), (''args'', JArray [JString ''tests would pass here''])])]]"

definition injected_calls_json :: json where
  "injected_calls_json = JArray
     [JObject [(''FsRead'', JObject [(''path'', JString ''/tmp/warden-demo-fixture/in_scope.txt'')])],
      JObject [(''FsRead'', JObject [(''path'', JString ''/tmp/warden-demo-fixture/AGENT_NOTE.md'')])],
      JObject [(''FsRead'', JObject [(''path'', JString ''/tmp/warden-secret-canary.txt'')])],
      JObject [(''FsWrite'', JObject [(''path'', JString ''/tmp/warden-demo-fixture/src/fix.py''),
                                    (''contents'', JString patch_text)])],
      JObject [(''Exec'', JObject [(''binary'', JString ''echo''), (''args'', JArray [JString ''tests would pass here''])])],
      JObject [(''Network'', JObject [(''host'', JString ''127.0.0.1''), (''port'', JNumber (PosInt 9999)),
                                    (''payload'', JString ''exfiltrating secret'')])]]"

section \<open>What they are read as\<close>

definition demo_manifest :: "uuid \<Rightarrow> task_manifest" where
  "demo_manifest u =
     \<lparr>tm_task_id = u, repo_root = ''/tmp/warden-demo-fixture'', tm_ttl_seconds = 120,
      filesystem = \<lparr>fp_readable_roots = [''/tmp/warden-demo-fixture''],
                    fp_writable_roots = [''/tmp/warden-demo-fixture/src'']\<rparr>,
      tm_exec = \<lparr>allowed_binaries = [''python'', ''python3'', ''pytest'', ''echo'']\<rparr>, tm_network = DenyAll\<rparr>"

definition in_scope_read :: tool_call where
  "in_scope_read = FsRead ''/tmp/warden-demo-fixture/in_scope.txt''"

definition note_read :: tool_call where
  "note_read = FsRead ''/tmp/warden-demo-fixture/AGENT_NOTE.md''"

definition canary_read :: tool_call where
  "canary_read = FsRead ''/tmp/warden-secret-canary.txt''"

definition fix_write :: tool_call where
  "fix_write = FsWrite ''/tmp/warden-demo-fixture/src/fix.py'' patch_text"

definition echo_exec :: tool_call where
  "echo_exec = ExecCall ''echo'' [''tests would pass here'']"

definition exfiltration :: tool_call where
  "exfiltration = NetworkCall ''127.0.0.1'' 9999 ''exfiltrating secret''"

lemmas demo_calls = in_scope_read_def note_read_def canary_read_def fix_write_def echo_exec_def exfiltration_def

definition clean_feed :: "tool_call list" where
  "clean_feed = [in_scope_read, fix_write, echo_exec]"

definition injected_feed :: "tool_call list" where
  "injected_feed = [in_scope_read, note_read, canary_read, fix_write, echo_exec, exfiltration]"

lemma manifest_file_read:
  assumes "uuid_parse_str c ''00000000-0000-0000-0000-000000000001'' = Some u"
  shows "read_manifest c basic_manifest_json = Some (demo_manifest u)"
  using assms
  by (simp add: basic_manifest_json_def demo_manifest_def read_manifest_def read_filesystem_policy_def
      read_exec_policy_def read_network_policy_def Let_def)

lemma call_files_read:
  "read_vec read_call clean_calls_json = Some clean_feed"
  "read_vec read_call injected_calls_json = Some injected_feed"
proof -
  have port: "u16_try_from 9999 = Some 9999" by (simp add: u16_try_from_def)
  show "read_vec read_call clean_calls_json = Some clean_feed"
    by (simp add: clean_calls_json_def clean_feed_def read_call_def read_call_body_def demo_calls Let_def)
  show "read_vec read_call injected_calls_json = Some injected_feed"
    by (simp add: injected_calls_json_def injected_feed_def read_call_def read_call_body_def demo_calls Let_def port)
qed

section \<open>The authority they give\<close>

definition demo_permissions :: permission_set where
  "demo_permissions =
     \<lparr>readable_roots = [''/tmp/warden-demo-fixture''], writable_roots = [''/tmp/warden-demo-fixture/src''],
      exec_binaries = [''echo'', ''pytest'', ''python'', ''python3''], network = DenyAll\<rparr>"

lemma demo_roots:
  "\<not> unsafe_path ''/tmp/warden-demo-fixture''" "\<not> unsafe_path ''/tmp/warden-demo-fixture/src''"
  "collect_path (components ''/tmp/warden-demo-fixture'') = ''/tmp/warden-demo-fixture''"
  "collect_path (components ''/tmp/warden-demo-fixture/src'') = ''/tmp/warden-demo-fixture/src''"
  "btree_collect (\<lambda>b. b) [''python'', ''python3'', ''pytest'', ''echo''] = [''echo'', ''pytest'', ''python'', ''python3'']"
  "utf8_valid ''/tmp/warden-demo-fixture''" "utf8_valid ''/tmp/warden-demo-fixture/src''"
  by code_simp+

lemma demo_manifest_made: "plainly_makes (demo_manifest u) demo_permissions"
proof -
  have "validate (demo_manifest u) = Ok ()"
    using demo_roots by (simp add: validate_Ok_iff demo_manifest_def path_eq_def)
  moreover have "from_manifest fs (demo_manifest u) = Ok demo_permissions" if "linkless fs" for fs
    using demo_roots linkless_resolve [OF that]
    by (simp add: from_manifest_def demo_manifest_def demo_permissions_def checked_paths_safe)
  moreover have "stable_roots fs demo_permissions" if "linkless fs" for fs
    using demo_roots linkless_resolve [OF that] by (simp add: stable_roots_def demo_permissions_def)
  moreover have "tm_ttl_seconds (demo_manifest u) = 120" by (simp add: demo_manifest_def)
  ultimately show ?thesis using demo_roots(6,7) by (simp add: plainly_makes_def demo_permissions_def)
qed

lemma feed_decisions:
  assumes "linkless fs"
  shows "decide fs demo_permissions (to_request in_scope_read) = Allow"
    and "decide fs demo_permissions (to_request note_read) = Allow"
    and "decide fs demo_permissions (to_request canary_read) = Deny ''read path is outside capability scope''"
    and "decide fs demo_permissions (to_request fix_write) = Allow"
    and "decide fs demo_permissions (to_request echo_exec) = Allow"
    and "decide fs demo_permissions (to_request exfiltration) = Deny ''network policy denies all egress''"
proof -
  have paths: "path_display ''/tmp/warden-demo-fixture/in_scope.txt'' = ''/tmp/warden-demo-fixture/in_scope.txt''"
      "path_display ''/tmp/warden-demo-fixture/AGENT_NOTE.md'' = ''/tmp/warden-demo-fixture/AGENT_NOTE.md''"
      "path_display ''/tmp/warden-secret-canary.txt'' = ''/tmp/warden-secret-canary.txt''"
      "path_display ''/tmp/warden-demo-fixture/src/fix.py'' = ''/tmp/warden-demo-fixture/src/fix.py''"
      "\<not> unsafe_path ''/tmp/warden-demo-fixture/in_scope.txt''" "\<not> unsafe_path ''/tmp/warden-demo-fixture/AGENT_NOTE.md''"
      "\<not> unsafe_path ''/tmp/warden-demo-fixture/src/fix.py''"
      "path_starts_with ''/tmp/warden-demo-fixture/in_scope.txt'' ''/tmp/warden-demo-fixture''"
      "path_starts_with ''/tmp/warden-demo-fixture/AGENT_NOTE.md'' ''/tmp/warden-demo-fixture''"
      "path_starts_with ''/tmp/warden-demo-fixture/src/fix.py'' ''/tmp/warden-demo-fixture/src''"
      "\<not> path_starts_with ''/tmp/warden-secret-canary.txt'' ''/tmp/warden-demo-fixture''"
    by code_simp+
  show "decide fs demo_permissions (to_request in_scope_read) = Allow"
    "decide fs demo_permissions (to_request note_read) = Allow"
    "decide fs demo_permissions (to_request canary_read) = Deny ''read path is outside capability scope''"
    "decide fs demo_permissions (to_request fix_write) = Allow"
    "decide fs demo_permissions (to_request echo_exec) = Allow"
    "decide fs demo_permissions (to_request exfiltration) = Deny ''network policy denies all egress''"
    by (simp_all add: demo_calls decide_simps allows_read_def allows_write_def allows_exec_def
        linkless_scope [OF assms] is_under_any_root_def demo_permissions_def paths)
qed

end
