(* ===== verification/Demo_Runs.thy ===== *)
theory Demo_Runs
  imports Demo_Examples
begin

text \<open>
  The agent program on the demo's example files, from the text of the files to the last line of the
  audit log: every line it prints, with enforcement and without it.
\<close>

section \<open>What a run answers\<close>

text \<open>The line an outcome prints, and the event it leaves in the log.\<close>

definition answer_of :: "tool_call \<Rightarrow> step_decision \<Rightarrow> string \<times> audit_event" where
  "answer_of call d = (print_outcome \<lparr>so_call = call, so_decision = d\<rparr>, outcome_event call d)"

definition answers_of :: "step_outcome list \<Rightarrow> (string \<times> audit_event) list" where
  "answers_of outs = map (\<lambda>out. answer_of (so_call out) (so_decision out)) outs"

lemma answers_of_simps:
  "map print_outcome outs = map fst (answers_of outs)"
  "run_log task outs = concat (map (\<lambda>a. [CapabilityAttenuated task, snd a]) (answers_of outs))"
  "map (\<lambda>out. outcome_event (so_call out) (so_decision out)) outs = map snd (answers_of outs)"
  by (induction outs) (simp_all add: answers_of_def answer_of_def print_outcome_def)

text \<open>The answers of a run, if each call has one answer wherever the run may be.\<close>

lemma monitor_answers:
  assumes "monitor os P calls w ds w'" "list_all2 (\<lambda>call a. \<forall>v d v'. I v \<longrightarrow> monitor_step os P call v d v' \<longrightarrow>
      I v' \<and> answer_of call d = a) calls as" "I w"
  shows "map2 answer_of calls ds = as \<and> I w'"
  using assms by (induction arbitrary: as rule: monitor.induct) (fastforce simp: list_all2_Cons1)+

lemma ambient_answers:
  assumes "ambient os calls w ds w'" "list_all2 (\<lambda>call a. \<forall>v. I v \<longrightarrow> (\<exists>out v'. execute os call v = (Ok out, v')
      \<and> I v' \<and> answer_of call (Allowed out) = a)) calls as" "I w" "\<And>v v'. draws os v v' \<Longrightarrow> I v \<Longrightarrow> I v'"
  shows "map2 answer_of calls ds = as \<and> I w'"
  using assms(1-3)
proof (induction arbitrary: as rule: ambient.induct)
  case (ambient_done call w out v u calls ds w')
  then obtain a rest where as: "as = a # rest" "answer_of call (Allowed out) = a" "I v"
    by (fastforce simp: list_all2_Cons1)
  with assms(4) [OF ambient_done.hyps(2) as(3)] ambient_done show ?case by (auto simp: list_all2_Cons1)
next
  case (ambient_fail call w e v u calls ds w')
  then show ?case by (fastforce simp: list_all2_Cons1)
qed simp

lemma answers_of_run: "map so_call outs = calls \<Longrightarrow> answers_of outs = map2 answer_of calls (map so_decision outs)"
  by (induction outs arbitrary: calls) (auto simp: answers_of_def)

section \<open>What the program prints\<close>

definition audit_header :: "nat \<Rightarrow> string" where
  "audit_header n = newline @ ''--- audit log ('' @ show_nat n @ '' entries) ---''"

definition protected_lines ::
    "('kp, 'pk, 'b, 'tok) crates \<Rightarrow> uuid \<Rightarrow> (string \<times> audit_event) list \<Rightarrow> string list" where
  "protected_lines c u as =
     (''AUTHZ = Enforced'' @ newline) # map fst as @ audit_header (1 + 2 * length as)
     # map (show_event c) (RootMinted u # concat (map (\<lambda>a. [CapabilityAttenuated u, snd a]) as))"

definition vulnerable_lines ::
    "('kp, 'pk, 'b, 'tok) crates \<Rightarrow> uuid \<Rightarrow> (string \<times> audit_event) list \<Rightarrow> string list" where
  "vulnerable_lines c u as =
     (''AUTHZ = Bypassed'' @ newline) # map fst as @ audit_header (1 + length as)
     # map (show_event c) (RootMinted u # map snd as)"

lemma audit_report_events:
  "audit_report c self = audit_header (length (map ae_event (o_audit_log self)))
    # map (show_event c) (map ae_event (o_audit_log self))"
  by (simp add: audit_report_def audit_header_def)

section \<open>The system of the demo\<close>

text \<open>
  The fixture is in place, the agent's note holds \<open>note\<close>, \<open>echo\<close> succeeds, the example files are
  the text of their trees, and the clock is in time.  \<open>I\<close> says what stays true.
\<close>

definition demo_system ::
    "('kp, 'pk, 'b, 'tok) crates \<Rightarrow> ('w, 'kp) os \<Rightarrow> (string \<Rightarrow> json option) \<Rightarrow> datetime \<Rightarrow> datetime \<Rightarrow> datetime
      \<Rightarrow> string \<Rightarrow> ('w \<Rightarrow> bool) \<Rightarrow> bool" where
  "demo_system c os tree lo hi start note I \<longleftrightarrow>
     steady os lo hi start demo_permissions I \<and> start + 125000000000 \<le> hi
   \<and> (\<forall>(file, j) \<in> {(''demo/examples/basic-manifest.json'', basic_manifest_json),
                   (''demo/examples/clean-calls.json'', clean_calls_json),
                   (''demo/examples/injected-calls.json'', injected_calls_json)}.
        \<forall>v. I v \<longrightarrow> (\<exists>text v'. os_read_to_string os v file = (Ok text, v') \<and> tree text = Some j \<and> I v'))
   \<and> (\<forall>v. I v \<longrightarrow>
        fst (os_read_to_string os v ''/tmp/warden-demo-fixture/in_scope.txt'') = Ok (''hello from fixture'' @ newline)
      \<and> fst (os_read_to_string os v ''/tmp/warden-demo-fixture/AGENT_NOTE.md'') = Ok note
      \<and> fst (os_write os v ''/tmp/warden-demo-fixture/src/fix.py'' patch_text) = Ok ()
      \<and> (\<exists>out v'. os_command_output os v ''echo'' [''tests would pass here''] = (Ok out, v') \<and> out_status out = Some 0))"

text \<open>Without enforcement the canary is readable, the sink listens, and no call of the feed breaks \<open>I\<close>.\<close>

definition exposed_system :: "('w, 'kp) os \<Rightarrow> ('w \<Rightarrow> bool) \<Rightarrow> bool" where
  "exposed_system os I \<longleftrightarrow>
     (\<forall>v call r v'. I v \<longrightarrow> call \<in> set injected_feed \<longrightarrow> execute os call v = (r, v') \<longrightarrow> I v')
   \<and> (\<forall>v. I v \<longrightarrow>
        fst (os_read_to_string os v ''/tmp/warden-secret-canary.txt'') = Ok (''TOPSECRET-CANARY'' @ newline)
      \<and> (\<exists>stream v'. os_tcp_connect os v ''127.0.0.1'' 9999 = (Ok stream, v')
           \<and> fst (os_tcp_write_all os v' stream ''exfiltrating secret'') = Ok ()))"

lemma demo_systemD:
  assumes "demo_system c os tree lo hi start note I"
  shows "steady os lo hi start demo_permissions I" "start + 125000000000 \<le> hi"
    and "I v \<Longrightarrow> \<exists>text v'. os_read_to_string os v ''demo/examples/basic-manifest.json'' = (Ok text, v')
      \<and> tree text = Some basic_manifest_json \<and> I v'"
    and "I v \<Longrightarrow> \<exists>text v'. os_read_to_string os v ''demo/examples/clean-calls.json'' = (Ok text, v')
      \<and> tree text = Some clean_calls_json \<and> I v'"
    and "I v \<Longrightarrow> \<exists>text v'. os_read_to_string os v ''demo/examples/injected-calls.json'' = (Ok text, v')
      \<and> tree text = Some injected_calls_json \<and> I v'"
    and "I v \<Longrightarrow> fst (execute os in_scope_read v) = Ok (ReadOutput (''hello from fixture'' @ newline))"
    and "I v \<Longrightarrow> fst (execute os note_read v) = Ok (ReadOutput note)"
    and "I v \<Longrightarrow> fst (execute os fix_write v) = Ok (WriteOutput (length patch_text))"
    and "I v \<Longrightarrow> \<exists>out err. fst (execute os echo_exec v) = Ok (ExecOutput (Some 0) out err)"
proof -
  note sys = assms [unfolded demo_system_def]
  show "steady os lo hi start demo_permissions I" "start + 125000000000 \<le> hi" using sys by blast+
  show "I v \<Longrightarrow> \<exists>text v'. os_read_to_string os v ''demo/examples/basic-manifest.json'' = (Ok text, v')
      \<and> tree text = Some basic_manifest_json \<and> I v'"
    "I v \<Longrightarrow> \<exists>text v'. os_read_to_string os v ''demo/examples/clean-calls.json'' = (Ok text, v')
      \<and> tree text = Some clean_calls_json \<and> I v'"
    "I v \<Longrightarrow> \<exists>text v'. os_read_to_string os v ''demo/examples/injected-calls.json'' = (Ok text, v')
      \<and> tree text = Some injected_calls_json \<and> I v'"
    using sys by auto
  show "I v \<Longrightarrow> fst (execute os in_scope_read v) = Ok (ReadOutput (''hello from fixture'' @ newline))"
    "I v \<Longrightarrow> fst (execute os note_read v) = Ok (ReadOutput note)"
    "I v \<Longrightarrow> fst (execute os fix_write v) = Ok (WriteOutput (length patch_text))"
    using sys unfolding demo_calls by (simp_all add: execute_answers)
  assume "I v"
  with sys obtain out v' where "os_command_output os v ''echo'' [''tests would pass here''] = (Ok out, v')" "out_status out = Some 0"
    by auto
  then show "\<exists>out err. fst (execute os echo_exec v) = Ok (ExecOutput (Some 0) out err)"
    by (simp add: echo_exec_def execute_def io_bind_def io_map_err_def io_lift_def)
qed

lemma exposed_systemD:
  assumes "exposed_system os I"
  shows "I v \<Longrightarrow> call \<in> set injected_feed \<Longrightarrow> execute os call v = (r, v') \<Longrightarrow> I v'"
    and "I v \<Longrightarrow> fst (execute os canary_read v) = Ok (ReadOutput (''TOPSECRET-CANARY'' @ newline))"
    and "I v \<Longrightarrow> fst (execute os exfiltration v) = Ok (NetworkOutput (length ''exfiltrating secret''))"
proof -
  note sys = assms [unfolded exposed_system_def]
  show "I v \<Longrightarrow> call \<in> set injected_feed \<Longrightarrow> execute os call v = (r, v') \<Longrightarrow> I v'" using sys by blast
  show "I v \<Longrightarrow> fst (execute os canary_read v) = Ok (ReadOutput (''TOPSECRET-CANARY'' @ newline))"
    using sys unfolding demo_calls by (simp add: execute_answers)
  assume "I v"
  with sys obtain stream v' where s: "os_tcp_connect os v ''127.0.0.1'' 9999 = (Ok stream, v')"
      "fst (os_tcp_write_all os v' stream ''exfiltrating secret'') = Ok ()"
    by auto
  then show "fst (execute os exfiltration v) = Ok (NetworkOutput (length ''exfiltrating secret''))"
    by (cases "os_tcp_write_all os v' stream ''exfiltrating secret''")
      (simp add: exfiltration_def execute_def io_bind_def io_map_err_def io_lift_def)
qed

section \<open>The answers\<close>

definition clean_answers :: "(string \<times> audit_event) list" where
  "clean_answers =
     [(''[ALLOW] fs_read  read 19 bytes'', ToolAllowed ''fs_read''),
      (''[ALLOW] fs_write wrote 19 bytes'', ToolAllowed ''fs_write''),
      (''[ALLOW] exec     exec status=Some(0)'', ToolAllowed ''exec'')]"

definition protected_answers :: "string \<Rightarrow> (string \<times> audit_event) list" where
  "protected_answers note =
     [(''[ALLOW] fs_read  read 19 bytes'', ToolAllowed ''fs_read''),
      (''[ALLOW] fs_read  read '' @ show_nat (length note) @ '' bytes'', ToolAllowed ''fs_read''),
      (''[DENY ] fs_read  read path is outside capability scope'',
         ToolDenied ''fs_read'' ''read path is outside capability scope''),
      (''[ALLOW] fs_write wrote 19 bytes'', ToolAllowed ''fs_write''),
      (''[ALLOW] exec     exec status=Some(0)'', ToolAllowed ''exec''),
      (''[DENY ] network  network policy denies all egress'', ToolDenied ''network'' ''network policy denies all egress'')]"

definition vulnerable_answers :: "string \<Rightarrow> (string \<times> audit_event) list" where
  "vulnerable_answers note =
     [(''[ALLOW] fs_read  read 19 bytes'', ToolAllowed ''fs_read''),
      (''[ALLOW] fs_read  read '' @ show_nat (length note) @ '' bytes'', ToolAllowed ''fs_read''),
      (''[ALLOW] fs_read  read 17 bytes'', ToolAllowed ''fs_read''),
      (''[ALLOW] fs_write wrote 19 bytes'', ToolAllowed ''fs_write''),
      (''[ALLOW] exec     exec status=Some(0)'', ToolAllowed ''exec''),
      (''[ALLOW] network  sent 19 bytes'', ToolAllowed ''network'')]"

lemma answer_lines:
  "answer_of in_scope_read (Allowed (ReadOutput (''hello from fixture'' @ newline)))
     = (''[ALLOW] fs_read  read 19 bytes'', ToolAllowed ''fs_read'')"
  "answer_of canary_read (Denied ''read path is outside capability scope'')
     = (''[DENY ] fs_read  read path is outside capability scope'',
        ToolDenied ''fs_read'' ''read path is outside capability scope'')"
  "answer_of canary_read (Allowed (ReadOutput (''TOPSECRET-CANARY'' @ newline)))
     = (''[ALLOW] fs_read  read 17 bytes'', ToolAllowed ''fs_read'')"
  "answer_of fix_write (Allowed (WriteOutput (length patch_text)))
     = (''[ALLOW] fs_write wrote 19 bytes'', ToolAllowed ''fs_write'')"
  "answer_of exfiltration (Denied ''network policy denies all egress'')
     = (''[DENY ] network  network policy denies all egress'', ToolDenied ''network'' ''network policy denies all egress'')"
  "answer_of exfiltration (Allowed (NetworkOutput (length ''exfiltrating secret'')))
     = (''[ALLOW] network  sent 19 bytes'', ToolAllowed ''network'')"
  by code_simp+

lemma answer_lines_open:
  "answer_of note_read (Allowed (ReadOutput note))
     = (''[ALLOW] fs_read  read '' @ show_nat (length note) @ '' bytes'', ToolAllowed ''fs_read'')"
  "answer_of echo_exec (Allowed (ExecOutput (Some 0) out err)) = (''[ALLOW] exec     exec status=Some(0)'', ToolAllowed ''exec'')"
proof -
  have "pad8 ''fs_read'' = ''fs_read ''" by code_simp
  then show "answer_of note_read (Allowed (ReadOutput note))
     = (''[ALLOW] fs_read  read '' @ show_nat (length note) @ '' bytes'', ToolAllowed ''fs_read'')"
    by (simp add: answer_of_def note_read_def print_outcome_def describe_output_def outcome_event_def)
  have "pad8 ''exec'' = ''exec    ''" "debug_status (Some 0) = ''Some(0)''" by code_simp+
  then show "answer_of echo_exec (Allowed (ExecOutput (Some 0) out err))
     = (''[ALLOW] exec     exec status=Some(0)'', ToolAllowed ''exec'')"
    by (simp add: answer_of_def echo_exec_def print_outcome_def describe_output_def outcome_event_def)
qed

text \<open>Each call has one answer from the monitor.\<close>

lemma monitored_answer:
  assumes sys: "demo_system c os tree lo hi start note I" and step: "monitor_step os demo_permissions call v d v'" "I v"
  shows "I v'"
    and "call = in_scope_read \<Longrightarrow> answer_of call d = (''[ALLOW] fs_read  read 19 bytes'', ToolAllowed ''fs_read'')"
    and "call = note_read \<Longrightarrow> answer_of call d
      = (''[ALLOW] fs_read  read '' @ show_nat (length note) @ '' bytes'', ToolAllowed ''fs_read'')"
    and "call = canary_read \<Longrightarrow> answer_of call d = (''[DENY ] fs_read  read path is outside capability scope'',
      ToolDenied ''fs_read'' ''read path is outside capability scope'')"
    and "call = fix_write \<Longrightarrow> answer_of call d = (''[ALLOW] fs_write wrote 19 bytes'', ToolAllowed ''fs_write'')"
    and "call = echo_exec \<Longrightarrow> answer_of call d = (''[ALLOW] exec     exec status=Some(0)'', ToolAllowed ''exec'')"
    and "call = exfiltration \<Longrightarrow> answer_of call d = (''[DENY ] network  network policy denies all egress'',
      ToolDenied ''network'' ''network policy denies all egress'')"
proof -
  note st = demo_systemD(1) [OF sys] and ops = demo_systemD(6-9) [OF sys]
  note performed = steady_performed [OF st step] and refused = steady_refused [OF st step]
  show "I v'" by (rule steady_step(1) [OF st step])
  show "answer_of call d = (''[ALLOW] fs_read  read 19 bytes'', ToolAllowed ''fs_read'')" if "call = in_scope_read"
    using performed [where R = "\<lambda>out. out = ReadOutput (''hello from fixture'' @ newline)"] feed_decisions(1) ops(1)
      answer_lines(1) that by auto
  show "answer_of call d = (''[ALLOW] fs_read  read '' @ show_nat (length note) @ '' bytes'', ToolAllowed ''fs_read'')"
    if "call = note_read"
    using performed [where R = "\<lambda>out. out = ReadOutput note"] feed_decisions(2) ops(2) answer_lines_open(1) that by auto
  show "answer_of call d = (''[DENY ] fs_read  read path is outside capability scope'',
      ToolDenied ''fs_read'' ''read path is outside capability scope'')" if "call = canary_read"
    using refused feed_decisions(3) answer_lines(2) that by auto
  show "answer_of call d = (''[ALLOW] fs_write wrote 19 bytes'', ToolAllowed ''fs_write'')" if "call = fix_write"
    using performed [where R = "\<lambda>out. out = WriteOutput (length patch_text)"] feed_decisions(4) ops(3) answer_lines(4) that
    by auto
  show "answer_of call d = (''[ALLOW] exec     exec status=Some(0)'', ToolAllowed ''exec'')" if "call = echo_exec"
    using performed [where R = "\<lambda>out. \<exists>o' e. out = ExecOutput (Some 0) o' e"] feed_decisions(5) ops(4) answer_lines_open(2) that
    by fastforce
  show "answer_of call d = (''[DENY ] network  network policy denies all egress'',
      ToolDenied ''network'' ''network policy denies all egress'')" if "call = exfiltration"
    using refused feed_decisions(6) answer_lines(5) that by auto
qed

lemma monitored_feeds:
  assumes sys: "demo_system c os tree lo hi start note I" and I: "I w"
  shows "monitor os demo_permissions clean_feed w ds w' \<Longrightarrow> map2 answer_of clean_feed ds = clean_answers \<and> I w'"
    and "monitor os demo_permissions injected_feed w ds w' \<Longrightarrow>
      map2 answer_of injected_feed ds = protected_answers note \<and> I w'"
proof -
  note kept = monitored_answer(1) [OF sys] and answer = monitored_answer(2-7) [OF sys _ _ refl]
  have one: "\<forall>v d v'. I v \<longrightarrow> monitor_step os demo_permissions call v d v' \<longrightarrow> I v' \<and> answer_of call d = a"
    if "\<And>v d v'. monitor_step os demo_permissions call v d v' \<Longrightarrow> I v \<Longrightarrow> answer_of call d = a" for call a
    using that kept by blast
  note all = one [OF answer(1)] one [OF answer(2)] one [OF answer(3)] one [OF answer(4)] one [OF answer(5)] one [OF answer(6)]
  have "list_all2 (\<lambda>call a. \<forall>v d v'. I v \<longrightarrow> monitor_step os demo_permissions call v d v' \<longrightarrow>
      I v' \<and> answer_of call d = a) clean_feed clean_answers"
    unfolding clean_feed_def clean_answers_def by (intro list_all2_Cons [THEN iffD2] conjI all list_all2_Nil [THEN iffD2] refl)
  then show "monitor os demo_permissions clean_feed w ds w' \<Longrightarrow> map2 answer_of clean_feed ds = clean_answers \<and> I w'"
    using monitor_answers [where I = I, OF _ _ I] by blast
  have "list_all2 (\<lambda>call a. \<forall>v d v'. I v \<longrightarrow> monitor_step os demo_permissions call v d v' \<longrightarrow>
      I v' \<and> answer_of call d = a) injected_feed (protected_answers note)"
    unfolding injected_feed_def protected_answers_def by (intro list_all2_Cons [THEN iffD2] conjI all list_all2_Nil [THEN iffD2] refl)
  then show "monitor os demo_permissions injected_feed w ds w' \<Longrightarrow>
      map2 answer_of injected_feed ds = protected_answers note \<and> I w'"
    using monitor_answers [where I = I, OF _ _ I] by blast
qed

text \<open>Executed, each call has one answer too.\<close>

lemma ambient_feed:
  assumes sys: "demo_system c os tree lo hi start note I" and exposed: "exposed_system os I" and I: "I w"
    and run: "ambient os injected_feed w ds w'"
  shows "map2 answer_of injected_feed ds = vulnerable_answers note \<and> I w'"
proof (rule ambient_answers [where I = I, OF run _ I steady_draws [OF demo_systemD(1) [OF sys]]])
  have answered: "\<exists>out v'. execute os call v = (Ok out, v') \<and> I v' \<and> answer_of call (Allowed out) = a"
    if "I v" "call \<in> set injected_feed" "fst (execute os call v) = Ok out" "answer_of call (Allowed out) = a" for call v out a
    using that exposed_systemD(1) [OF exposed that(1,2)] by (cases "execute os call v") auto
  note ops = demo_systemD(6-9) [OF sys] and more = exposed_systemD(2,3) [OF exposed]
  have "\<forall>v. I v \<longrightarrow> (\<exists>out v'. execute os echo_exec v = (Ok out, v') \<and> I v'
      \<and> answer_of echo_exec (Allowed out) = (''[ALLOW] exec     exec status=Some(0)'', ToolAllowed ''exec''))"
    using ops(4) answered answer_lines_open(2) by (fastforce simp: injected_feed_def)
  then show "list_all2 (\<lambda>call a. \<forall>v. I v \<longrightarrow> (\<exists>out v'. execute os call v = (Ok out, v') \<and> I v'
      \<and> answer_of call (Allowed out) = a)) injected_feed (vulnerable_answers note)"
    using answered [OF _ _ ops(1) answer_lines(1)] answered [OF _ _ ops(2) answer_lines_open(1)]
      answered [OF _ _ more(1) answer_lines(3)] answered [OF _ _ ops(3) answer_lines(4)]
      answered [OF _ _ more(2) answer_lines(6)]
    by (simp add: injected_feed_def vulnerable_answers_def)
qed

section \<open>The program on the files\<close>

text \<open>The agent as a process: what its command gives it, and what it inherits.\<close>

definition agent_process ::
    "('kp, 'pk, 'b, 'tok) crates \<Rightarrow> ('w, 'kp) os \<Rightarrow> 'r http \<Rightarrow> (string \<Rightarrow> json option) \<Rightarrow> environment \<Rightarrow> 'r
      \<Rightarrow> command \<Rightarrow> 'w \<Rightarrow> exit \<times> string list \<times> 'w" where
  "agent_process c os h tree inherited r cmd =
     (let removed = set (cmd_env_removed cmd);
          kept = (\<lambda>name v. if name \<in> removed then None else v) in
      agent_main c os h (from_text tree (read_manifest c)) (from_text tree (read_vec read_call))
        \<lparr>env_authz = map_of (cmd_env cmd) ''AUTHZ'', env_base_url = kept ''BASE_URL'' (env_base_url inherited),
         env_model = kept ''MODEL'' (env_model inherited), env_api_key = kept ''API_KEY'' (env_api_key inherited)\<rparr>
        (cmd_program cmd # cmd_args cmd) r)"

lemma load_text:
  assumes "os_read_to_string os w p = (Ok text, w')" "tree text = Some j" "rd j = Some x"
  shows "load os (from_text tree rd) p a b w = (Ok x, w')"
  using assms by (simp add: load_def from_text_def io_bind_def io_map_err_def io_lift_def)

lemma agent_scripted:
  assumes "load os pm mf ''reading manifest'' ''parsing manifest json'' w = (Ok m, w1)"
    and "new_orchestrator c os m (mode_of_env env) w1 = (Ok self, w2)"
    and "load os pc cf ''reading calls'' ''parsing calls json'' w2 = (Ok calls, w3)"
    and "run c os calls (self, w3) = (Ok outs, self', w')"
  shows "agent_main c os h pm pc env [prog, mf, cf] r w
    = (Returned, (''AUTHZ = '' @ show_mode (o_mode self) @ newline) # report c outs self', w')"
  using assms by (simp add: agent_main_def run_feed_def run_scripted_feed_def)

text \<open>The agent gets as far as its feed, whatever the mode.\<close>

lemma demo_started:
  assumes crates: "test_crates c facts root_of lo hi" and sys: "demo_system c os tree lo hi start note I"
    and u: "uuid_parse_str c ''00000000-0000-0000-0000-000000000001'' = Some u" and I: "I w"
    and calls: "\<And>v. I v \<Longrightarrow> \<exists>text v'. os_read_to_string os v cf = (Ok text, v') \<and> tree text = Some j \<and> I v'"
      "read_vec read_call j = Some calls"
  obtains self w3 where "I w3" "authorized c start demo_permissions self" "o_mode self = from_env_value authz"
    "o_task_id self = u" "map ae_event (o_audit_log self) = [RootMinted u]"
    "\<forall>outs self' w'. run c os calls (self, w3) = (Ok outs, self', w') \<longrightarrow>
      agent_process c os h tree inherited r (agent_command False cf authz) w
        = (Returned, (''AUTHZ = '' @ show_mode (o_mode self) @ newline) # report c outs self', w')"
proof -
  obtain tm w1 where tm: "os_read_to_string os w ''demo/examples/basic-manifest.json'' = (Ok tm, w1)"
      "tree tm = Some basic_manifest_json" "I w1"
    using demo_systemD(3) [OF sys I] by blast
  note load_manifest = load_text [where tree = tree and rd = "read_manifest c", OF tm(1,2) manifest_file_read [OF u]]
  have ttl: "start + (5 + int (unat (tm_ttl_seconds (demo_manifest u)))) * 1000000000 \<le> hi"
    using demo_systemD(2) [OF sys] by (simp add: demo_manifest_def)
  obtain self w2 where self: "new_orchestrator c os (demo_manifest u) (from_env_value authz) w1 = (Ok self, w2)" "I w2"
      "authorized c start demo_permissions self" "o_mode self = from_env_value authz"
      "o_task_id self = tm_task_id (demo_manifest u)" "map ae_event (o_audit_log self) = [RootMinted (tm_task_id (demo_manifest u))]"
    by (rule steady_start [OF crates demo_systemD(1) [OF sys] tm(3) demo_manifest_made ttl])
  obtain tc w3 where tc: "os_read_to_string os w2 cf = (Ok tc, w3)" "tree tc = Some j" "I w3"
    using calls(1) [OF self(2)] by blast
  note load_calls = load_text [where tree = tree and rd = "read_vec read_call", OF tc(1,2) calls(2)]
  let ?env = "\<lparr>env_authz = Some authz, env_base_url = None, env_model = None, env_api_key = None\<rparr>"
  have process: "agent_process c os h tree inherited r (agent_command False cf authz) w
      = agent_main c os h (from_text tree (read_manifest c)) (from_text tree (read_vec read_call)) ?env
          [''target/debug/warden-agent'', ''demo/examples/basic-manifest.json'', cf] r w"
    by (simp add: agent_process_def agent_command_def build_args_def Let_def)
  have task: "tm_task_id (demo_manifest u) = u" by (simp add: demo_manifest_def)
  have "new_orchestrator c os (demo_manifest u) (mode_of_env ?env) w1 = (Ok self, w2)"
    using self(1) by (simp add: mode_of_env_def)
  note main = agent_scripted [OF load_manifest this load_calls]
  show thesis
    by (rule that [OF tc(3) self(3,4)]) (simp_all add: self(5,6) task process, intro allI impI, erule main [unfolded append_Cons append_Nil])
qed

text \<open>The report of a run is that of its answers.\<close>

lemma report_of_answers:
  assumes "map ae_event (o_audit_log self) = [RootMinted u]" "logged c evs self self'"
  shows "report c outs self' = map fst (answers_of outs) @ audit_header (1 + length evs)
    # map (show_event c) (RootMinted u # evs)"
proof -
  have "map ae_event (o_audit_log self') = RootMinted u # evs" using assms by (auto simp: logged_def)
  then show ?thesis by (simp add: report_def audit_report_events answers_of_simps(1))
qed

lemma protected_run:
  assumes crates: "test_crates c facts root_of lo hi" and sys: "demo_system c os tree lo hi start note I"
    and u: "uuid_parse_str c ''00000000-0000-0000-0000-000000000001'' = Some u" and I: "I w"
    and calls: "\<And>v. I v \<Longrightarrow> \<exists>text v'. os_read_to_string os v cf = (Ok text, v') \<and> tree text = Some j \<and> I v'"
      "read_vec read_call j = Some calls"
    and answers: "\<And>v ds v'. I v \<Longrightarrow> monitor os demo_permissions calls v ds v' \<Longrightarrow> map2 answer_of calls ds = as \<and> I v'"
  shows "\<exists>w'. agent_process c os h tree inherited r (agent_command False cf ''on'') w
    = (Returned, protected_lines c u as, w') \<and> I w'"
proof -
  obtain self w3 where self: "I w3" "authorized c start demo_permissions self" "o_mode self = from_env_value ''on''"
    "o_task_id self = u" "map ae_event (o_audit_log self) = [RootMinted u]"
    "\<forall>outs self' w'. run c os calls (self, w3) = (Ok outs, self', w') \<longrightarrow>
      agent_process c os h tree inherited r (agent_command False cf ''on'') w
        = (Returned, (''AUTHZ = '' @ show_mode (o_mode self) @ newline) # report c outs self', w')"
    by (rule demo_started [where authz = "''on''" and h = h and inherited = inherited and r = r, OF crates sys u I calls])
  have on: "from_env_value ''on'' = Enforced" by code_simp
  obtain outs self' w' where run: "run c os calls (self, w3) = (Ok outs, self', w')" "map so_call outs = calls"
      "monitor os demo_permissions calls w3 (map so_decision outs) w'" "logged c (run_log (o_task_id self) outs) self self'"
    by (rule steady_run [OF crates demo_systemD(1) [OF sys] self(1) demo_manifest_made self(2) self(3) [unfolded on]])
  have as: "answers_of outs = as" "I w'"
    using answers [OF self(1) run(3)] answers_of_run [OF run(2)] by simp_all
  have "length (run_log u outs) = 2 * length as" using as(1) by (auto simp: run_log_length answers_of_def)
  with self(6) run(1) report_of_answers [OF self(5) run(4)] show ?thesis
    using as by (simp add: self(3,4) on show_mode_def protected_lines_def answers_of_simps(2))
qed

lemma vulnerable_run:
  assumes crates: "test_crates c facts root_of lo hi" and sys: "demo_system c os tree lo hi start note I"
    and exposed: "exposed_system os I"
    and u: "uuid_parse_str c ''00000000-0000-0000-0000-000000000001'' = Some u" and I: "I w"
  shows "\<exists>w'. agent_process c os h tree inherited r (agent_command False injected_calls ''off'') w
    = (Returned, vulnerable_lines c u (vulnerable_answers note), w') \<and> I w'"
proof -
  have reads: "\<exists>text v'. os_read_to_string os v injected_calls = (Ok text, v') \<and> tree text = Some injected_calls_json \<and> I v'"
    if "I v" for v
    using demo_systemD(5) [OF sys that] by (simp add: injected_calls_def)
  obtain self w3 where self: "I w3" "o_mode self = from_env_value ''off''" "map ae_event (o_audit_log self) = [RootMinted u]"
    "\<forall>outs self' w'. run c os injected_feed (self, w3) = (Ok outs, self', w') \<longrightarrow>
      agent_process c os h tree inherited r (agent_command False injected_calls ''off'') w
        = (Returned, (''AUTHZ = '' @ show_mode (o_mode self) @ newline) # report c outs self', w')"
    by (rule demo_started [where authz = "''off''" and h = h and inherited = inherited and r = r, OF crates sys u I reads call_files_read(2)])
  have off: "from_env_value ''off'' = Bypassed" by code_simp
  obtain outs self' w' where run: "run c os injected_feed (self, w3) = (Ok outs, self', w')" "map so_call outs = injected_feed"
      "ambient os injected_feed w3 (map so_decision outs) w'"
      "logged c (map (\<lambda>out. outcome_event (so_call out) (so_decision out)) outs) self self'"
    using run_ambient [OF steadyD(3) [OF demo_systemD(1) [OF sys]] self(2) [unfolded off]] by metis
  have as: "answers_of outs = vulnerable_answers note" "I w'"
    using ambient_feed [OF sys exposed self(1) run(3)] answers_of_run [OF run(2)] by simp_all
  have "length outs = length (vulnerable_answers note)" unfolding as(1) [symmetric] by (simp add: answers_of_def)
  with self(4) run(1) report_of_answers [OF self(3) run(4)] show ?thesis
    using as by (simp add: self(2) off show_mode_def vulnerable_lines_def answers_of_simps(3))
qed

end
