(* ===== verification/Demo_Contrast.thy ===== *)
theory Demo_Contrast
  imports Demo_Runs
begin

text \<open>
  The whole contrast of the demo: the fixture is set up, the agent is started three times on the
  example files, and the summary is drawn from what it printed.  Both programs are the ones
  modelled; the text the contrast prints is determined to the last line.
\<close>

section \<open>The printed lines as text\<close>

lemma utf8_valid_append: "utf8_valid a \<Longrightarrow> utf8_valid b \<Longrightarrow> utf8_valid (a @ b)"
proof (induction a rule: utf8_valid.induct)
  case (1 a)
  show ?case
  proof (cases "a = []")
    case False
    then have next_ok: "snd (utf8_next a)" and rest: "utf8_valid (drop (fst (utf8_next a)) a)"
      using "1.prems"(1) by (simp_all add: utf8_valid.simps [of a] split: if_splits)
    let ?x = "take (fst (utf8_next a)) a" and ?y = "drop (fst (utf8_next a)) a"
    have "?x \<noteq> []" using False utf8_next_pos [OF False] by simp
    moreover have "utf8_next (?x @ t) = (length ?x, True)" for t
      using utf8_next_take [OF False next_ok, of t] next_ok by (metis prod.collapse)
    ultimately have "utf8_valid (?x @ (?y @ b)) = utf8_valid (?y @ b)" by (rule utf8_valid_step)
    moreover have "utf8_valid (?y @ b)" using "1.IH" [OF False next_ok rest] "1.prems"(2) by simp
    ultimately show ?thesis by (simp flip: append_assoc)
  qed (use "1.prems" in simp)
qed

lemma utf8_valid_lines: "\<forall>l \<in> set ls. utf8_valid l \<Longrightarrow> utf8_valid (lines_text ls)"
proof (induction ls)
  case (Cons l ls)
  have "utf8_valid newline" by code_simp
  with Cons show ?case by (simp add: lines_text_def utf8_valid_append)
qed (simp add: lines_text_def)

lemma ascii_append [simp]: "ascii (a @ b) \<longleftrightarrow> ascii a \<and> ascii b"
  by (simp add: ascii_def)

lemma show_nat_ascii: "ascii (show_nat n)"
  using show_nat_chars by (fastforce simp: ascii_def list_all_iff)

lemma uuid_ascii: "uuid_text c \<Longrightarrow> ascii (uuid_to_string c u)"
proof -
  assume "uuid_text c"
  then have "set (uuid_to_string c u) \<subseteq> set ''0123456789abcdef-''" by (simp add: uuid_text_def)
  moreover have "list_all (\<lambda>x. (of_char x :: nat) < 128) ''0123456789abcdef-''" by code_simp
  ultimately show ?thesis by (auto simp only: ascii_def list_all_iff)
qed

text \<open>The events of the runs, and the texts they print.\<close>

definition plain_answer :: "string \<times> audit_event \<Rightarrow> bool" where
  "plain_answer a \<longleftrightarrow>
     utf8_valid (fst a) \<and> (case snd a of
        ToolAllowed name \<Rightarrow> utf8_valid (''ALLOWED       '' @ name)
      | ToolDenied name reason \<Rightarrow>
          utf8_valid (''DENIED        '' @ name @ ''  '' @ [CHR 0xE2, CHR 0x80, CHR 0x94] @ '' '' @ reason)
      | _ \<Rightarrow> False)"

lemma number_line_valid: "utf8_valid (''[ALLOW] fs_read  read '' @ show_nat n @ '' bytes'')"
proof -
  have "ascii ''[ALLOW] fs_read  read ''" "ascii '' bytes''" by code_simp+
  then show ?thesis by (intro ascii_utf8_valid) (simp only: ascii_append show_nat_ascii)
qed

lemma answers_plain:
  "list_all plain_answer clean_answers" "list_all plain_answer (protected_answers note)"
  "list_all plain_answer (vulnerable_answers note)"
proof -
  have rest: "list_all plain_answer
     [(''[ALLOW] fs_read  read 19 bytes'', ToolAllowed ''fs_read''), (''[ALLOW] fs_read  read 17 bytes'', ToolAllowed ''fs_read''),
      (''[ALLOW] fs_write wrote 19 bytes'', ToolAllowed ''fs_write''),
      (''[ALLOW] exec     exec status=Some(0)'', ToolAllowed ''exec''), (''[ALLOW] network  sent 19 bytes'', ToolAllowed ''network''),
      (''[DENY ] fs_read  read path is outside capability scope'',
         ToolDenied ''fs_read'' ''read path is outside capability scope''),
      (''[DENY ] network  network policy denies all egress'', ToolDenied ''network'' ''network policy denies all egress'')]"
    by code_simp
  have "utf8_valid (''ALLOWED       '' @ ''fs_read'')" by code_simp
  then have note_line: "plain_answer (''[ALLOW] fs_read  read '' @ show_nat (length note) @ '' bytes'', ToolAllowed ''fs_read'')"
    using number_line_valid [of "length note"] by (simp only: plain_answer_def fst_conv snd_conv audit_event.case)
  show "list_all plain_answer clean_answers" "list_all plain_answer (protected_answers note)"
    "list_all plain_answer (vulnerable_answers note)"
    unfolding clean_answers_def protected_answers_def vulnerable_answers_def
    using rest note_line by (simp_all only: list.pred_inject simp_thms)
qed

lemma printed_valid:
  assumes ids: "uuid_text c" and as: "list_all plain_answer as"
  shows "utf8_valid (lines_text (protected_lines c u as))" "utf8_valid (lines_text (vulnerable_lines c u as))"
proof -
  have head: "utf8_valid (''AUTHZ = Enforced'' @ newline)" "utf8_valid (''AUTHZ = Bypassed'' @ newline)" by code_simp+
  have "ascii (newline @ ''--- audit log ('')" "ascii '' entries) ---''" by code_simp+
  then have audit: "utf8_valid (audit_header n)" for n
    by (intro ascii_utf8_valid) (simp only: audit_header_def ascii_append show_nat_ascii simp_thms)
  have "ascii ''ROOT MINTED   task=''" "ascii ''ATTENUATED    task=''" by code_simp+
  then have ids': "utf8_valid (show_event c (RootMinted u))" "utf8_valid (show_event c (CapabilityAttenuated u))"
    by (intro ascii_utf8_valid; simp only: show_event.simps ascii_append uuid_ascii [OF ids] simp_thms)+
  have event: "utf8_valid (fst a) \<and> utf8_valid (show_event c (snd a))" if "a \<in> set as" for a
    using that as by (cases "snd a") (auto simp: list_all_iff plain_answer_def)
  show "utf8_valid (lines_text (protected_lines c u as))" "utf8_valid (lines_text (vulnerable_lines c u as))"
    unfolding protected_lines_def vulnerable_lines_def
    by (rule utf8_valid_lines, use head audit ids' event in \<open>auto simp del: show_event.simps\<close>)+
qed

section \<open>The verdicts\<close>

lemma contains_append: "contains a pat \<Longrightarrow> contains (a @ b) pat" "contains b pat \<Longrightarrow> contains (a @ b) pat"
  unfolding contains_def by (meson sublist_append_leftI sublist_append_rightI sublist_order.order.trans)+

lemma contains_self: "contains s s"
  by (simp add: contains_def)

text \<open>The vulnerable run looks like no denial.\<close>

lemma vulnerable_quiet:
  assumes ids: "uuid_text c"
  shows "\<not> contains (lines_text (vulnerable_lines c u (vulnerable_answers note))) ''[DENY''"
proof -
  have fixed: "quiet (''AUTHZ = Bypassed'' @ newline)" "quiet (audit_header n)" for n
    by (code_simp, unfold audit_header_def, rule audit_header_quiet)
  have "quiet (fst a) \<and> quiet (show_event c (snd a))" if "a \<in> set (vulnerable_answers note)" for a
  proof -
    have "list_all (\<lambda>l. quiet (CHR ''['' # l)) [''ALLOW] fs_read  read 19 bytes'',
        ''ALLOW] fs_read  read 17 bytes'', ''ALLOW] fs_write wrote 19 bytes'', ''ALLOW] exec     exec status=Some(0)'',
        ''ALLOW] network  sent 19 bytes'']"
      unfolding list.pred_inject by (intro conjI bracket_quiet not_ATTENUATED TrueI) code_simp+
    moreover have "quiet (CHR ''['' # ''ALLOW] fs_read  read '' @ show_nat (length note) @ '' bytes'')"
      by (rule bracket_quiet) (simp_all add: not_ATTENUATED)
    moreover have "baseline_event (ToolAllowed ''fs_read'')" "baseline_event (ToolAllowed ''fs_write'')"
        "baseline_event (ToolAllowed ''exec'')" "baseline_event (ToolAllowed ''network'')"
      by (simp_all add: baseline_event_def)
    ultimately show ?thesis
      using that baseline_event_quiet [OF ids] by (auto simp: vulnerable_answers_def simp del: show_event.simps)
  qed
  moreover have "quiet (show_event c (RootMinted u))"
    by (rule baseline_event_quiet [OF ids]) (simp add: baseline_event_def)
  ultimately have "\<forall>l \<in> set (vulnerable_lines c u (vulnerable_answers note)). quiet l"
    using fixed by (auto simp: vulnerable_lines_def simp del: show_event.simps)
  then show ?thesis by (auto simp: contains_lines quiet_def)
qed

text \<open>The protected run shows its attenuations and its two denials, and no refused binary.\<close>

lemma protected_shows:
  fixes memo :: string and u :: uuid
  assumes ids: "uuid_text c"
  defines "text \<equiv> lines_text (protected_lines c u (protected_answers memo))"
  shows "contains text ''read path is outside capability scope''" "contains text ''network policy denies all egress''"
    "contains text ''ATTENUATED''" "\<not> contains text ''binary is outside capability exec allowlist''"
proof -
  have line: "contains text pat" if "l \<in> set (protected_lines c u (protected_answers memo))" "contains l pat"
      "CHR 0x0A \<notin> set pat" "pat \<noteq> []" for l pat
    using that by (auto simp: text_def contains_lines)
  have lines: "''[DENY ] fs_read  read path is outside capability scope'' \<in> set (protected_lines c u (protected_answers memo))"
      "''[DENY ] network  network policy denies all egress'' \<in> set (protected_lines c u (protected_answers memo))"
      "show_event c (CapabilityAttenuated u) \<in> set (protected_lines c u (protected_answers memo))"
    by (simp_all only: protected_lines_def protected_answers_def list.map fst_conv snd_conv list.set set_append concat.simps
        append_Cons append_Nil Un_iff insert_iff simp_thms)
  show "contains text ''read path is outside capability scope''"
    by (rule line [OF lines(1)]) code_simp+
  show "contains text ''network policy denies all egress''"
    by (rule line [OF lines(2)]) code_simp+
  show "contains text ''ATTENUATED''"
    by (rule line [OF lines(3)]) (simp_all add: contains_def prefix_def prefix_imp_sublist)
  have no_x: "\<not> contains l ''binary is outside capability exec allowlist''" if "CHR ''y'' \<notin> set l" for l
    using that by (auto dest: contains_chars [where x = "CHR ''y''"])
  have num: "CHR ''x'' \<notin> set (show_nat n)" for n using show_nat_chars [of "CHR ''x''" n] by auto
  have "CHR ''y'' \<notin> set (uuid_to_string c u)" using ids unfolding uuid_text_def by (auto dest!: spec [of _ u])
  then have ids': "\<not> contains (show_event c (RootMinted u)) ''binary is outside capability exec allowlist''"
      "\<not> contains (show_event c (CapabilityAttenuated u)) ''binary is outside capability exec allowlist''"
    by (simp_all add: no_x)
  have "\<not> contains (''[ALLOW] fs_read  read '' @ show_nat k @ '' bytes'') ''binary is outside capability exec allowlist''" for k
    by (auto simp: num dest!: contains_chars [where x = "CHR ''x''"])
  moreover have "\<not> contains (audit_header k) ''binary is outside capability exec allowlist''" for k
    by (auto simp: num audit_header_def newline_def dest!: contains_chars [where x = "CHR ''x''"])
  moreover have "list_all (\<lambda>l. \<not> contains l ''binary is outside capability exec allowlist'')
     [''AUTHZ = Enforced'' @ newline, ''[ALLOW] fs_read  read 19 bytes'', ''[DENY ] fs_read  read path is outside capability scope'',
      ''[ALLOW] fs_write wrote 19 bytes'', ''[ALLOW] exec     exec status=Some(0)'',
      ''[DENY ] network  network policy denies all egress'',
      ''ALLOWED       fs_read'', ''ALLOWED       fs_write'', ''ALLOWED       exec'',
      ''DENIED        fs_read  '' @ [CHR 0xE2, CHR 0x80, CHR 0x94] @ '' read path is outside capability scope'',
      ''DENIED        network  '' @ [CHR 0xE2, CHR 0x80, CHR 0x94] @ '' network policy denies all egress'']"
    by code_simp
  ultimately show "\<not> contains text ''binary is outside capability exec allowlist''"
    using ids'
    by (auto simp: text_def contains_lines protected_lines_def protected_answers_def simp del: show_event.simps(1,2))
qed

lemma demo_verdict:
  assumes "uuid_text c"
  shows "verdict_of (lines_text (vulnerable_lines c u (vulnerable_answers note)))
      (lines_text (protected_lines c u (protected_answers note))) sink =
    \<lparr>exfil_captured = trim sink \<noteq> [], vuln_denied_anything = False, prot_scope_denial = True,
     prot_exec_denial = False, prot_network_denial = True, prot_attenuated = True\<rparr>"
  using vulnerable_quiet [OF assms] protected_shows [OF assms] by (simp add: verdict_of_def)

section \<open>The contrast\<close>

text \<open>
  The system of the demo's command line: a command that names the agent runs it, as far as it
  returns; the logs can be written and the sink's log be removed and read; none of this breaks \<open>I\<close>.
\<close>

definition contrast_system ::
    "('kp, 'pk, 'b, 'tok) crates \<Rightarrow> ('w, 'kp) os \<Rightarrow> 'r http \<Rightarrow> (string \<Rightarrow> json option) \<Rightarrow> environment \<Rightarrow> 'r
      \<Rightarrow> 'w sys \<Rightarrow> ('w \<Rightarrow> bool) \<Rightarrow> bool" where
  "contrast_system c os h tree inherited r sys I \<longleftrightarrow>
     (\<forall>v cmd ls v'. cmd_program cmd = ''target/debug/warden-agent''
        \<longrightarrow> agent_process c os h tree inherited r cmd v = (Returned, ls, v')
        \<longrightarrow> (\<exists>out. sys_output sys v cmd = (Ok out, v') \<and> out_stdout out = lines_text ls))
   \<and> (\<forall>v. I v \<longrightarrow> fst (sys_remove_file sys v sink_log) \<noteq> Panic \<and> I (snd (sys_remove_file sys v sink_log))
        \<and> I (sys_spawn_listener sys v 9999 sink_log))
   \<and> (\<forall>v p t. I v \<longrightarrow> p \<in> {''clean.log'', ''vuln.log'', ''protected.log'', ''sink.log''} \<longrightarrow>
        (\<exists>v'. sys_write sys v p t = (Ok (), v') \<and> I v'))
   \<and> (\<forall>v. I v \<longrightarrow> (\<exists>sink v'. sys_read_to_string sys v sink_log = (Ok sink, v') \<and> I v'))"

lemma contrast_systemD:
  assumes "contrast_system c os h tree inherited r sys I"
  shows "cmd_program cmd = ''target/debug/warden-agent'' \<Longrightarrow>
      agent_process c os h tree inherited r cmd v = (Returned, ls, v') \<Longrightarrow>
      \<exists>out. sys_output sys v cmd = (Ok out, v') \<and> out_stdout out = lines_text ls"
    and "I v \<Longrightarrow> fst (sys_remove_file sys v sink_log) \<noteq> Panic \<and> I (snd (sys_remove_file sys v sink_log))"
    and "I v \<Longrightarrow> I (sys_spawn_listener sys v 9999 sink_log)"
    and "I v \<Longrightarrow> p \<in> {''clean.log'', ''vuln.log'', ''protected.log'', ''sink.log''} \<Longrightarrow>
      \<exists>v'. sys_write sys v p t = (Ok (), v') \<and> I v'"
    and "I v \<Longrightarrow> \<exists>sink v'. sys_read_to_string sys v sink_log = (Ok sink, v') \<and> I v'"
  using assms unfolding contrast_system_def by blast+

text \<open>A run of the agent from the contrast.\<close>

lemma run_agent_prints:
  assumes sys: "contrast_system c os h tree inherited r sys I"
    and agent: "\<exists>v'. agent_process c os h tree inherited r (agent_command False calls authz) v = (Returned, ls, v') \<and> I v'"
    and valid: "utf8_valid (lines_text ls)" and log: "log \<in> {''clean.log'', ''vuln.log'', ''protected.log'', ''sink.log''}"
  shows "\<exists>v'. run_agent sys (agent_command False calls authz) log (v, text) = (Ok (lines_text ls), v', text @ lines_text ls) \<and> I v'"
proof -
  obtain v1 where v1: "agent_process c os h tree inherited r (agent_command False calls authz) v = (Returned, ls, v1)" "I v1"
    using agent by blast
  have "cmd_program (agent_command False calls authz) = ''target/debug/warden-agent''" by (simp add: agent_command_def)
  from contrast_systemD(1) [OF sys this v1(1)] obtain out where
    out: "sys_output sys v (agent_command False calls authz) = (Ok out, v1)" "out_stdout out = lines_text ls" by blast
  obtain v2 where v2: "sys_write sys v1 log (lines_text ls) = (Ok (), v2)" "I v2"
    using contrast_systemD(4) [OF sys v1(2) log] by blast
  have "utf8_lossy (lines_text ls) = lines_text ls" using valid by simp
  with out v2 show ?thesis
    by (simp add: run_agent_def io_bind_def io_lift_def on_world_def put_text_def)
qed

text \<open>What the contrast prints after the report of the set-up.\<close>

definition run_banner :: "string \<Rightarrow> string \<Rightarrow> string" where
  "run_banner title remark = lines_text ([] # banner title @ [[]]) @ lines_text [remark @ newline]"

definition contrast_text :: "('kp, 'pk, 'b, 'tok) crates \<Rightarrow> uuid \<Rightarrow> string \<Rightarrow> string \<Rightarrow> string" where
  "contrast_text c u note sink =
     run_banner (''  CLEAN RUN  (no injection '' @ em_dash @ '' legitimate work only)          '')
       ''(Should succeed under both modes; shown with AUTHZ=on)''
     @ lines_text (protected_lines c u clean_answers)
     @ run_banner (''  INJECTED VULN  (AUTHZ=off '' @ em_dash @ '' ambient authority)            '')
       ''(The malicious instructions in AGENT_NOTE.md should succeed)''
     @ lines_text (vulnerable_lines c u (vulnerable_answers note))
     @ run_banner (''  INJECTED PROTECTED  (AUTHZ=on '' @ em_dash @ '' capability enforcement)   '')
       ''(Out-of-scope actions must be structurally denied while legit work succeeds)''
     @ lines_text (protected_lines c u (protected_answers note))
     @ lines_text ([] # banner ''  ARTIFACTS SAVED                                           '')
     @ lines_text artifacts_report
     @ lines_text ([] # banner ''  KEY DIFFERENCES                                           '' @ [[]])
     @ lines_text (key_differences False sink
         \<lparr>exfil_captured = trim sink \<noteq> [], vuln_denied_anything = False, prot_scope_denial = True,
          prot_exec_denial = False, prot_network_denial = True, prot_attenuated = True\<rparr>)"

lemma put_lines_io [simp]: "put_lines ls (w, text) = (Ok (), w, text @ lines_text ls)"
  by (simp add: put_lines_def put_text_def)

lemma put_banner_io [simp]:
  "put_banner title gap (w, text) = (Ok (), w, text @ lines_text ([] # banner title @ (if gap then [[]] else [])))"
  by (simp add: put_banner_def)

text \<open>The three runs of the contrast.\<close>

lemma titled_run:
  assumes "\<And>t. \<exists>w'. agent (w, t) = (Ok out, w', t @ out) \<and> I w'"
  shows "\<exists>w'. io_bind (put_banner title True) (\<lambda>_. io_bind (put_lines [remark @ newline]) (\<lambda>_. agent)) (w, text)
    = (Ok out, w', text @ run_banner title remark @ out) \<and> I w'"
  using assms [of "text @ run_banner title remark"] by (simp add: io_bind_def run_banner_def)

lemma scripted_runs:
  assumes crates: "test_crates c facts root_of lo hi" and demo: "demo_system c os tree lo hi start memo I"
    and exposed: "exposed_system os I" and sys: "contrast_system c os h tree inherited r sys I"
    and u: "uuid_parse_str c ''00000000-0000-0000-0000-000000000001'' = Some u" and ids: "uuid_text c" and I: "I v"
  shows "\<exists>w'. run_agent sys (agent_command False ''demo/examples/clean-calls.json'' ''on'') ''clean.log'' (v, t)
      = (Ok (lines_text (protected_lines c u clean_answers)), w', t @ lines_text (protected_lines c u clean_answers)) \<and> I w'"
    and "\<exists>w'. run_agent sys (agent_command False injected_calls ''off'') ''vuln.log'' (v, t)
      = (Ok (lines_text (vulnerable_lines c u (vulnerable_answers memo))), w',
         t @ lines_text (vulnerable_lines c u (vulnerable_answers memo))) \<and> I w'"
    and "\<exists>w'. run_agent sys (agent_command False injected_calls ''on'') ''protected.log'' (v, t)
      = (Ok (lines_text (protected_lines c u (protected_answers memo))), w',
         t @ lines_text (protected_lines c u (protected_answers memo))) \<and> I w'"
proof -
  have clean_reads: "\<exists>text v'. os_read_to_string os v ''demo/examples/clean-calls.json'' = (Ok text, v')
      \<and> tree text = Some clean_calls_json \<and> I v'" if "I v" for v
    by (rule demo_systemD(4) [OF demo that])
  have inj_reads: "\<exists>text v'. os_read_to_string os v injected_calls = (Ok text, v')
      \<and> tree text = Some injected_calls_json \<and> I v'" if "I v" for v
    using demo_systemD(5) [OF demo that] by (simp add: injected_calls_def)
  note protected = protected_run [where h = h and inherited = inherited and r = r, OF crates demo u I]
  note valid = printed_valid [OF ids] and feeds = monitored_feeds [OF demo]
  have "\<exists>w'. agent_process c os h tree inherited r (agent_command False ''demo/examples/clean-calls.json'' ''on'') v
      = (Returned, protected_lines c u clean_answers, w') \<and> I w'"
    by (rule protected [OF clean_reads call_files_read(1) feeds(1)])
  from run_agent_prints [OF sys this valid(1) [OF answers_plain(1)], of "''clean.log''" t]
  show "\<exists>w'. run_agent sys (agent_command False ''demo/examples/clean-calls.json'' ''on'') ''clean.log'' (v, t)
      = (Ok (lines_text (protected_lines c u clean_answers)), w', t @ lines_text (protected_lines c u clean_answers)) \<and> I w'"
    by simp
  from run_agent_prints [OF sys vulnerable_run [OF crates demo exposed u I] valid(2) [OF answers_plain(3)], of "''vuln.log''" t]
  show "\<exists>w'. run_agent sys (agent_command False injected_calls ''off'') ''vuln.log'' (v, t)
      = (Ok (lines_text (vulnerable_lines c u (vulnerable_answers memo))), w',
         t @ lines_text (vulnerable_lines c u (vulnerable_answers memo))) \<and> I w'"
    by simp
  have "\<exists>w'. agent_process c os h tree inherited r (agent_command False injected_calls ''on'') v
      = (Returned, protected_lines c u (protected_answers memo), w') \<and> I w'"
    by (rule protected [OF inj_reads call_files_read(2) feeds(2)])
  from run_agent_prints [OF sys this valid(1) [OF answers_plain(2)], of "''protected.log''" t]
  show "\<exists>w'. run_agent sys (agent_command False injected_calls ''on'') ''protected.log'' (v, t)
      = (Ok (lines_text (protected_lines c u (protected_answers memo))), w',
         t @ lines_text (protected_lines c u (protected_answers memo))) \<and> I w'"
    by simp
qed

lemma collect_sink_ok:
  assumes sys: "contrast_system c os h tree inherited r sys I" and I: "I v"
  shows "\<exists>sink v'. collect_sink sys (v, text) = (Ok sink, v', text) \<and> I v'"
proof -
  obtain sink v1 where v1: "sys_read_to_string sys v sink_log = (Ok sink, v1)" "I v1"
    using contrast_systemD(5) [OF sys I] by blast
  obtain v2 where "sys_write sys v1 ''sink.log'' sink = (Ok (), v2)" "I v2"
    using contrast_systemD(4) [OF sys v1(2), of "''sink.log''" sink] by auto
  with v1 show ?thesis by (simp add: collect_sink_def io_bind_def io_lift_def on_world_def)
qed

lemma contrast_run:
  assumes crates: "test_crates c facts root_of lo hi" and demo: "demo_system c os tree lo hi start memo I"
    and exposed: "exposed_system os I" and sys: "contrast_system c os h tree inherited r sys I"
    and u: "uuid_parse_str c ''00000000-0000-0000-0000-000000000001'' = Some u" and ids: "uuid_text c"
    and ready: "run_setup sys (w, text) = (Ok (), w1, text1)" "I w1"
  shows "\<exists>sink w'. contrast_runs sys False (w, text) = (Ok (), w', text1 @ contrast_text c u memo sink) \<and> I w'"
proof -
  obtain q v1 where v1: "sys_remove_file sys w1 sink_log = (q, v1)" "q \<noteq> Panic" "I v1"
    using contrast_systemD(2) [OF sys ready(2)] by (cases "sys_remove_file sys w1 sink_log") auto
  then have removed: "ignoring (on_world (\<lambda>w. sys_remove_file sys w sink_log)) (w1, text1) = (Ok (), v1, text1)"
    by (cases q) (simp_all add: ignoring_def on_world_def)
  let ?v2 = "sys_spawn_listener sys v1 9999 sink_log"
  let ?clean = "lines_text (protected_lines c u clean_answers)"
    and ?vuln = "lines_text (vulnerable_lines c u (vulnerable_answers memo))"
    and ?prot = "lines_text (protected_lines c u (protected_answers memo))"
  note runs = scripted_runs [OF crates demo exposed sys u ids]
  obtain v3 t3 where clean: "clean_run sys (?v2, text1) = (Ok ?clean, v3, t3)" "I v3"
      "t3 = text1 @ run_banner (''  CLEAN RUN  (no injection '' @ em_dash @ '' legitimate work only)          '')
         ''(Should succeed under both modes; shown with AUTHZ=on)'' @ ?clean"
    using titled_run [where I = I and out = ?clean
        and agent = "run_agent sys (agent_command False ''demo/examples/clean-calls.json'' ''on'') ''clean.log''", OF runs(1) [OF contrast_systemD(3) [OF sys v1(3)]]] unfolding clean_run_def by blast
  obtain v4 t4 where vuln: "vuln_run sys False (v3, t3) = (Ok ?vuln, v4, t4)" "I v4"
      "t4 = t3 @ run_banner (''  INJECTED VULN  (AUTHZ=off '' @ em_dash @ '' ambient authority)            '')
         ''(The malicious instructions in AGENT_NOTE.md should succeed)'' @ ?vuln"
    using titled_run [where I = I and out = ?vuln
        and agent = "run_agent sys (agent_command False injected_calls ''off'') ''vuln.log''", OF runs(2) [OF clean(2)]] unfolding vuln_run_def by blast
  obtain v5 t5 where prot: "prot_run sys False (v4, t4) = (Ok ?prot, v5, t5)" "I v5"
      "t5 = t4 @ run_banner (''  INJECTED PROTECTED  (AUTHZ=on '' @ em_dash @ '' capability enforcement)   '')
         ''(Out-of-scope actions must be structurally denied while legit work succeeds)'' @ ?prot"
    using titled_run [where I = I and out = ?prot
        and agent = "run_agent sys (agent_command False injected_calls ''on'') ''protected.log''", OF runs(3) [OF vuln(2)]] unfolding prot_run_def by blast
  obtain sink v6 where sink: "collect_sink sys (v5, t5) = (Ok sink, v6, t5)" "I v6"
    using collect_sink_ok [OF sys prot(2)] by blast
  have spawned: "on_world (\<lambda>w. (Ok (), sys_spawn_listener sys w 9999 sink_log)) (v1, text1) = (Ok (), ?v2, text1)"
    by (simp add: on_world_def)
  have "contrast_runs sys False (w, text) = (Ok (), v6, t5 @ lines_text ([] # banner ''  ARTIFACTS SAVED                                           '')
      @ lines_text artifacts_report
      @ lines_text ([] # banner ''  KEY DIFFERENCES                                           '' @ [[]])
      @ lines_text (key_differences False sink (verdict_of ?vuln ?prot sink)))"
    by (simp add: contrast_runs_def io_bind_def ready(1) removed spawned clean(1) vuln(1) prot(1) sink(1))
  then have "contrast_runs sys False (w, text) = (Ok (), v6, text1 @ contrast_text c u memo sink)"
    by (simp only: clean(3) vuln(3) prot(3) contrast_text_def demo_verdict [OF ids] append_assoc)
  with sink(2) show ?thesis by blast
qed

section \<open>The command\<close>

text \<open>A set-up that succeeds prints its report and nothing else.\<close>

lemma on_world_prints: "on_world f (w, t) = (r, w', t') \<Longrightarrow> t' = t"
  by (auto simp: on_world_def split: prod.splits)

lemma copy_files_prints: "copy_files sys names (w, t) = (r, w', t') \<Longrightarrow> t' = t"
  by (induction names arbitrary: w) (auto simp: io_bind_def split: prod.splits res.splits dest: on_world_prints)

lemma run_setup_prints:
  assumes "run_setup sys (w, t) = (Ok (), w', t')"
  shows "t' = t @ lines_text setup_report"
proof -
  have first: "t1 = t" if "(if b then on_world f else io_lift (Ok ())) (w, t) = (r, w1, t1)" for b f r w1 t1
    using that by (cases b) (auto simp: io_lift_def dest: on_world_prints)
  show ?thesis using assms
    by (auto simp: run_setup_def io_bind_Ok_iff dest!: first on_world_prints copy_files_prints)
qed

definition contrast_heading :: "string list" where
  "contrast_heading =
     [''=== Warden Demo Contrast (vuln vs protected) ==='',
      (''(scripted principal '' @ em_dash @ '' deterministic replay)'') @ newline]"

lemma contrast_command:
  assumes "contrast_runs sys False (w, text @ lines_text contrast_heading) = (Ok (), w', text')"
    and sub: "sub \<in> {''contrast'', ''run-contrast''}"
  shows "demo_main c sys rounds base_url [prog, sub] (w, text) = (Ok Returned, w', text')"
proof -
  have "run_contrast sys base_url [] (w, text) = (Ok Returned, w', text')"
    using assms(1) by (simp add: run_contrast_def io_bind_def io_lift_def contrast_heading_def Let_def)
  with sub show ?thesis by (auto simp: demo_main_def)
qed

end
