(* ===== verification/Spec2Isabelle.thy ===== *)
theory Spec2Isabelle
  imports Props_Authority Props_Token Props_Tools Props_Audit Props_Agent Props_Live Props_Demo
    Props_System Props_Tests Props_Examples
begin

text \<open>
  A verification of Warden, the capability framework of this repository, in which an untrusted
  principal (a language model, or a script) drives tools through an orchestrator that attenuates a
  signed capability for every call.

  \<^bold>\<open>The program and its theories.\<close>  Every definition is named like the function or type it
  models, and each theory opens by naming its source file.

    \<^item> \<open>manifest/src/lib.rs\<close>: the task manifest and \<open>validate\<close>, in \<open>Manifest\<close>.
    \<^item> \<open>capability/src/lib.rs\<close>: permission sets, path resolution, time to live and the checks of an
      attenuation in \<open>Permissions\<close>; minting, attenuating and verifying in \<open>Capability\<close>.
    \<^item> \<open>capability/src/biscuit_codec.rs\<close>: the Datalog text of a block and its decoding, in \<open>Codec\<close>.
    \<^item> \<open>pdp/src/lib.rs\<close> and \<open>pdp/src/linter.rs\<close>: \<open>decide\<close> and \<open>lint\<close>, in \<open>Pdp\<close>.
    \<^item> \<open>pep/src/lib.rs\<close>: \<open>verify\<close>, in \<open>Pep\<close>.
    \<^item> \<open>tools/src/lib.rs\<close>: bindings, \<open>authorize_only\<close>, \<open>execute\<close>, \<open>dispatch\<close>, in \<open>Tools\<close>.
    \<^item> \<open>audit/src/lib.rs\<close>: the hash-chained log, in \<open>Audit_Log\<close>.
    \<^item> \<open>agent/src/lib.rs\<close>: the orchestrator and its steps in \<open>Agent\<close>, the loop and the scripted
      principal in \<open>Agent_Loop\<close>, the OpenAI-compatible principal in \<open>Live_Principal\<close>.
    \<^item> the JSON formats (the derived \<open>Serialize\<close> and \<open>Deserialize\<close> of manifests, tool calls, requests
      and responses, with \<open>#[serde(default)]\<close>), in \<open>Wire\<close>.
    \<^item> \<open>agent/src/main.rs\<close> and \<open>sandbox/src/lib.rs\<close>: the command line and the stub, in \<open>Cli\<close>.
    \<^item> \<open>demo/src/main.rs\<close>: the fixture and the canary sink in \<open>Demo\<close>, the contrast of the two modes and
      its verdicts in \<open>Contrast\<close>.
    \<^item> \<open>demo/examples\<close>: the manifest and the two feeds of the demo, as JSON trees, in \<open>Demo_Examples\<close>.
    \<^item> \<open>pep/examples/serde_boundary_attack.rs\<close>: the example program, in \<open>Serde_Attack\<close>.
    \<^item> \<open>spikes/landlock-docker/src/main.rs\<close>: the containment spike, in \<open>Spike\<close>.
    \<^item> the unit tests of the crates, as predicates of keys, file systems and generated values, in
      \<open>Capability_Tests\<close> (capability), \<open>Policy_Tests\<close> (pdp, pep, sandbox), \<open>Effect_Tests\<close> (audit, tools) and
      \<open>Agent_Tests\<close> (agent), over \<open>Test_Support\<close>; \<open>agent/tests/enforcement.rs\<close> in \<open>Acceptance\<close>.

  \<^bold>\<open>How the code is represented.\<close>  Structs are records, enums datatypes.  A \<open>Result\<close> is the type
  \<open>res\<close> of \<open>Warden_Prelude\<close> with a third case \<open>Panic\<close> for every panic the code can reach; code with
  effects is a function of a world (\<open>io\<close>), in the order of its calls.  Strings and paths are byte
  strings (\<open>Rust_Text\<close> has UTF-8 validity, lossy decoding, counting, trimming; \<open>Rust_Path\<close> has
  \<open>Path::components\<close>, \<open>parent\<close>, \<open>file_name\<close>, \<open>push\<close>, \<open>starts_with\<close>).  A \<open>BTreeSet\<close> is the list
  of its elements in order, and equality of paths is equality of components.  Identifiers, time to
  live and ports are words of their width; instants are nanoseconds as integers.

  \<^bold>\<open>What is a parameter.\<close>  The crates chrono, uuid, blake3, serde\_json and biscuit-auth are the
  fields of a record \<open>crates\<close>, and the operating system (clock, randomness, file system, processes,
  sockets) those of a record \<open>os\<close>, both in \<open>Crates\<close>; the HTTP client is a record \<open>http\<close>, what the demo
  asks of the system (child processes, a listening socket, files) a record \<open>sys\<close>, and the Landlock and
  seccomp crates with the system of the spike a record \<open>spike_sys\<close>.  Theorems
  that need their documented behaviour name it as a hypothesis: \<open>chrono_laws\<close>, \<open>uuid_laws\<close>,
  \<open>json_laws\<close>, \<open>biscuit_laws\<close> (a token holds the facts of its blocks, is opened by its root key
  only, and can be extended without a secret), \<open>biscuit_answers\<close> (its queries stay within the
  limits), \<open>stamp_laws\<close>.  \<open>Testbed\<close> satisfies them all with concrete functions, and \<open>Scenario\<close>
  runs the program on it; the witnesses of the properties are there.  Where hashes matter, a
  theorem assumes that blake3 does not collide on the inputs at hand.

  \<^bold>\<open>What the lemmas show.\<close>
    \<^item> \<open>Permissions\<close>, \<open>Attenuation\<close>: the loop that resolves a path gives the canonical form of the
      deepest existing ancestor, being under a root is transitive, an accepted request narrows.
    \<^item> \<open>Codec_Facts\<close>, \<open>Token_Chain\<close>, \<open>Capability_Facts\<close>, \<open>Verified_State\<close>: texts round-trip, a
      token of \<open>n\<close> blocks decodes to its last block, every descendant of a root is within it.
    \<^item> \<open>Tools_Facts\<close>, \<open>Honest_Use\<close>: what a binding identifies, and the exact verdict on a capability
      that was honestly made.
    \<^item> \<open>Audit_Facts\<close>: encodings of entries are injective, and a verified chain is determined by its
      last hash.
    \<^item> \<open>Agent_Facts\<close>, \<open>Loop_Facts\<close>, \<open>Run_Facts\<close>: steps say truthfully what they did; runs of any
      principal are confined to the manifest's authority (\<open>action\<close> is the step relation of the
      world), keep the log valid and account for every outcome; scripted runs are folds.
    \<^item> \<open>Availability\<close>: the other direction, a step executes every call that the policy allows.
    \<^item> \<open>Monitor\<close>: a reference monitor with the root's permissions alone, no tokens, expiries or log; while
      the clock is in time and the roots are stable, enforced runs are exactly its runs (\<open>run_monitored\<close>).
    \<^item> \<open>Well_Typed\<close>: typing predicates for permission sets, bindings, caveats and children, kept by every
      operation that makes one.
    \<^item> \<open>Live_Facts\<close>, \<open>Cli_Facts\<close>: conversations are closed, requests bounded, the program contained.
    \<^item> \<open>Wire_Facts\<close>: readers invert writers, and what has no form or is refused.
    \<^item> \<open>Steady\<close>: runs in worlds where nothing that is allowed disturbs a condition, on which the
      acceptance tests and the demo's runs rest.
    \<^item> \<open>Demo_Facts\<close>: searching printed lines, and what the agent's output can and cannot contain.
    \<^item> \<open>Demo_Runs\<close>, \<open>Demo_Contrast\<close>: every line the agent prints on the example files in either mode,
      from the text of the files to the audit log, and every line of the demo's contrast over them.
    \<^item> \<open>Serde_Attack\<close>: the example runs to its end, with one possible output.  \<open>Spike\<close>: what the spike
      observed determines its verdict.
    \<^item> The theories of tests: each test of the repository passes on every system that keeps the laws,
      for all keys and all values its generators produce, but for one, which fails on one value.

  The interfaces between components are locales, each interpreted on the model's definitions:
  \<open>authority\<close> (permission sets and the decision point), \<open>text_codec\<close>, \<open>attenuator\<close> (roots and
  children), \<open>hash_chain\<close>, \<open>loop_relation\<close> (log and world), \<open>finite_principal\<close> (the scripted one),
  \<open>conversing_principal\<close> (the live one).  The properties are in the theories \<open>Props_Authority\<close>,
  \<open>Props_Token\<close>, \<open>Props_Tools\<close>, \<open>Props_Audit\<close>, \<open>Props_Agent\<close>, \<open>Props_Live\<close>,
  \<open>Props_Demo\<close>, \<open>Props_System\<close>, \<open>Props_Tests\<close> and \<open>Props_Examples\<close>.

  \<^bold>\<open>Bounds.\<close>  The only bounded loops are the program's own: the turn limit of \<open>run_principal\<close>, which
  for a scripted principal is its number of calls plus one and always enough, and the three retries
  of a live turn.  The sink of the demo accepts connections for ever: \<open>serve\<close> follows it for any
  number of them.  Everything else terminates by structure or by a measure.

  \<^bold>\<open>Not modelled.\<close>  The parsing of a text into a JSON tree and back, which is serde\_json's (what a tree
  is read as is modelled); the positions and messages of its errors; what is printed to standard error,
  and pauses; the thread of the demo's sink, which the contrast starts through \<open>sys\<close>; the creation of
  the acceptance tests' files, which their system provides; the shell scripts and the shell spike, which
  call the programs from outside.
\<close>

end
